theory Spec2Isabelle
  imports Complex_Main "HOL-Library.Word"
begin

unbundle bit_operations_syntax

section \<open>Glitch Clocks: the timing engine of \<open>glitch-clocks.ino\<close>\<close>

text \<open>
  The sketch drives up to four lanes of slave clocks.  This theory embeds its
  timing engine: the per-lane scheduler, the mode register with its effects, and
  the weight table of the random glitch engine.

  Modelling conventions.
  \<^item> \<open>uint32_t\<close>, \<open>uint16_t\<close>, \<open>int16_t\<close>, \<open>uint8_t\<close> and \<open>int\<close> are machine
    words; the test \<open>(int32_t)(a - b) < 0\<close> is \<open>sint (a - b) < 0\<close>.
  \<^item> \<open>float\<close> values are modelled by the real numbers they denote; the rounding
    of single-precision arithmetic is not modelled.
  \<^item> \<open>millis()\<close>, \<open>esp_random()\<close> and \<open>random()\<close> read the outside world.  The
    values they return are given by two tapes (\<open>io\<close>); the engine state counts
    how many values of each tape have been read so far.
  \<^item> The lane objects \<open>A\<close>, \<open>B\<close>, \<open>C\<close>, \<open>D\<close> are the cells 0, 1, 2, 3 of the lane
    store; \<open>LANES\<close> is the array of the first \<open>NLANES\<close> cells (both definitions
    of \<open>LANES\<close> in the sketch, the active one and the commented one, have this
    form).
  \<^item> Writes to the driver pins are recorded as the list \<open>pulses\<close> of the
    energize events \<open>(lane, time)\<close>, newest first.  Serial output is omitted.
  \<^item> A function that contains a loop without a bound returns an \<open>option\<close>:
    \<open>None\<close> means that the call does not return.
\<close>

type_synonym u8 = "8 word"
type_synonym u16 = "16 word"
type_synonym i16 = "16 word"
type_synonym u32 = "32 word"
type_synonym i32 = "32 word"

subsection \<open>Tunable globals\<close>

text \<open>
  The globals at the top of the sketch that the properties below range over are
  the fields of \<open>config\<close>; \<open>sketch_config\<close> holds the values of the sketch.  The
  remaining tunables are constants with the values of the sketch.
\<close>

record config =
  NLANES :: nat
  PULSE_ON_MS :: u16
  MIN_OFF_MS :: u16
  JITTER_MS :: i16
  W_PAUSE :: real
  W_STAGGER :: real
  W_SYNC :: real
  W_BEAT :: real
  W_ACCEL :: real
  W_DECEL :: real
  W_COUNTER :: real
  W_STORM :: real
  W_SNAP :: real
  W_SCOPE :: real
  W_REORG :: real
  LONG_PAUSE_COOLDOWN :: u32
  STAGGER_STOP_STEP_MS :: u32
  STAGGER_SILENCE_MS :: u32
  SYNC_BPM :: u16
  SYNC_HOLD_MS :: u32
  SYNC_COOLDOWN_MS :: u32

definition sketch_config :: config where
  "sketch_config = \<lparr> NLANES = 4, PULSE_ON_MS = 120, MIN_OFF_MS = 120, JITTER_MS = 10,
     W_PAUSE = 0.08, W_STAGGER = 0.08, W_SYNC = 0.10, W_BEAT = 0.03, W_ACCEL = 0.10,
     W_DECEL = 0.10, W_COUNTER = 0.08, W_STORM = 0.08, W_SNAP = 0.06, W_SCOPE = 0.06,
     W_REORG = 0.06, LONG_PAUSE_COOLDOWN = 40000, STAGGER_STOP_STEP_MS = 700,
     STAGGER_SILENCE_MS = 3500, SYNC_BPM = 120, SYNC_HOLD_MS = 8000,
     SYNC_COOLDOWN_MS = 10000 \<rparr>"

definition BASE_HZ_A :: real where "BASE_HZ_A = 1.00"
definition BASE_HZ_B :: real where "BASE_HZ_B = 0.98"
definition BASE_HZ_C :: real where "BASE_HZ_C = 1.02"
definition BASE_HZ_D :: real where "BASE_HZ_D = 1.01"

definition GLITCH_CHECK_MS :: u32 where "GLITCH_CHECK_MS = 4000"
definition GLITCH_PROB :: real where "GLITCH_PROB = 0.4"

definition NUDGE_MAX_PCT :: real where "NUDGE_MAX_PCT = 0.03"
definition NUDGE_MIN_MS :: u32 where "NUDGE_MIN_MS = 2000"
definition NUDGE_MAX_MS :: u32 where "NUDGE_MAX_MS = 8000"
definition FREEZE_MIN_MS :: u32 where "FREEZE_MIN_MS = 2000"
definition FREEZE_MAX_MS :: u32 where "FREEZE_MAX_MS = 7000"
definition BURST_MIN_PULSES :: u8 where "BURST_MIN_PULSES = 3"
definition BURST_MAX_PULSES :: u8 where "BURST_MAX_PULSES = 8"
definition BURST_TARGET_MS :: u16 where "BURST_TARGET_MS = 150"

definition LONG_PAUSE_MIN_MS :: u32 where "LONG_PAUSE_MIN_MS = 10000"
definition LONG_PAUSE_MAX_MS :: u32 where "LONG_PAUSE_MAX_MS = 14000"

definition ACCEL_DUR_MS :: u32 where "ACCEL_DUR_MS = 10000"
definition ACCEL_TO_MUL_MIN :: real where "ACCEL_TO_MUL_MIN = 1.25"
definition ACCEL_TO_MUL_MAX :: real where "ACCEL_TO_MUL_MAX = 1.40"
definition DECEL_DUR_MS :: u32 where "DECEL_DUR_MS = 10000"
definition DECEL_TO_MUL_MIN :: real where "DECEL_TO_MUL_MIN = 0.70"
definition DECEL_TO_MUL_MAX :: real where "DECEL_TO_MUL_MAX = 0.85"

definition COUNTERBAL_DUR_MS :: u32 where "COUNTERBAL_DUR_MS = 8000"
definition COUNTERBAL_DELTA_MIN :: real where "COUNTERBAL_DELTA_MIN = 0.20"
definition COUNTERBAL_DELTA_MAX :: real where "COUNTERBAL_DELTA_MAX = 0.35"

definition STORM_DUR_MS :: u32 where "STORM_DUR_MS = 3500"
definition STORM_TICK_MIN_MS :: u32 where "STORM_TICK_MIN_MS = 180"
definition STORM_TICK_MAX_MS :: u32 where "STORM_TICK_MAX_MS = 350"

definition SCOPE_DUR_MS :: u32 where "SCOPE_DUR_MS = 60000"
definition SCOPE_DH :: real where "SCOPE_DH = 0.01"

definition LIVENESS_WARN_MS :: u32 where "LIVENESS_WARN_MS = 20000"

subsection \<open>Beat patterns\<close>

record BeatPattern =
  bpm :: u16
  steps :: u8
  patA :: "u8 list"
  nA :: u8
  patB :: "u8 list"
  nB :: u8
  patC :: "u8 list"
  nC :: u8
  bars :: u8

definition DEMBOW :: BeatPattern where
  "DEMBOW = \<lparr> bpm = 95, steps = 16, patA = [0, 6, 8, 14], nA = 4, patB = [4, 12], nB = 2,
     patC = [2, 6, 10, 14], nC = 4, bars = 4 \<rparr>"

definition ROCK :: BeatPattern where
  "ROCK = \<lparr> bpm = 104, steps = 16, patA = [0, 8], nA = 2, patB = [4, 12], nB = 2,
     patC = [2, 6, 10, 14], nC = 4, bars = 4 \<rparr>"

subsection \<open>Lanes, modes and the engine state\<close>

record Lane =
  baseHz :: real
  nudgeMul :: real
  nudgeUntil :: u32
  nextDue :: u32
  nextFree :: u32
  coilOffAt :: u32
  running :: bool
  pol :: bool
  minute :: u8
  freezeUntil :: u32
  burstRemain :: u8
  savedHz :: real

datatype Mode =
    MODE_NORMAL
  | MODE_BEAT
  | MODE_SYNC_LOCK
  | MODE_LONG_PAUSE
  | MODE_STAGGER_BLACKOUT
  | MODE_ACCEL
  | MODE_DECEL
  | MODE_SCOPE_CREEP
  | MODE_PHASE_SNAP
  | MODE_COUNTERBAL
  | MODE_EMAIL_STORM

record BeatState =
  pat :: "BeatPattern option"
  stepPeriodMs :: u32
  nextStepAt :: u32
  step :: u8
  barsLeft :: u8

record engine =
  lanes :: "nat \<Rightarrow> Lane"
  mode :: Mode
  beat :: BeatState
  lastAnyPulseAt :: u32
  lastSyncEnd :: u32
  modeEndsAt :: u32
  lastLongPauseEnd :: u32
  rampStart :: u32
  rampEnd :: u32
  rampTo :: real
  cbUp :: i32
  cbDown :: i32
  cbStart :: u32
  cbEnd :: u32
  cbDelta :: real
  stormEnd :: u32
  nextStormTick :: u32
  scopeStartHz :: "nat \<Rightarrow> real"
  scopeStart :: u32
  scopeEnd :: u32
  snapRef :: i32
  snapFol :: i32
  snapEnd :: u32
  cumW :: "nat \<Rightarrow> real"
  lastTry :: u32
  lastLivenessLog :: u32
  pulses :: "(nat \<times> u32) list"
  clockReads :: nat
  randomReads :: nat

record io =
  millisTape :: "nat \<Rightarrow> u32"
  randomTape :: "nat \<Rightarrow> u32"

subsection \<open>Clock and random sources\<close>

definition millis :: "io \<Rightarrow> engine \<Rightarrow> u32" where
  "millis w s = millisTape w (clockReads s)"

definition clockRead :: "engine \<Rightarrow> engine" where
  "clockRead s = s\<lparr>clockReads := Suc (clockReads s)\<rparr>"

definition esp_random :: "io \<Rightarrow> engine \<Rightarrow> u32" where
  "esp_random w s = randomTape w (randomReads s)"

definition randomRead :: "engine \<Rightarrow> engine" where
  "randomRead s = s\<lparr>randomReads := Suc (randomReads s)\<rparr>"

text \<open>
  \<open>rng(lo, hi)\<close> is \<open>lo + (esp_random() % (uint32_t)(hi - lo + 1))\<close>; \<open>r\<close> is the
  value that \<open>esp_random()\<close> returned.  The sketch never calls it with
  \<open>hi - lo + 1 = 0\<close> as long as \<open>NLANES\<close> is at least 1.
\<close>

definition rng :: "i32 \<Rightarrow> i32 \<Rightarrow> u32 \<Rightarrow> i32" where
  "rng lo hi r = lo + (r mod (hi - lo + 1))"

text \<open>
  \<open>random(lo, hi)\<close> of the Arduino core on a raw draw \<open>r\<close>: a value of
  \<open>[lo, hi)\<close>, and \<open>lo\<close> when the range is empty.
\<close>

definition random_range :: "int \<Rightarrow> int \<Rightarrow> u32 \<Rightarrow> int" where
  "random_range lo hi r = (if hi \<le> lo then lo else lo + uint r mod (hi - lo))"

text \<open>The conversion \<open>(int)x\<close> of a float truncates towards zero.\<close>

definition trunc_int :: "real \<Rightarrow> int" where
  "trunc_int x = (if 0 \<le> x then \<lfloor>x\<rfloor> else \<lceil>x\<rceil>)"

text \<open>\<open>constrain(x, lo, hi)\<close> of the Arduino core.\<close>

definition constrain :: "real \<Rightarrow> real \<Rightarrow> real \<Rightarrow> real" where
  "constrain x lo hi = (if x < lo then lo else if hi < x then hi else x)"

subsection \<open>Lane engine\<close>

definition laneA :: nat where "laneA = 0"
definition laneB :: nat where "laneB = 1"
definition laneC :: nat where "laneC = 2"
definition laneD :: nat where "laneD = 3"

definition LANES :: "config \<Rightarrow> nat list" where
  "LANES cfg = [0 ..< NLANES cfg]"

definition setLane :: "nat \<Rightarrow> Lane \<Rightarrow> engine \<Rightarrow> engine" where
  "setLane i L s = s\<lparr>lanes := (lanes s)(i := L)\<rparr>"

text \<open>\<open>for (Lane* L : LANES) body\<close> and \<open>for (size_t i = 0; i < NLANES; i++) body\<close>.\<close>

definition forLanes :: "config \<Rightarrow> (nat \<Rightarrow> engine \<Rightarrow> engine) \<Rightarrow> engine \<Rightarrow> engine" where
  "forLanes cfg body s = fold body (LANES cfg) s"

text \<open>
  \<open>periodMs\<close> is \<open>roundf(1000.0f / effHz)\<close>, computed here on the reals.  Where
  the quotient lies within single-precision rounding error of a half, the sketch
  may return a period that differs by 1 ms.
\<close>

definition periodMs :: "Lane \<Rightarrow> u32" where
  "periodMs L = (let effHz = max 0.001 (baseHz L * nudgeMul L)
                 in word_of_int (round (1000 / effHz)))"

definition coilOn :: "config \<Rightarrow> io \<Rightarrow> nat \<Rightarrow> engine \<Rightarrow> engine" where
  "coilOn cfg w i s =
     (let now = millis w s; s1 = clockRead s; L = lanes s1 i
      in if sint (now - nextFree L) < 0 then s1
         else (setLane i
                 (L\<lparr>coilOffAt := now + ucast (PULSE_ON_MS cfg),
                    nextFree := now + ucast (PULSE_ON_MS cfg) + ucast (MIN_OFF_MS cfg),
                    pol := \<not> pol L,
                    minute := word_of_nat ((unat (minute L) + 1) mod 60)\<rparr>) s1)
              \<lparr>lastAnyPulseAt := now, pulses := (i, now) # pulses s1\<rparr>)"

definition maybeCoilOff :: "nat \<Rightarrow> u32 \<Rightarrow> engine \<Rightarrow> engine" where
  "maybeCoilOff i now s =
     (let L = lanes s i
      in if coilOffAt L \<noteq> 0 \<and> 0 \<le> sint (now - coilOffAt L)
         then setLane i (L\<lparr>coilOffAt := 0\<rparr>) s else s)"

definition scheduleNext :: "config \<Rightarrow> io \<Rightarrow> nat \<Rightarrow> u32 \<Rightarrow> engine \<Rightarrow> engine" where
  "scheduleNext cfg w i now s =
     (let base = periodMs (lanes s i);
          J = scast (JITTER_MS cfg) :: i32;
          j = (if 0 < sint (JITTER_MS cfg) then rng (- J) J (esp_random w s) else 0);
          s1 = (if 0 < sint (JITTER_MS cfg) then randomRead s else s);
          L = lanes s1 i
      in if sint (base * 4) < sint (now - nextDue L)
         then setLane i (L\<lparr>nextDue := now + base + j\<rparr>) s1
         else setLane i (L\<lparr>nextDue := nextDue L + base + j\<rparr>) s1)"

definition setupLane :: "io \<Rightarrow> nat \<Rightarrow> engine \<Rightarrow> engine" where
  "setupLane w i s =
     (let now = millis w s; s1 = clockRead s;
          r = rng 0 500 (esp_random w s1); s2 = randomRead s1; L = lanes s2 i
      in setLane i (L\<lparr>nextDue := now + r, nextFree := now\<rparr>) s2)"

subsection \<open>Beat\<close>

definition clearTransientsAll :: "config \<Rightarrow> engine \<Rightarrow> engine" where
  "clearTransientsAll cfg s =
     forLanes cfg (\<lambda>i s. setLane i ((lanes s i)\<lparr>burstRemain := 0, freezeUntil := 0,
                                              nudgeMul := 1, nudgeUntil := 0\<rparr>) s) s"

text \<open>
  \<open>hasStep(arr, n, step)\<close> scans the first \<open>n\<close> entries of \<open>arr\<close>; the patterns
  of the sketch pass \<open>n = sizeof(arr)\<close>.  Both patterns have 16 steps, so the
  \<open>% beat.pat->steps\<close> of \<open>handleBeat\<close> never divides by zero.
\<close>

definition hasStep :: "u8 list \<Rightarrow> u8 \<Rightarrow> u8 \<Rightarrow> bool" where
  "hasStep arr n st = list_ex (\<lambda>x. x = st) (take (unat n) arr)"

definition startBeat :: "config \<Rightarrow> io \<Rightarrow> BeatPattern \<Rightarrow> engine \<Rightarrow> engine" where
  "startBeat cfg w p s =
     (let s1 = clearTransientsAll cfg s;
          s2 = forLanes cfg (\<lambda>i s. setLane i ((lanes s i)\<lparr>running := False\<rparr>) s) s1;
          now = millis w s2; s3 = clockRead s2
      in s3\<lparr>beat := \<lparr> pat = Some p,
                       stepPeriodMs = word_of_int (round ((60000 / real (unat (bpm p))) / 4)),
                       nextStepAt = now + 20, step = 0, barsLeft = bars p \<rparr>,
             mode := MODE_BEAT\<rparr>)"

definition endBeat :: "config \<Rightarrow> io \<Rightarrow> engine \<Rightarrow> engine" where
  "endBeat cfg w s =
     (let s1 = forLanes cfg (\<lambda>i s. setLane i ((lanes s i)\<lparr>running := True,
                   nextDue := millis w s + periodMs (lanes s i)\<rparr>) (clockRead s)) s
      in s1\<lparr>mode := MODE_NORMAL, beat := (beat s1)\<lparr>pat := None\<rparr>\<rparr>)"

definition handleBeat :: "config \<Rightarrow> io \<Rightarrow> u32 \<Rightarrow> engine \<Rightarrow> engine" where
  "handleBeat cfg w now s =
     (case pat (beat s) of
        None \<Rightarrow> s
      | Some p \<Rightarrow>
          if sint (now - nextStepAt (beat s)) < 0 then s
          else
            let s1 = (if hasStep (patA p) (nA p) (step (beat s)) then coilOn cfg w laneA s else s);
                s2 = (if hasStep (patB p) (nB p) (step (beat s1)) then coilOn cfg w laneB s1 else s1);
                s3 = (if hasStep (patC p) (nC p) (step (beat s2)) then coilOn cfg w laneC s2 else s2);
                J = scast (JITTER_MS cfg) :: i32;
                j = (if 0 < sint (JITTER_MS cfg)
                     then rng (- (J div 2)) (J div 2) (esp_random w s3) else 0);
                s4 = (if 0 < sint (JITTER_MS cfg) then randomRead s3 else s3);
                b = beat s4;
                st = word_of_nat ((unat (step b) + 1) mod unat (steps p)) :: u8;
                b1 = b\<lparr>nextStepAt := nextStepAt b + (stepPeriodMs b + j), step := st\<rparr>
            in if st = 0 \<and> barsLeft b1 \<noteq> 0
               then (let b2 = b1\<lparr>barsLeft := barsLeft b1 - 1\<rparr>
                     in if barsLeft b2 = 0 then endBeat cfg w (s4\<lparr>beat := b2\<rparr>)
                        else s4\<lparr>beat := b2\<rparr>)
               else s4\<lparr>beat := b1\<rparr>)"

subsection \<open>Sync-lock\<close>

definition startSyncLock :: "config \<Rightarrow> io \<Rightarrow> engine \<Rightarrow> engine" where
  "startSyncLock cfg w s =
     (let m = millis w s; s1 = clockRead s
      in if sint (m - lastSyncEnd s1) < sint (SYNC_COOLDOWN_MS cfg) then s1
         else
           let s2 = clearTransientsAll cfg s1;
               now = millis w s2; s3 = clockRead s2;
               s4 = forLanes cfg (\<lambda>i s. setLane i ((lanes s i)\<lparr>savedHz := baseHz (lanes s i),
                       baseHz := real (unat (SYNC_BPM cfg)) / 60,
                       running := True, nextDue := now + 50, pol := False\<rparr>) s) s3
           in s4\<lparr>mode := MODE_SYNC_LOCK, modeEndsAt := now + SYNC_HOLD_MS cfg\<rparr>)"

definition endSyncLock :: "config \<Rightarrow> io \<Rightarrow> engine \<Rightarrow> engine" where
  "endSyncLock cfg w s =
     (let s1 = forLanes cfg (\<lambda>i s.
                 let L = (lanes s i)\<lparr>baseHz := savedHz (lanes s i), nudgeMul := 1,
                                     nudgeUntil := 0\<rparr>
                 in randomRead (clockRead (setLane i
                      (L\<lparr>nextDue := millis w s + periodMs L + rng 0 120 (esp_random w s)\<rparr>) s))) s
      in clockRead (s1\<lparr>mode := MODE_NORMAL, lastSyncEnd := millis w s1\<rparr>))"

subsection \<open>Long pause and stagger blackout\<close>

definition startLongPause :: "config \<Rightarrow> io \<Rightarrow> engine \<Rightarrow> engine" where
  "startLongPause cfg w s =
     (let m = millis w s; s1 = clockRead s
      in if sint (m - lastLongPauseEnd s1) < sint (LONG_PAUSE_COOLDOWN cfg) then s1
         else
           let s2 = clearTransientsAll cfg s1;
               dur = rng LONG_PAUSE_MIN_MS LONG_PAUSE_MAX_MS (esp_random w s2);
               s3 = randomRead s2;
               now = millis w s3; s4 = clockRead s3;
               s5 = forLanes cfg (\<lambda>i s. setLane i ((lanes s i)\<lparr>freezeUntil := now + dur,
                       running := False\<rparr>) s) s4
           in s5\<lparr>mode := MODE_LONG_PAUSE, modeEndsAt := now + dur\<rparr>)"

definition endLongPause :: "config \<Rightarrow> io \<Rightarrow> engine \<Rightarrow> engine" where
  "endLongPause cfg w s =
     (let s1 = forLanes cfg (\<lambda>i s. randomRead (clockRead (setLane i
                 ((lanes s i)\<lparr>running := True,
                    nextDue := millis w s + periodMs (lanes s i) + rng 0 120 (esp_random w s)\<rparr>)
                 s))) s
      in clockRead (s1\<lparr>mode := MODE_NORMAL, lastLongPauseEnd := millis w s1\<rparr>))"

definition startStaggerBlackout :: "config \<Rightarrow> io \<Rightarrow> engine \<Rightarrow> engine" where
  "startStaggerBlackout cfg w s =
     (let s1 = clearTransientsAll cfg s;
          now = millis w s1; s2 = clockRead s1;
          s3 = forLanes cfg (\<lambda>i s.
                 let stepsFromEnd = (word_of_nat (NLANES cfg) - 1) - word_of_nat i :: u32
                 in setLane i ((lanes s i)\<lparr>
                      freezeUntil := now + STAGGER_SILENCE_MS cfg
                                       + STAGGER_STOP_STEP_MS cfg * stepsFromEnd,
                      running := False\<rparr>) s) s2
      in s3\<lparr>mode := MODE_STAGGER_BLACKOUT,
             modeEndsAt := now + STAGGER_SILENCE_MS cfg
                             + STAGGER_STOP_STEP_MS cfg * (word_of_nat (NLANES cfg) - 1)\<rparr>)"

definition endStaggerBlackout :: "config \<Rightarrow> io \<Rightarrow> engine \<Rightarrow> engine" where
  "endStaggerBlackout cfg w s =
     (let s1 = forLanes cfg (\<lambda>i s. randomRead (clockRead (setLane i
                 ((lanes s i)\<lparr>running := True,
                    nextDue := millis w s + periodMs (lanes s i)
                                 + rng 0 (100 + 20 * word_of_nat i) (esp_random w s)\<rparr>)
                 s))) s
      in s1\<lparr>mode := MODE_NORMAL\<rparr>)"

subsection \<open>Accelerando and decelerando\<close>

text \<open>
  \<open>(float)rng((int)(lo * 100), (int)(hi * 100)) / 100.0f\<close>, the random target of
  a ramp, on the raw draw \<open>r\<close>.
\<close>

definition rampMul :: "real \<Rightarrow> real \<Rightarrow> u32 \<Rightarrow> real" where
  "rampMul lo hi r = real_of_int (sint (rng (word_of_int (trunc_int (lo * 100)))
                                           (word_of_int (trunc_int (hi * 100))) r)) / 100"

definition startAccelerando :: "config \<Rightarrow> io \<Rightarrow> engine \<Rightarrow> engine" where
  "startAccelerando cfg w s =
     (let s1 = clearTransientsAll cfg s;
          m = millis w s1; s2 = clockRead s1;
          s3 = s2\<lparr>rampStart := m, rampEnd := m + ACCEL_DUR_MS,
                  rampTo := rampMul ACCEL_TO_MUL_MIN ACCEL_TO_MUL_MAX (esp_random w s2)\<rparr>;
          s4 = randomRead s3;
          s5 = forLanes cfg (\<lambda>i s. setLane i ((lanes s i)\<lparr>nudgeMul := 1, nudgeUntil := 0\<rparr>) s) s4
      in s5\<lparr>mode := MODE_ACCEL\<rparr>)"

text \<open>
  The progress fraction \<open>constrain((float)(now - start) / (float)(end - start),
  0.0f, 1.0f)\<close> of the ramps.  The durations of the sketch are not zero, so
  \<open>end - start\<close> is not zero.
\<close>

definition progress :: "u32 \<Rightarrow> u32 \<Rightarrow> u32 \<Rightarrow> real" where
  "progress now start end =
     constrain (real (unat (now - start)) / real (unat (end - start))) 0 1"

definition handleAccelerando :: "config \<Rightarrow> u32 \<Rightarrow> engine \<Rightarrow> engine" where
  "handleAccelerando cfg now s =
     (let t = progress now (rampStart s) (rampEnd s);
          mul = 1 + (rampTo s - 1) * t;
          s1 = forLanes cfg (\<lambda>i s. setLane i ((lanes s i)\<lparr>nudgeMul := mul\<rparr>) s) s
      in if 0 \<le> sint (now - rampEnd s1)
         then (forLanes cfg (\<lambda>i s. setLane i ((lanes s i)\<lparr>nudgeMul := 1\<rparr>) s) s1)
                \<lparr>mode := MODE_NORMAL\<rparr>
         else s1)"

definition startDecelerando :: "config \<Rightarrow> io \<Rightarrow> engine \<Rightarrow> engine" where
  "startDecelerando cfg w s =
     (let s1 = clearTransientsAll cfg s;
          m = millis w s1; s2 = clockRead s1;
          s3 = s2\<lparr>rampStart := m, rampEnd := m + DECEL_DUR_MS,
                  rampTo := rampMul DECEL_TO_MUL_MIN DECEL_TO_MUL_MAX (esp_random w s2)\<rparr>;
          s4 = randomRead s3;
          s5 = forLanes cfg (\<lambda>i s. setLane i ((lanes s i)\<lparr>nudgeMul := 1, nudgeUntil := 0\<rparr>) s) s4
      in s5\<lparr>mode := MODE_DECEL\<rparr>)"

definition handleDecelerando :: "config \<Rightarrow> u32 \<Rightarrow> engine \<Rightarrow> engine" where
  "handleDecelerando cfg now s =
     (let t = progress now (rampStart s) (rampEnd s);
          mul = 1 + (rampTo s - 1) * t;
          s1 = forLanes cfg (\<lambda>i s. setLane i ((lanes s i)\<lparr>nudgeMul := mul\<rparr>) s) s
      in if 0 \<le> sint (now - rampEnd s1)
         then (forLanes cfg (\<lambda>i s. setLane i ((lanes s i)\<lparr>nudgeMul := 1\<rparr>) s) s1)
                \<lparr>mode := MODE_NORMAL\<rparr>
         else s1)"

subsection \<open>Counterbalance\<close>

text \<open>The loop \<open>do { cbDown = rng(0, (int)NLANES - 1); } while (cbDown == cbUp);\<close>\<close>

partial_function (option) cbDownLoop :: "config \<Rightarrow> io \<Rightarrow> engine \<Rightarrow> engine option" where
  "cbDownLoop cfg w s =
     (let s1 = randomRead (s\<lparr>cbDown := rng 0 (word_of_nat (NLANES cfg) - 1) (esp_random w s)\<rparr>)
      in if cbDown s1 = cbUp s1 then cbDownLoop cfg w s1 else Some s1)"

definition startCounterbalance :: "config \<Rightarrow> io \<Rightarrow> engine \<Rightarrow> engine option" where
  "startCounterbalance cfg w s =
     (let s1 = randomRead (s\<lparr>cbUp := rng 0 (word_of_nat (NLANES cfg) - 1) (esp_random w s)\<rparr>)
      in case cbDownLoop cfg w s1 of
           None \<Rightarrow> None
         | Some s2 \<Rightarrow>
             let s3 = randomRead (s2\<lparr>cbDelta :=
                        rampMul COUNTERBAL_DELTA_MIN COUNTERBAL_DELTA_MAX (esp_random w s2)\<rparr>);
                 m = millis w s3;
                 s4 = clockRead (s3\<lparr>cbStart := m, cbEnd := m + COUNTERBAL_DUR_MS\<rparr>);
                 s5 = forLanes cfg (\<lambda>i s. setLane i ((lanes s i)\<lparr>nudgeMul := 1\<rparr>) s) s4
             in Some (s5\<lparr>mode := MODE_COUNTERBAL\<rparr>))"

definition handleCounterbalance :: "config \<Rightarrow> u32 \<Rightarrow> engine \<Rightarrow> engine" where
  "handleCounterbalance cfg now s =
     (let t = progress now (cbStart s) (cbEnd s);
          upMul = 1 + cbDelta s * t;
          downMul = 1 - cbDelta s * t;
          s1 = forLanes cfg (\<lambda>i s.
                 if word_of_nat i = cbUp s then setLane i ((lanes s i)\<lparr>nudgeMul := upMul\<rparr>) s
                 else if word_of_nat i = cbDown s
                      then setLane i ((lanes s i)\<lparr>nudgeMul := downMul\<rparr>) s
                 else setLane i ((lanes s i)\<lparr>nudgeMul := 1\<rparr>) s) s
      in if 0 \<le> sint (now - cbEnd s1)
         then (forLanes cfg (\<lambda>i s. setLane i ((lanes s i)\<lparr>nudgeMul := 1\<rparr>) s) s1)
                \<lparr>mode := MODE_NORMAL\<rparr>
         else s1)"

subsection \<open>Email storm\<close>

definition startEmailStorm :: "config \<Rightarrow> io \<Rightarrow> engine \<Rightarrow> engine" where
  "startEmailStorm cfg w s =
     (let s1 = clearTransientsAll cfg s;
          s2 = clockRead (s1\<lparr>stormEnd := millis w s1 + STORM_DUR_MS\<rparr>);
          s3 = clockRead (s2\<lparr>nextStormTick := millis w s2\<rparr>)
      in s3\<lparr>mode := MODE_EMAIL_STORM\<rparr>)"

text \<open>
  \<open>pickTwoDistinct(i, j)\<close>: \<open>None\<close> is the result \<open>false\<close>, which leaves \<open>i\<close> and
  \<open>j\<close> unset and draws nothing; \<open>r1\<close> and \<open>r2\<close> are the raw draws behind the two
  calls of \<open>random\<close> in the other case.
\<close>

definition pickTwoDistinct :: "config \<Rightarrow> u32 \<Rightarrow> u32 \<Rightarrow> (nat \<times> nat) option" where
  "pickTwoDistinct cfg r1 r2 =
     (if NLANES cfg < 2 then None
      else let i = random_range 0 (int (NLANES cfg)) r1;
               j = (i + 1 + random_range 0 (int (NLANES cfg) - 1) r2) mod int (NLANES cfg)
           in Some (nat i, nat j))"

definition burstCount :: "u32 \<Rightarrow> u8" where
  "burstCount r = ucast (rng (ucast BURST_MIN_PULSES) (ucast BURST_MAX_PULSES) r)"

definition handleEmailStorm :: "config \<Rightarrow> io \<Rightarrow> u32 \<Rightarrow> engine \<Rightarrow> engine" where
  "handleEmailStorm cfg w now s =
     (if 0 \<le> sint (now - stormEnd s) then s\<lparr>mode := MODE_NORMAL\<rparr>
      else if 0 \<le> sint (now - nextStormTick s) then
        let s3 =
          (case pickTwoDistinct cfg (esp_random w s) (esp_random w (randomRead s)) of
             None \<Rightarrow>
               randomRead (setLane 0 ((lanes s 0)\<lparr>burstRemain := burstCount (esp_random w s)\<rparr>) s)
           | Some (i, j) \<Rightarrow>
               let s0 = randomRead (randomRead s);
                   s1 = randomRead (setLane i
                          ((lanes s0 i)\<lparr>burstRemain := burstCount (esp_random w s0)\<rparr>) s0);
                   s2 = randomRead (setLane j
                          ((lanes s1 j)\<lparr>burstRemain := burstCount (esp_random w s1)\<rparr>) s1)
               in s2)
        in randomRead (s3\<lparr>nextStormTick :=
                            now + rng STORM_TICK_MIN_MS STORM_TICK_MAX_MS (esp_random w s3)\<rparr>)
      else s)"

subsection \<open>Reorg swap\<close>

definition reorgSwap :: "config \<Rightarrow> io \<Rightarrow> engine \<Rightarrow> engine" where
  "reorgSwap cfg w s =
     (if NLANES cfg < 2 then s
      else
        let first = baseHz (lanes s 0);
            s1 = fold (\<lambda>i s. setLane i ((lanes s i)\<lparr>baseHz := baseHz (lanes s (i + 1))\<rparr>) s)
                      [0 ..< NLANES cfg - 1] s;
            s2 = setLane (NLANES cfg - 1) ((lanes s1 (NLANES cfg - 1))\<lparr>baseHz := first\<rparr>) s1
        in forLanes cfg (\<lambda>i s. clockRead (setLane i
             ((lanes s i)\<lparr>nextDue := millis w s + periodMs (lanes s i)\<rparr>) s)) s2)"

subsection \<open>Scope creep\<close>

definition startScopeCreep :: "config \<Rightarrow> io \<Rightarrow> engine \<Rightarrow> engine" where
  "startScopeCreep cfg w s =
     (let m = millis w s;
          s1 = clockRead (s\<lparr>scopeStart := m, scopeEnd := m + SCOPE_DUR_MS\<rparr>);
          s2 = forLanes cfg (\<lambda>i s. s\<lparr>scopeStartHz := (scopeStartHz s)(i := baseHz (lanes s i))\<rparr>) s1
      in s2\<lparr>mode := MODE_SCOPE_CREEP\<rparr>)"

definition handleScopeCreep :: "config \<Rightarrow> u32 \<Rightarrow> engine \<Rightarrow> engine" where
  "handleScopeCreep cfg now s =
     (let t = progress now (scopeStart s) (scopeEnd s);
          s1 = forLanes cfg (\<lambda>i s. setLane i
                 ((lanes s i)\<lparr>baseHz := scopeStartHz s i + SCOPE_DH * t\<rparr>) s) s
      in if 0 \<le> sint (now - scopeEnd s1)
         then (forLanes cfg (\<lambda>i s. setLane i ((lanes s i)\<lparr>baseHz := scopeStartHz s i\<rparr>) s) s1)
                \<lparr>mode := MODE_NORMAL\<rparr>
         else s1)"

subsection \<open>Phase snap\<close>

text \<open>The loop \<open>do { snapFol = rng(0, (int)NLANES - 1); } while (snapFol == snapRef);\<close>\<close>

partial_function (option) snapFolLoop :: "config \<Rightarrow> io \<Rightarrow> engine \<Rightarrow> engine option" where
  "snapFolLoop cfg w s =
     (let s1 = randomRead (s\<lparr>snapFol := rng 0 (word_of_nat (NLANES cfg) - 1) (esp_random w s)\<rparr>)
      in if snapFol s1 = snapRef s1 then snapFolLoop cfg w s1 else Some s1)"

definition startPhaseSnap :: "config \<Rightarrow> io \<Rightarrow> engine \<Rightarrow> engine option" where
  "startPhaseSnap cfg w s =
     (let s1 = randomRead (s\<lparr>snapRef := rng 0 (word_of_nat (NLANES cfg) - 1) (esp_random w s)\<rparr>)
      in case snapFolLoop cfg w s1 of
           None \<Rightarrow> None
         | Some s2 \<Rightarrow>
             let fol = unat (snapFol s2); ref = unat (snapRef s2);
                 s3 = setLane fol ((lanes s2 fol)\<lparr>savedHz := baseHz (lanes s2 fol)\<rparr>) s2;
                 s4 = setLane fol ((lanes s3 fol)\<lparr>baseHz := baseHz (lanes s3 ref)\<rparr>) s3;
                 s5 = setLane fol ((lanes s4 fol)\<lparr>nextDue := nextDue (lanes s4 ref)\<rparr>) s4;
                 s6 = clockRead (s5\<lparr>snapEnd := millis w s5 + 4000\<rparr>)
             in Some (s6\<lparr>mode := MODE_PHASE_SNAP\<rparr>))"

definition handlePhaseSnap :: "u32 \<Rightarrow> engine \<Rightarrow> engine" where
  "handlePhaseSnap now s =
     (let fol = unat (snapFol s); ref = unat (snapRef s);
          s1 = setLane fol ((lanes s fol)\<lparr>baseHz := baseHz (lanes s ref)\<rparr>) s;
          s2 = setLane fol ((lanes s1 fol)\<lparr>nextDue := nextDue (lanes s1 ref)\<rparr>) s1
      in if 0 \<le> sint (now - snapEnd s2)
         then (setLane fol ((lanes s2 fol)\<lparr>baseHz := savedHz (lanes s2 fol)\<rparr>) s2)
                \<lparr>mode := MODE_NORMAL\<rparr>
         else s2)"

subsection \<open>Random glitch engine\<close>

definition WEIGHT_PTRS :: "config \<Rightarrow> real list" where
  "WEIGHT_PTRS cfg = [W_PAUSE cfg, W_STAGGER cfg, W_SYNC cfg, W_BEAT cfg, W_ACCEL cfg,
     W_DECEL cfg, W_COUNTER cfg, W_STORM cfg, W_SNAP cfg, W_SCOPE cfg, W_REORG cfg]"

definition NEFF :: nat where
  "NEFF = 11"

text \<open>
  The loop of \<open>buildWeights\<close>: \<open>ws\<close> are the weights from index \<open>i\<close> on, \<open>acc\<close>
  is the local \<open>sum\<close>, \<open>c\<close> the table \<open>cumW\<close>.
\<close>

fun buildWeightsLoop :: "real list \<Rightarrow> nat \<Rightarrow> real \<Rightarrow> (nat \<Rightarrow> real) \<Rightarrow> (nat \<Rightarrow> real)" where
  "buildWeightsLoop [] i acc c = c"
| "buildWeightsLoop (x # ws) i acc c = buildWeightsLoop ws (Suc i) (acc + x) (c(i := acc + x))"

definition buildWeights :: "config \<Rightarrow> engine \<Rightarrow> engine" where
  "buildWeights cfg s =
     s\<lparr>cumW := (buildWeightsLoop (WEIGHT_PTRS cfg) 0 0 (cumW s))(NEFF := 1)\<rparr>"

text \<open>
  The \<open>if\<close>/\<open>else if\<close> ladder of \<open>pickAndStartEffect\<close>: the number of the branch
  that the draw \<open>r\<close> takes, \<open>NEFF\<close> when it falls through to the subtle glitch.
\<close>

definition pickBucket :: "(nat \<Rightarrow> real) \<Rightarrow> real \<Rightarrow> nat" where
  "pickBucket c r =
     (if r < c 0 then 0
      else if r < c 1 then 1
      else if r < c 2 then 2
      else if r < c 3 then 3
      else if r < c 4 then 4
      else if r < c 5 then 5
      else if r < c 6 then 6
      else if r < c 7 then 7
      else if r < c 8 then 8
      else if r < c 9 then 9
      else if r < c 10 then 10
      else NEFF)"

text \<open>The fallback of \<open>pickAndStartEffect\<close>: a subtle glitch on one lane.\<close>

definition subtleGlitch :: "config \<Rightarrow> io \<Rightarrow> engine \<Rightarrow> engine" where
  "subtleGlitch cfg w s =
     (let i = nat (random_range 0 (int (NLANES cfg)) (esp_random w s)); s1 = randomRead s;
          g = random_range 0 100 (esp_random w s1); s2 = randomRead s1
      in if g < 40 then
           let sign = (if random_range 0 2 (esp_random w s2) \<noteq> 0 then 1 else - 1 :: real);
               s3 = randomRead s2;
               mul = 1 + sign * (NUDGE_MAX_PCT
                       * (real_of_int (random_range 30 100 (esp_random w s3)) / 100));
               s4 = randomRead s3;
               dur = rng NUDGE_MIN_MS NUDGE_MAX_MS (esp_random w s4);
               s5 = randomRead s4
           in clockRead (setLane i ((lanes s5 i)\<lparr>nudgeMul := mul,
                                        nudgeUntil := millis w s5 + dur\<rparr>) s5)
         else if g < 65 then
           let dur = rng FREEZE_MIN_MS FREEZE_MAX_MS (esp_random w s2);
               s3 = randomRead s2
           in clockRead (setLane i ((lanes s3 i)\<lparr>freezeUntil := millis w s3 + dur\<rparr>) s3)
         else
           randomRead (setLane i ((lanes s2 i)\<lparr>burstRemain := burstCount (esp_random w s2)\<rparr>) s2))"

definition pickAndStartEffect :: "config \<Rightarrow> io \<Rightarrow> engine \<Rightarrow> engine option" where
  "pickAndStartEffect cfg w s =
     (let r = real_of_int (random_range 0 10000 (esp_random w s)) / 10000;
          s1 = randomRead s;
          b = pickBucket (cumW s1) r
      in if b = 0 then Some (startLongPause cfg w s1)
         else if b = 1 then Some (startStaggerBlackout cfg w s1)
         else if b = 2 then Some (startSyncLock cfg w s1)
         else if b = 3 then
           (if random_range 0 2 (esp_random w s1) \<noteq> 0
            then Some (startBeat cfg w DEMBOW (randomRead s1))
            else Some (startBeat cfg w ROCK (randomRead s1)))
         else if b = 4 then Some (startAccelerando cfg w s1)
         else if b = 5 then Some (startDecelerando cfg w s1)
         else if b = 6 then startCounterbalance cfg w s1
         else if b = 7 then Some (startEmailStorm cfg w s1)
         else if b = 8 then startPhaseSnap cfg w s1
         else if b = 9 then Some (startScopeCreep cfg w s1)
         else if b = 10 then Some (reorgSwap cfg w s1)
         else Some (subtleGlitch cfg w s1))"

subsection \<open>Setup and loop\<close>

text \<open>
  \<open>boot\<close> is the state before \<open>setup()\<close>, with the initial values of the globals;
  \<open>setup0\<close> is \<open>setup()\<close>.  Cells beyond
  \<open>D\<close> hold a default-initialised \<open>Lane\<close>.
\<close>

definition newLane :: "real \<Rightarrow> Lane" where
  "newLane hz = \<lparr> baseHz = hz, nudgeMul = 1, nudgeUntil = 0, nextDue = 0, nextFree = 0,
     coilOffAt = 0, running = True, pol = False, minute = 0, freezeUntil = 0,
     burstRemain = 0, savedHz = 1 \<rparr>"

definition bootLanes :: "nat \<Rightarrow> Lane" where
  "bootLanes i = (if i = laneA then newLane BASE_HZ_A
                  else if i = laneB then newLane BASE_HZ_B
                  else if i = laneC then newLane BASE_HZ_C
                  else if i = laneD then newLane BASE_HZ_D
                  else newLane 1)"

definition boot :: engine where
  "boot = \<lparr> lanes = bootLanes, mode = MODE_NORMAL,
     beat = \<lparr> pat = None, stepPeriodMs = 0, nextStepAt = 0, step = 0, barsLeft = 0 \<rparr>,
     lastAnyPulseAt = 0, lastSyncEnd = 0, modeEndsAt = 0, lastLongPauseEnd = 0,
     rampStart = 0, rampEnd = 0, rampTo = 1, cbUp = - 1, cbDown = - 1, cbStart = 0,
     cbEnd = 0, cbDelta = 0.2, stormEnd = 0, nextStormTick = 0, scopeStartHz = (\<lambda>i. 0),
     scopeStart = 0, scopeEnd = 0, snapRef = - 1, snapFol = - 1, snapEnd = 0,
     cumW = (\<lambda>i. 0), lastTry = 0, lastLivenessLog = 0, pulses = [],
     clockReads = 0, randomReads = 0 \<rparr>"

definition setup0 :: "config \<Rightarrow> io \<Rightarrow> engine" where
  "setup0 cfg w =
     (let s0 = randomRead boot;
          s1 = setupLane w laneA s0;
          s2 = setupLane w laneB s1;
          s3 = setupLane w laneC s2;
          s4 = setupLane w laneD s3;
          s5 = buildWeights cfg s4
      in clockRead (s5\<lparr>lastAnyPulseAt := millis w s5\<rparr>))"

text \<open>
  The loop \<open>while ((int32_t)(now - L->nextDue) >= 0) { ... }\<close> of the lane
  scheduler, for the lane \<open>i\<close>.
\<close>

partial_function (option) dueLoop :: "config \<Rightarrow> io \<Rightarrow> u32 \<Rightarrow> nat \<Rightarrow> engine \<Rightarrow> engine option" where
  "dueLoop cfg w now i s =
     (if 0 \<le> sint (now - nextDue (lanes s i)) then
        if 0 \<le> sint (now - nextFree (lanes s i)) then
          let s1 = scheduleNext cfg w i now (coilOn cfg w i s)
          in if sint (now - nextDue (lanes s1 i)) < 0 then Some s1
             else dueLoop cfg w now i s1
        else Some (setLane i ((lanes s i)\<lparr>nextDue := nextFree (lanes s i)\<rparr>) s)
      else Some s)"

text \<open>The body of \<open>for (Lane* L : LANES)\<close> in \<open>loop\<close>.\<close>

definition laneTick :: "config \<Rightarrow> io \<Rightarrow> u32 \<Rightarrow> nat \<Rightarrow> engine \<Rightarrow> engine option" where
  "laneTick cfg w now i s =
     (let s1 = maybeCoilOff i now s;
          s2 = (if nudgeUntil (lanes s1 i) \<noteq> 0 \<and> 0 \<le> sint (now - nudgeUntil (lanes s1 i))
                then setLane i ((lanes s1 i)\<lparr>nudgeMul := 1, nudgeUntil := 0\<rparr>) s1 else s1)
      in if freezeUntil (lanes s2 i) \<noteq> 0 \<and> sint (now - freezeUntil (lanes s2 i)) < 0
         then Some (setLane i ((lanes s2 i)\<lparr>nextDue := now + 10\<rparr>) s2)
         else
           let s3 = (if freezeUntil (lanes s2 i) \<noteq> 0 \<and> 0 \<le> sint (now - freezeUntil (lanes s2 i))
                     then setLane i ((lanes s2 i)\<lparr>freezeUntil := 0\<rparr>) s2 else s2)
           in if 0 < burstRemain (lanes s3 i) \<and> 0 \<le> sint (now - nextFree (lanes s3 i))
              then
                let s4 = coilOn cfg w i s3;
                    s5 = setLane i ((lanes s4 i)\<lparr>burstRemain := burstRemain (lanes s4 i) - 1\<rparr>) s4
                in Some (setLane i ((lanes s5 i)\<lparr>nextDue := now + ucast BURST_TARGET_MS\<rparr>) s5)
              else if \<not> running (lanes s3 i) then Some s3
              else dueLoop cfg w now i s3)"

fun laneSweep :: "config \<Rightarrow> io \<Rightarrow> u32 \<Rightarrow> nat list \<Rightarrow> engine \<Rightarrow> engine option" where
  "laneSweep cfg w now [] s = Some s"
| "laneSweep cfg w now (i # is) s =
     (case laneTick cfg w now i s of None \<Rightarrow> None | Some s1 \<Rightarrow> laneSweep cfg w now is s1)"

text \<open>The first part of \<open>loop\<close>: consider a new effect while idle.\<close>

definition considerEffect :: "config \<Rightarrow> io \<Rightarrow> u32 \<Rightarrow> engine \<Rightarrow> engine option" where
  "considerEffect cfg w now s =
     (if mode s = MODE_NORMAL \<and> 0 \<le> sint (now - lastTry s) then
        let s1 = randomRead (s\<lparr>lastTry := now + GLITCH_CHECK_MS + rng (- 500) 500 (esp_random w s)\<rparr>);
            d = random_range 0 1000 (esp_random w s1); s2 = randomRead s1
        in if d < trunc_int (GLITCH_PROB * 1000) then pickAndStartEffect cfg w s2 else Some s2
      else Some s)"

text \<open>The \<open>switch (mode)\<close> of \<open>loop\<close>.\<close>

definition handleMode :: "config \<Rightarrow> io \<Rightarrow> u32 \<Rightarrow> engine \<Rightarrow> engine" where
  "handleMode cfg w now s =
     (case mode s of
        MODE_BEAT \<Rightarrow> handleBeat cfg w now s
      | MODE_SYNC_LOCK \<Rightarrow> if 0 \<le> sint (now - modeEndsAt s) then endSyncLock cfg w s else s
      | MODE_LONG_PAUSE \<Rightarrow> if 0 \<le> sint (now - modeEndsAt s) then endLongPause cfg w s else s
      | MODE_STAGGER_BLACKOUT \<Rightarrow>
          if 0 \<le> sint (now - modeEndsAt s) then endStaggerBlackout cfg w s else s
      | MODE_ACCEL \<Rightarrow> handleAccelerando cfg now s
      | MODE_DECEL \<Rightarrow> handleDecelerando cfg now s
      | MODE_EMAIL_STORM \<Rightarrow> handleEmailStorm cfg w now s
      | MODE_SCOPE_CREEP \<Rightarrow> handleScopeCreep cfg now s
      | MODE_PHASE_SNAP \<Rightarrow> handlePhaseSnap now s
      | MODE_COUNTERBAL \<Rightarrow> handleCounterbalance cfg now s
      | MODE_NORMAL \<Rightarrow> s)"

text \<open>The liveness check of \<open>loop\<close>.\<close>

definition liveness :: "config \<Rightarrow> io \<Rightarrow> u32 \<Rightarrow> engine \<Rightarrow> engine" where
  "liveness cfg w now s =
     (if sint LIVENESS_WARN_MS < sint (now - lastAnyPulseAt s) \<and> mode s = MODE_NORMAL then
        let s1 = forLanes cfg (\<lambda>i s.
                   if \<not> running (lanes s i) then s
                   else randomRead (setLane i ((lanes s i)\<lparr>nextDue :=
                          now + periodMs (lanes s i) + rng 0 100 (esp_random w s)\<rparr>) s)) s
        in if 5000 < sint (now - lastLivenessLog s1) then s1\<lparr>lastLivenessLog := now\<rparr> else s1
      else s)"

definition loop :: "config \<Rightarrow> io \<Rightarrow> engine \<Rightarrow> engine option" where
  "loop cfg w s =
     (let now = millis w s; s1 = clockRead s
      in case considerEffect cfg w now s1 of
           None \<Rightarrow> None
         | Some s2 \<Rightarrow>
             laneSweep cfg w now (LANES cfg) (liveness cfg w now (handleMode cfg w now s2)))"

subsection \<open>Observations and sample inputs used by the properties\<close>

text \<open>
  The freeze duration that \<open>startStaggerBlackout\<close> gives to lane \<open>i\<close>: the lane's
  \<open>freezeUntil\<close> after the call, minus the time \<open>now\<close> that the call read.
\<close>

definition staggerFreeze :: "config \<Rightarrow> io \<Rightarrow> engine \<Rightarrow> nat \<Rightarrow> u32" where
  "staggerFreeze cfg w s i = freezeUntil (lanes (startStaggerBlackout cfg w s) i) - millis w s"

text \<open>A clock that always reads 0 and a random source that always draws 0.\<close>

definition tape0 :: io where
  "tape0 = \<lparr> millisTape = (\<lambda>k. 0), randomTape = (\<lambda>k. 0) \<rparr>"

text \<open>
  What it means for a draw \<open>r\<close> to fall into bucket \<open>b\<close> of the table \<open>c\<close>: below
  the first boundary for bucket 0, between the previous boundary and its own for
  the other named effects, and past all named boundaries for the fallback bucket
  \<open>NEFF\<close>.
\<close>

definition bucketMatches :: "(nat \<Rightarrow> real) \<Rightarrow> real \<Rightarrow> nat \<Rightarrow> bool" where
  "bucketMatches c r b =
     (if b = 0 then r < c 0
      else if b < NEFF then c (b - 1) \<le> r \<and> r < c b
      else b = NEFF \<and> c (NEFF - 1) \<le> r)"

text \<open>The weights of the sketch, all replaced by 0.25: their total is 2.75.\<close>

definition quarter_weights :: config where
  "quarter_weights = sketch_config\<lparr> W_PAUSE := 1/4, W_STAGGER := 1/4, W_SYNC := 1/4,
     W_BEAT := 1/4, W_ACCEL := 1/4, W_DECEL := 1/4, W_COUNTER := 1/4, W_STORM := 1/4,
     W_SNAP := 1/4, W_SCOPE := 1/4, W_REORG := 1/4 \<rparr>"

text \<open>
  The transient state of a lane: \<open>burstRemain\<close>, \<open>freezeUntil\<close>, \<open>nudgeMul\<close>,
  \<open>nudgeUntil\<close>.  After \<open>clearTransientsAll\<close> it is \<open>(0, 0, 1, 0)\<close>.
\<close>

definition transients :: "Lane \<Rightarrow> u8 \<times> u32 \<times> real \<times> u32" where
  "transients L = (burstRemain L, freezeUntil L, nudgeMul L, nudgeUntil L)"

text \<open>The state after boot in which lane \<open>A\<close> is frozen until \<open>t = 7000\<close>.\<close>

definition frozenLaneA :: engine where
  "frozenLaneA = setLane laneA ((lanes boot laneA)\<lparr>freezeUntil := 7000\<rparr>) boot"

text \<open>A clock that always reads 4000 and a random source that draws 0, 1, 2, ...\<close>

definition countingTape :: io where
  "countingTape = \<lparr> millisTape = (\<lambda>k. 4000), randomTape = (\<lambda>k. word_of_nat k) \<rparr>"

text \<open>
  The polarity and pulse state of a lane, and the times at which lane \<open>i\<close> has been
  energized so far (newest first).
\<close>

definition pulseState :: "Lane \<Rightarrow> bool \<times> u32 \<times> u32 \<times> u8" where
  "pulseState L = (pol L, coilOffAt L, nextFree L, minute L)"

definition pulsesOf :: "nat \<Rightarrow> engine \<Rightarrow> u32 list" where
  "pulsesOf i s = map snd (filter (\<lambda>e. fst e = i) (pulses s))"

definition laneView :: "nat \<Rightarrow> engine \<Rightarrow> (bool \<times> u32 \<times> u32 \<times> u8) \<times> u32 list" where
  "laneView i s = (pulseState (lanes s i), pulsesOf i s)"

text \<open>The value of \<open>j\<close> in \<open>scheduleNext\<close> when \<open>esp_random()\<close> returns \<open>r\<close>.\<close>

definition jitterOf :: "config \<Rightarrow> u32 \<Rightarrow> i32" where
  "jitterOf cfg r = (if 0 < sint (JITTER_MS cfg)
                     then rng (- scast (JITTER_MS cfg)) (scast (JITTER_MS cfg)) r else 0)"

text \<open>The state after boot in which the gate of lane \<open>A\<close> opens at \<open>t = 240\<close>.\<close>

definition gatedLaneA :: engine where
  "gatedLaneA = setLane laneA ((lanes boot laneA)\<lparr>nextFree := 240\<rparr>) boot"

text \<open>
  The minimum-off law.  \<open>minOffKept cfg t0 t\<close>: a pulse energized at \<open>t\<close> comes no
  earlier than the minimum-off time after the pulse-off time \<open>t0 + PULSE_ON_MS\<close> of
  the pulse energized at \<open>t0\<close>, in the wrap-safe order of the sketch.  \<open>spaced\<close>:
  every energize event of the list keeps this distance to the previous event of
  its lane.  \<open>gateTracks\<close>: the gate \<open>nextFree\<close> of a lane that has fired is the
  pulse-off time of its latest pulse plus the minimum-off time, and \<open>coilOffAt\<close>
  is that pulse-off time or unset.
\<close>

definition minOffKept :: "config \<Rightarrow> u32 \<Rightarrow> u32 \<Rightarrow> bool" where
  "minOffKept cfg t0 t =
     (0 \<le> sint (t - (t0 + ucast (PULSE_ON_MS cfg) + ucast (MIN_OFF_MS cfg))))"

fun spaced :: "config \<Rightarrow> (nat \<times> u32) list \<Rightarrow> bool" where
  "spaced cfg [] = True"
| "spaced cfg ((i, t) # ps) =
     ((case map_of ps i of None \<Rightarrow> True | Some t0 \<Rightarrow> minOffKept cfg t0 t) \<and> spaced cfg ps)"

definition gateTracks :: "config \<Rightarrow> engine \<Rightarrow> bool" where
  "gateTracks cfg s =
     (\<forall>i t0. map_of (pulses s) i = Some t0 \<longrightarrow>
        nextFree (lanes s i) = t0 + ucast (PULSE_ON_MS cfg) + ucast (MIN_OFF_MS cfg)
        \<and> (coilOffAt (lanes s i) = 0 \<or> coilOffAt (lanes s i) = t0 + ucast (PULSE_ON_MS cfg)))"

definition minimumOff :: "config \<Rightarrow> engine \<Rightarrow> bool" where
  "minimumOff cfg s = (spaced cfg (pulses s) \<and> gateTracks cfg s)"

text \<open>
  The part of the state that the law depends on, and the law stated on that part.
\<close>

definition gateView :: "engine \<Rightarrow> (nat \<times> u32) list \<times> (nat \<Rightarrow> u32) \<times> (nat \<Rightarrow> u32)" where
  "gateView s = (pulses s, (\<lambda>i. nextFree (lanes s i)), (\<lambda>i. coilOffAt (lanes s i)))"

text \<open>The states that the sketch reaches: after \<open>setup()\<close>, and after each \<open>loop()\<close>.\<close>

inductive reachable :: "config \<Rightarrow> io \<Rightarrow> engine \<Rightarrow> bool" for cfg w where
  start: "reachable cfg w (setup0 cfg w)"
| tick: "reachable cfg w s \<Longrightarrow> loop cfg w s = Some s' \<Longrightarrow> reachable cfg w s'"

definition minOffView ::
  "config \<Rightarrow> (nat \<times> u32) list \<times> (nat \<Rightarrow> u32) \<times> (nat \<Rightarrow> u32) \<Rightarrow> bool" where
  "minOffView cfg v =
     (case v of (ps, free, off) \<Rightarrow>
        spaced cfg ps
        \<and> (\<forall>i t0. map_of ps i = Some t0 \<longrightarrow>
              free i = t0 + ucast (PULSE_ON_MS cfg) + ucast (MIN_OFF_MS cfg)
              \<and> (off i = 0 \<or> off i = t0 + ucast (PULSE_ON_MS cfg))))"

text \<open>
  A clock that reads 0 during \<open>setup()\<close> and 600 from then on, and a random source
  that always draws 500.
\<close>

definition tickTape :: io where
  "tickTape = \<lparr> millisTape = (\<lambda>k. if k < 5 then 0 else 600), randomTape = (\<lambda>k. 500) \<rparr>"

text \<open>The effective frequency of a lane: the value of \<open>effHz\<close> in \<open>periodMs\<close>.\<close>

definition effectiveHz :: "Lane \<Rightarrow> real" where
  "effectiveHz L = max 0.001 (baseHz L * nudgeMul L)"

text \<open>
  \<open>lockRun cfg w s s'\<close>: the sketch gets from \<open>s\<close> to \<open>s'\<close> by \<open>loop()\<close> ticks, each
  of which starts in Sync-Lock mode.
\<close>

inductive lockRun :: "config \<Rightarrow> io \<Rightarrow> engine \<Rightarrow> engine \<Rightarrow> bool" for cfg w where
  locked: "lockRun cfg w s s"
| tick: "lockRun cfg w s s1 \<Longrightarrow> mode s1 = MODE_SYNC_LOCK \<Longrightarrow> loop cfg w s1 = Some s2
           \<Longrightarrow> lockRun cfg w s s2"

text \<open>
  The fields of a lane that Sync-Lock is about; the lock being held, with the
  frequencies \<open>orig\<close> saved; the lock having been released.
\<close>

definition syncView :: "Lane \<Rightarrow> real \<times> real \<times> real \<times> u32" where
  "syncView L = (baseHz L, savedHz L, nudgeMul L, nudgeUntil L)"

definition lockHeld :: "config \<Rightarrow> (nat \<Rightarrow> real) \<Rightarrow> engine \<Rightarrow> bool" where
  "lockHeld cfg orig s =
     (mode s = MODE_SYNC_LOCK
      \<and> (\<forall>i < NLANES cfg. syncView (lanes s i) = (real (unat (SYNC_BPM cfg)) / 60, orig i, 1, 0)))"

definition lockReleased :: "config \<Rightarrow> (nat \<Rightarrow> real) \<Rightarrow> engine \<Rightarrow> bool" where
  "lockReleased cfg orig s =
     (mode s = MODE_NORMAL \<and> (\<forall>i < NLANES cfg. syncView (lanes s i) = (orig i, orig i, 1, 0)))"

definition syncKept :: "config \<Rightarrow> Mode \<Rightarrow> (nat \<Rightarrow> real) \<Rightarrow> (nat \<Rightarrow> real) \<Rightarrow> engine \<Rightarrow> bool" where
  "syncKept cfg m b sv s =
     (mode s = m \<and> (\<forall>i < NLANES cfg. syncView (lanes s i) = (b i, sv i, 1, 0)))"

text \<open>A clock that always reads 20000 and a random source that always draws 0.\<close>

definition lateTape :: io where
  "lateTape = \<lparr> millisTape = (\<lambda>k. 20000), randomTape = (\<lambda>k. 0) \<rparr>"


text \<open>\<open>ticks cfg w n s\<close>: \<open>loop()\<close> called \<open>n\<close> times in a row from the state \<open>s\<close>.\<close>

fun ticks :: "config \<Rightarrow> io \<Rightarrow> nat \<Rightarrow> engine \<Rightarrow> engine option" where
  "ticks cfg w 0 s = Some s"
| "ticks cfg w (Suc n) s = (case loop cfg w s of None \<Rightarrow> None | Some s1 \<Rightarrow> ticks cfg w n s1)"

text \<open>
  The blackout is on: the mode is Stagger Blackout, and every lane is stopped
  (\<open>running\<close> is false) with no burst pending.
\<close>

definition blackout :: "config \<Rightarrow> engine \<Rightarrow> bool" where
  "blackout cfg s =
     (mode s = MODE_STAGGER_BLACKOUT
      \<and> list_all (\<lambda>i. \<not> running (lanes s i) \<and> burstRemain (lanes s i) = 0) (LANES cfg))"

text \<open>
  A clock that reads 0 during \<open>setup()\<close> and at the start of the blackout, then
  3500 and 4900 in the next two calls of \<open>loop()\<close>, 5600 throughout the third and
  6600 from the fourth on; and a random source that always draws 505.
\<close>

definition staggerTape :: io where
  "staggerTape = \<lparr> millisTape = (\<lambda>k. if k < 6 then 0 else if k = 6 then 3500
                                       else if k = 7 then 4900 else if k < 13 then 5600
                                       else 6600),
                    randomTape = (\<lambda>k. 505) \<rparr>"

text \<open>The state in which the blackout has been triggered right after \<open>setup()\<close>.\<close>

definition staggerStart :: engine where
  "staggerStart = startStaggerBlackout sketch_config staggerTape (setup0 sketch_config staggerTape)"
section \<open>Properties\<close>

subsection \<open>Loops over the lanes\<close>

lemma fold_setLane:
  "distinct xs \<Longrightarrow>
   fold (\<lambda>i s. setLane i (f i (lanes s i)) s) xs s
     = s\<lparr>lanes := (\<lambda>j. if j \<in> set xs then f j (lanes s j) else lanes s j)\<rparr>"
proof (induction xs arbitrary: s)
  case Nil
  then show ?case by simp
next
  case (Cons x xs)
  then show ?case by (auto simp: setLane_def fun_eq_iff)
qed

lemma forLanes_setLane:
  "forLanes cfg (\<lambda>i s. setLane i (f i (lanes s i)) s) s
     = s\<lparr>lanes := (\<lambda>j. if j < NLANES cfg then f j (lanes s j) else lanes s j)\<rparr>"
  by (simp add: forLanes_def LANES_def fold_setLane)

lemma clearTransientsAll_eq:
  "clearTransientsAll cfg s
     = s\<lparr>lanes := (\<lambda>j. if j < NLANES cfg
                          then (lanes s j)\<lparr>burstRemain := 0, freezeUntil := 0,
                                           nudgeMul := 1, nudgeUntil := 0\<rparr>
                          else lanes s j)\<rparr>"
  unfolding clearTransientsAll_def by (rule forLanes_setLane)

lemma fold_frame: "(\<And>i s. g (body i s) = g s) \<Longrightarrow> g (fold body xs s) = g s"
  by (induction xs arbitrary: s) simp_all

lemma forLanes_frame: "(\<And>i s. g (body i s) = g s) \<Longrightarrow> g (forLanes cfg body s) = g s"
  unfolding forLanes_def by (rule fold_frame)

lemma fold_lane_proj:
  assumes "\<And>i s j. p (lanes (body i s) j)
                      = (if j = i then h i (p (lanes s i)) else p (lanes s j))"
    and "distinct xs"
  shows "p (lanes (fold body xs s) j)
           = (if j \<in> set xs then h j (p (lanes s j)) else p (lanes s j))"
  using assms(2)
proof (induction xs arbitrary: s)
  case Nil
  then show ?case by simp
next
  case (Cons x xs)
  then show ?case by (simp add: assms(1))
qed

lemma forLanes_lane_proj:
  assumes "\<And>i s j. p (lanes (body i s) j)
                      = (if j = i then h i (p (lanes s i)) else p (lanes s j))"
  shows "p (lanes (forLanes cfg body s) j)
           = (if j < NLANES cfg then h j (p (lanes s j)) else p (lanes s j))"
  using fold_lane_proj[where p=p and body=body and h=h, OF assms, of "LANES cfg" s j]
  by (simp add: forLanes_def LANES_def)

lemmas st = setLane_def clockRead_def randomRead_def Let_def

lemma clockRead_fields [simp]:
  "lanes (clockRead s) = lanes s"
  "mode (clockRead s) = mode s"
  "pulses (clockRead s) = pulses s"
  "beat (clockRead s) = beat s"
  "randomReads (clockRead s) = randomReads s"
  "clockReads (clockRead s) = Suc (clockReads s)"
  by (simp_all add: clockRead_def)

lemma randomRead_fields [simp]:
  "lanes (randomRead s) = lanes s"
  "mode (randomRead s) = mode s"
  "pulses (randomRead s) = pulses s"
  "beat (randomRead s) = beat s"
  "clockReads (randomRead s) = clockReads s"
  "randomReads (randomRead s) = Suc (randomReads s)"
  by (simp_all add: randomRead_def)

lemma setLane_fields [simp]:
  "lanes (setLane i L s) = (lanes s)(i := L)"
  "mode (setLane i L s) = mode s"
  "pulses (setLane i L s) = pulses s"
  "beat (setLane i L s) = beat s"
  "clockReads (setLane i L s) = clockReads s"
  "randomReads (setLane i L s) = randomReads s"
  by (simp_all add: setLane_def)

lemma millis_fields [simp]:
  "millis w (randomRead s) = millis w s"
  "millis w (setLane i L s) = millis w s"
  "esp_random w (clockRead s) = esp_random w s"
  "esp_random w (setLane i L s) = esp_random w s"
  by (simp_all add: millis_def esp_random_def)

subsection \<open>Firing a pulse\<close>

lemma coilOn_fields [simp]:
  "mode (coilOn cfg w i s) = mode s"
  "beat (coilOn cfg w i s) = beat s"
  "randomReads (coilOn cfg w i s) = randomReads s"
  "clockReads (coilOn cfg w i s) = Suc (clockReads s)"
  by (simp_all add: coilOn_def Let_def)

lemma coilOn_other: "j \<noteq> i \<Longrightarrow> lanes (coilOn cfg w i s) j = lanes s j"
  by (simp add: coilOn_def Let_def)

lemma scheduleNext_fields [simp]:
  "mode (scheduleNext cfg w i now s) = mode s"
  "pulses (scheduleNext cfg w i now s) = pulses s"
  "beat (scheduleNext cfg w i now s) = beat s"
  "clockReads (scheduleNext cfg w i now s) = clockReads s"
  by (simp_all add: scheduleNext_def Let_def)

lemma scheduleNext_other: "j \<noteq> i \<Longrightarrow> lanes (scheduleNext cfg w i now s) j = lanes s j"
  by (simp add: scheduleNext_def Let_def)

lemma scheduleNext_lane:
  "lanes (scheduleNext cfg w i now s) i
     = (lanes s i)\<lparr>nextDue :=
          (if sint (periodMs (lanes s i) * 4) < sint (now - nextDue (lanes s i))
           then now + periodMs (lanes s i) + jitterOf cfg (esp_random w s)
           else nextDue (lanes s i) + periodMs (lanes s i) + jitterOf cfg (esp_random w s))\<rparr>"
  by (simp add: scheduleNext_def Let_def jitterOf_def)

lemma coilOn_lane:
  "lanes (coilOn cfg w i s) i
     = (if sint (millis w s - nextFree (lanes s i)) < 0 then lanes s i
        else (lanes s i)\<lparr>coilOffAt := millis w s + ucast (PULSE_ON_MS cfg),
               nextFree := millis w s + ucast (PULSE_ON_MS cfg) + ucast (MIN_OFF_MS cfg),
               pol := \<not> pol (lanes s i),
               minute := word_of_nat ((unat (minute (lanes s i)) + 1) mod 60)\<rparr>)"
  by (simp add: coilOn_def Let_def)

lemma coilOn_pulses:
  "pulses (coilOn cfg w i s)
     = (if sint (millis w s - nextFree (lanes s i)) < 0 then pulses s
        else (i, millis w s) # pulses s)"
  by (simp add: coilOn_def Let_def)

lemma coilOn_keeps [simp]:
  "nextDue (lanes (coilOn cfg w i s) j) = nextDue (lanes s j)"
  "periodMs (lanes (coilOn cfg w i s) j) = periodMs (lanes s j)"
  "esp_random w (coilOn cfg w i s) = esp_random w s"
  by (simp_all add: coilOn_def Let_def periodMs_def esp_random_def)

subsection \<open>Invariants of the lane scheduler\<close>

text \<open>
  A property that survives the primitive steps of the lane scheduler survives the
  loop over due pulses, the body of the scheduler for one lane, and the sweep over
  all lanes, whenever these return.
\<close>

lemma dueLoop_inv:
  assumes run: "dueLoop cfg w now i s = Some s'"
    and init: "Q s"
    and fire: "\<And>s. Q s \<Longrightarrow> Q (coilOn cfg w i s)"
    and nxt: "\<And>s. Q s \<Longrightarrow> Q (scheduleNext cfg w i now s)"
    and due: "\<And>s x. Q s \<Longrightarrow> Q (setLane i ((lanes s i)\<lparr>nextDue := x\<rparr>) s)"
  shows "Q s'"
proof -
  have "cfg = cfg \<longrightarrow> w = w \<longrightarrow> now = now \<longrightarrow> i = i \<longrightarrow> Q s \<longrightarrow> Q s'"
  proof (rule dueLoop.raw_induct[where P="\<lambda>cfg0 w0 now0 i0 s s'.
            cfg0 = cfg \<longrightarrow> w0 = w \<longrightarrow> now0 = now \<longrightarrow> i0 = i \<longrightarrow> Q s \<longrightarrow> Q s'", OF _ run])
    fix f cfg0 w0 now0 i0 s y
    assume IH: "\<And>cfg0 w0 now0 i0 s y. f cfg0 w0 now0 i0 s = Some y \<Longrightarrow>
              cfg0 = cfg \<longrightarrow> w0 = w \<longrightarrow> now0 = now \<longrightarrow> i0 = i \<longrightarrow> Q s \<longrightarrow> Q y"
      and step: "(if 0 \<le> sint (now0 - nextDue (lanes s i0)) then
               if 0 \<le> sint (now0 - nextFree (lanes s i0)) then
                 let s1 = scheduleNext cfg0 w0 i0 now0 (coilOn cfg0 w0 i0 s)
                 in if sint (now0 - nextDue (lanes s1 i0)) < 0 then Some s1
                    else f cfg0 w0 now0 i0 s1
               else Some (setLane i0 ((lanes s i0)\<lparr>nextDue := nextFree (lanes s i0)\<rparr>) s)
             else Some s) = Some y"
    show "cfg0 = cfg \<longrightarrow> w0 = w \<longrightarrow> now0 = now \<longrightarrow> i0 = i \<longrightarrow> Q s \<longrightarrow> Q y"
    proof (intro impI)
      assume e: "cfg0 = cfg" "w0 = w" "now0 = now" "i0 = i" and q: "Q s"
      have q1: "Q (scheduleNext cfg w i now (coilOn cfg w i s))"
        by (intro nxt fire q)
      from step e q q1 due[OF q] IH[of cfg w now i "scheduleNext cfg w i now (coilOn cfg w i s)" y]
      show "Q y"
        by (auto simp: Let_def split: if_splits)
    qed
  qed
  with init show ?thesis by simp
qed

lemma laneTick_inv:
  assumes run: "laneTick cfg w now i s = Some s'"
    and init: "Q s"
    and fire: "\<And>s. Q s \<Longrightarrow> Q (coilOn cfg w i s)"
    and nxt: "\<And>s. Q s \<Longrightarrow> Q (scheduleNext cfg w i now s)"
    and off: "\<And>s. Q s \<Longrightarrow> Q (maybeCoilOff i now s)"
    and upd: "\<And>s L. Q s \<Longrightarrow> nextFree L = nextFree (lanes s i) \<Longrightarrow> coilOffAt L = coilOffAt (lanes s i)
               \<Longrightarrow> baseHz L = baseHz (lanes s i) \<Longrightarrow> savedHz L = savedHz (lanes s i)
               \<Longrightarrow> (nudgeMul L, nudgeUntil L) = (nudgeMul (lanes s i), nudgeUntil (lanes s i))
                    \<or> (nudgeMul L, nudgeUntil L) = (1, 0)
               \<Longrightarrow> Q (setLane i L s)"
  shows "Q s'"
proof -
  have due: "\<And>s x. Q s \<Longrightarrow> Q (setLane i ((lanes s i)\<lparr>nextDue := x\<rparr>) s)"
    by (rule upd) simp_all
  let ?s1 = "maybeCoilOff i now s"
  let ?s2 = "if nudgeUntil (lanes ?s1 i) \<noteq> 0 \<and> 0 \<le> sint (now - nudgeUntil (lanes ?s1 i))
             then setLane i ((lanes ?s1 i)\<lparr>nudgeMul := 1, nudgeUntil := 0\<rparr>) ?s1 else ?s1"
  let ?s3 = "if freezeUntil (lanes ?s2 i) \<noteq> 0 \<and> 0 \<le> sint (now - freezeUntil (lanes ?s2 i))
             then setLane i ((lanes ?s2 i)\<lparr>freezeUntil := 0\<rparr>) ?s2 else ?s2"
  have q1: "Q ?s1" by (rule off[OF init])
  have q2: "Q ?s2"
  proof (cases "nudgeUntil (lanes ?s1 i) \<noteq> 0 \<and> 0 \<le> sint (now - nudgeUntil (lanes ?s1 i))")
    case True
    have "Q (setLane i ((lanes ?s1 i)\<lparr>nudgeMul := 1, nudgeUntil := 0\<rparr>) ?s1)"
      by (rule upd[OF q1]) simp_all
    with True show ?thesis by simp
  next
    case False
    with q1 show ?thesis by auto
  qed
  have q3: "Q ?s3"
  proof (cases "freezeUntil (lanes ?s2 i) \<noteq> 0 \<and> 0 \<le> sint (now - freezeUntil (lanes ?s2 i))")
    case True
    have "Q (setLane i ((lanes ?s2 i)\<lparr>freezeUntil := 0\<rparr>) ?s2)"
      by (rule upd[OF q2]) simp_all
    with True show ?thesis by simp
  next
    case False
    with q2 show ?thesis by auto
  qed
  have q4: "Q (setLane i ((lanes ?s2 i)\<lparr>nextDue := now + 10\<rparr>) ?s2)"
    by (rule due[OF q2])
  let ?s4 = "coilOn cfg w i ?s3"
  let ?s5 = "setLane i ((lanes ?s4 i)\<lparr>burstRemain := burstRemain (lanes ?s4 i) - 1\<rparr>) ?s4"
  have q5: "Q ?s5" by (rule upd[OF fire[OF q3]]) simp_all
  have q6: "Q (setLane i ((lanes ?s5 i)\<lparr>nextDue := now + ucast BURST_TARGET_MS\<rparr>) ?s5)"
    by (rule due[OF q5])
  have q7: "dueLoop cfg w now i ?s3 = Some s' \<Longrightarrow> Q s'"
    by (rule dueLoop_inv[where Q=Q, OF _ q3 fire nxt due])
  from run show ?thesis
    unfolding laneTick_def Let_def
    using q3 q4 q6 q7 by (auto split: if_splits)
qed

lemma laneSweep_inv:
  assumes run: "laneSweep cfg w now is s = Some s'"
    and init: "Q s"
    and fire: "\<And>i s. Q s \<Longrightarrow> Q (coilOn cfg w i s)"
    and nxt: "\<And>i s. Q s \<Longrightarrow> Q (scheduleNext cfg w i now s)"
    and off: "\<And>i s. Q s \<Longrightarrow> Q (maybeCoilOff i now s)"
    and upd: "\<And>i s L. Q s \<Longrightarrow> nextFree L = nextFree (lanes s i) \<Longrightarrow> coilOffAt L = coilOffAt (lanes s i)
               \<Longrightarrow> baseHz L = baseHz (lanes s i) \<Longrightarrow> savedHz L = savedHz (lanes s i)
               \<Longrightarrow> (nudgeMul L, nudgeUntil L) = (nudgeMul (lanes s i), nudgeUntil (lanes s i))
                    \<or> (nudgeMul L, nudgeUntil L) = (1, 0)
               \<Longrightarrow> Q (setLane i L s)"
  shows "Q s'"
  using run init
proof (induction "is" arbitrary: s)
  case Nil
  then show ?case by simp
next
  case (Cons i "is")
  from Cons.prems(1) obtain s1 where t: "laneTick cfg w now i s = Some s1"
    and r: "laneSweep cfg w now is s1 = Some s'"
    by (auto split: option.splits)
  have "Q s1"
    by (rule laneTick_inv[where Q=Q, OF t Cons.prems(2) fire nxt off upd])
  from Cons.IH[OF r this] show ?case .
qed

subsection \<open>Stagger blackout: freeze durations\<close>

lemma startStaggerBlackout_freeze:
  "i < NLANES cfg \<Longrightarrow>
   freezeUntil (lanes (startStaggerBlackout cfg w s) i)
     = millis w s + STAGGER_SILENCE_MS cfg
        + STAGGER_STOP_STEP_MS cfg * word_of_nat (NLANES cfg - 1 - i)"
  by (simp add: startStaggerBlackout_def Let_def clearTransientsAll_eq millis_def clockRead_def
      forLanes_setLane[where f="\<lambda>i L. L\<lparr>freezeUntil := X i, running := False\<rparr>" for X]
      of_nat_diff algebra_simps)

lemma staggerFreeze_eq:
  "i < NLANES cfg \<Longrightarrow>
   staggerFreeze cfg w s i
     = STAGGER_SILENCE_MS cfg + STAGGER_STOP_STEP_MS cfg * word_of_nat (NLANES cfg - 1 - i)"
  by (simp add: staggerFreeze_def startStaggerBlackout_freeze)

lemma staggerFreeze_unat:
  assumes "i < NLANES cfg"
    and "unat (STAGGER_SILENCE_MS cfg) + unat (STAGGER_STOP_STEP_MS cfg) * (NLANES cfg - 1) < 2 ^ 32"
  shows "unat (staggerFreeze cfg w s i)
     = unat (STAGGER_SILENCE_MS cfg) + unat (STAGGER_STOP_STEP_MS cfg) * (NLANES cfg - 1 - i)"
proof -
  let ?k = "NLANES cfg - 1 - i"
  have le: "unat (STAGGER_STOP_STEP_MS cfg) * ?k
              \<le> unat (STAGGER_STOP_STEP_MS cfg) * (NLANES cfg - 1)"
    by (rule mult_le_mono2) simp
  have "unat (staggerFreeze cfg w s i)
      = (unat (STAGGER_SILENCE_MS cfg) + unat (STAGGER_STOP_STEP_MS cfg) * ?k) mod 2 ^ 32"
    by (simp add: staggerFreeze_eq[OF assms(1)] unat_word_ariths unat_of_nat
        mod_add_right_eq mod_mult_right_eq)
  also have "\<dots> = unat (STAGGER_SILENCE_MS cfg) + unat (STAGGER_STOP_STEP_MS cfg) * ?k"
    using le assms(2) by (intro mod_less) linarith
  finally show ?thesis .
qed

subsection \<open>Picking two distinct lanes when there is only one\<close>

lemma cbDownLoop_single:
  assumes "cbDownLoop cfg w s = Some s'"
  shows "\<not> (NLANES cfg = 1 \<and> cbUp s = 0)"
proof (rule cbDownLoop.raw_induct[where P="\<lambda>cfg w s s'. \<not> (NLANES cfg = 1 \<and> cbUp s = 0)", OF _ assms])
  fix f cfg w s y
  assume IH: "\<And>cfg w s y. f cfg w s = Some y \<Longrightarrow> \<not> (NLANES cfg = 1 \<and> cbUp s = 0)"
    and step: "(let s1 = randomRead (s\<lparr>cbDown := rng 0 (word_of_nat (NLANES cfg) - 1) (esp_random w s)\<rparr>)
                in if cbDown s1 = cbUp s1 then f cfg w s1 else Some s1) = Some y"
  show "\<not> (NLANES cfg = 1 \<and> cbUp s = 0)"
  proof
    assume a: "NLANES cfg = 1 \<and> cbUp s = 0"
    with step have "f cfg w (randomRead (s\<lparr>cbDown := 0\<rparr>)) = Some y"
      by (simp add: Let_def rng_def randomRead_def)
    from IH[OF this] a show False by (simp add: randomRead_def)
  qed
qed

lemma snapFolLoop_single:
  assumes "snapFolLoop cfg w s = Some s'"
  shows "\<not> (NLANES cfg = 1 \<and> snapRef s = 0)"
proof (rule snapFolLoop.raw_induct[where P="\<lambda>cfg w s s'. \<not> (NLANES cfg = 1 \<and> snapRef s = 0)", OF _ assms])
  fix f cfg w s y
  assume IH: "\<And>cfg w s y. f cfg w s = Some y \<Longrightarrow> \<not> (NLANES cfg = 1 \<and> snapRef s = 0)"
    and step: "(let s1 = randomRead (s\<lparr>snapFol := rng 0 (word_of_nat (NLANES cfg) - 1) (esp_random w s)\<rparr>)
                in if snapFol s1 = snapRef s1 then f cfg w s1 else Some s1) = Some y"
  show "\<not> (NLANES cfg = 1 \<and> snapRef s = 0)"
  proof
    assume a: "NLANES cfg = 1 \<and> snapRef s = 0"
    with step have "f cfg w (randomRead (s\<lparr>snapFol := 0\<rparr>)) = Some y"
      by (simp add: Let_def rng_def randomRead_def)
    from IH[OF this] a show False by (simp add: randomRead_def)
  qed
qed

lemma startCounterbalance_single: "startCounterbalance (cfg\<lparr>NLANES := 1\<rparr>) w s = None"
proof (cases "startCounterbalance (cfg\<lparr>NLANES := 1\<rparr>) w s")
  case None
  then show ?thesis .
next
  case (Some s')
  then obtain s2
    where "cbDownLoop (cfg\<lparr>NLANES := 1\<rparr>) w (randomRead (s\<lparr>cbUp := 0\<rparr>)) = Some s2"
    by (auto simp: startCounterbalance_def Let_def rng_def split: option.splits)
  from cbDownLoop_single[OF this] show ?thesis by (simp add: randomRead_def)
qed

lemma startPhaseSnap_single: "startPhaseSnap (cfg\<lparr>NLANES := 1\<rparr>) w s = None"
proof (cases "startPhaseSnap (cfg\<lparr>NLANES := 1\<rparr>) w s")
  case None
  then show ?thesis .
next
  case (Some s')
  then obtain s2
    where "snapFolLoop (cfg\<lparr>NLANES := 1\<rparr>) w (randomRead (s\<lparr>snapRef := 0\<rparr>)) = Some s2"
    by (auto simp: startPhaseSnap_def Let_def rng_def split: option.splits)
  from snapFolLoop_single[OF this] show ?thesis by (simp add: randomRead_def)
qed

lemma handleEmailStorm_single:
  "handleEmailStorm (cfg\<lparr>NLANES := 1\<rparr>) w now s =
     (if 0 \<le> sint (now - stormEnd s) then s\<lparr>mode := MODE_NORMAL\<rparr>
      else if 0 \<le> sint (now - nextStormTick s)
      then (setLane 0 ((lanes s 0)\<lparr>burstRemain := burstCount (esp_random w s)\<rparr>) s)
             \<lparr>nextStormTick := now + rng STORM_TICK_MIN_MS STORM_TICK_MAX_MS
                                       (esp_random w (randomRead s)),
              randomReads := randomReads s + 2\<rparr>
      else s)"
  by (simp add: handleEmailStorm_def pickTwoDistinct_def Let_def randomRead_def setLane_def esp_random_def)

text \<open>
  Claim C5.  With a single lane configured (\<open>NLANES = 1\<close>), \<open>pickTwoDistinct\<close>
  returns \<open>false\<close> and the storm tick of \<open>handleEmailStorm\<close> falls back to a burst
  on the single lane \<open>LANES[0]\<close>.  \<open>startCounterbalance\<close> and \<open>startPhaseSnap\<close> do
  not use \<open>pickTwoDistinct\<close>: their loops \<open>do { ... } while (cbDown == cbUp)\<close> and
  \<open>do { ... } while (snapFol == snapRef)\<close> draw from \<open>rng(0, 0)\<close>, which is always
  0, so neither call returns, whatever the random source yields.
\<close>

theorem single_lane_pick_two:
  "pickTwoDistinct (cfg\<lparr>NLANES := 1\<rparr>) r1 r2 = None
   \<and> handleEmailStorm (cfg\<lparr>NLANES := 1\<rparr>) w now s =
       (if 0 \<le> sint (now - stormEnd s) then s\<lparr>mode := MODE_NORMAL\<rparr>
        else if 0 \<le> sint (now - nextStormTick s)
        then (setLane 0 ((lanes s 0)\<lparr>burstRemain := burstCount (esp_random w s)\<rparr>) s)
               \<lparr>nextStormTick := now + rng STORM_TICK_MIN_MS STORM_TICK_MAX_MS
                                         (esp_random w (randomRead s)),
                randomReads := randomReads s + 2\<rparr>
        else s)
   \<and> startCounterbalance (cfg\<lparr>NLANES := 1\<rparr>) w s = None
   \<and> startPhaseSnap (cfg\<lparr>NLANES := 1\<rparr>) w s = None"
proof (intro conjI)
  show "pickTwoDistinct (cfg\<lparr>NLANES := 1\<rparr>) r1 r2 = None"
    by (simp add: pickTwoDistinct_def)
qed (rule handleEmailStorm_single startCounterbalance_single startPhaseSnap_single)+

subsection \<open>Cooldown guards\<close>

text \<open>
  Claim C6.  When \<open>startSyncLock\<close> is called within \<open>SYNC_COOLDOWN_MS\<close> of
  \<open>lastSyncEnd\<close>, or \<open>startLongPause\<close> within \<open>LONG_PAUSE_COOLDOWN\<close> of
  \<open>lastLongPauseEnd\<close>, the guard returns before any assignment: every lane, the
  mode register and all effect state are unchanged.  The only trace of the call
  is that the clock has been read once.
\<close>

theorem cooldown_guard_noop:
  "(sint (millis w s - lastSyncEnd s) < sint (SYNC_COOLDOWN_MS cfg)
      \<longrightarrow> startSyncLock cfg w s = s\<lparr>clockReads := Suc (clockReads s)\<rparr>)
   \<and> (sint (millis w s - lastLongPauseEnd s) < sint (LONG_PAUSE_COOLDOWN cfg)
      \<longrightarrow> startLongPause cfg w s = s\<lparr>clockReads := Suc (clockReads s)\<rparr>)"
  by (simp add: startSyncLock_def startLongPause_def Let_def clockRead_def)

theorem cooldown_guard_noop_witness:
  "sint (millis tape0 boot - lastSyncEnd boot) < sint (SYNC_COOLDOWN_MS sketch_config)
   \<and> startSyncLock sketch_config tape0 boot = boot\<lparr>clockReads := Suc (clockReads boot)\<rparr>
   \<and> sint (millis tape0 boot - lastLongPauseEnd boot) < sint (LONG_PAUSE_COOLDOWN sketch_config)
   \<and> startLongPause sketch_config tape0 boot = boot\<lparr>clockReads := Suc (clockReads boot)\<rparr>"
proof -
  have a: "sint (millis tape0 boot - lastSyncEnd boot) < sint (SYNC_COOLDOWN_MS sketch_config)"
    by (simp add: millis_def tape0_def boot_def sketch_config_def)
  have b: "sint (millis tape0 boot - lastLongPauseEnd boot) < sint (LONG_PAUSE_COOLDOWN sketch_config)"
    by (simp add: millis_def tape0_def boot_def sketch_config_def)
  from a b cooldown_guard_noop[of tape0 boot sketch_config] show ?thesis by simp
qed

subsection \<open>The cumulative weight table\<close>

lemma buildWeightsLoop_below: "k < i \<Longrightarrow> buildWeightsLoop ws i acc c k = c k"
  by (induction ws arbitrary: i acc c) auto

lemma buildWeightsLoop_at:
  "k < length ws \<Longrightarrow> buildWeightsLoop ws i acc c (i + k) = acc + sum_list (take (Suc k) ws)"
proof (induction ws arbitrary: i acc c k)
  case Nil
  then show ?case by simp
next
  case (Cons x ws)
  show ?case
  proof (cases k)
    case 0
    then show ?thesis by (simp add: buildWeightsLoop_below)
  next
    case (Suc k')
    with Cons.prems have "k' < length ws" by simp
    from Cons.IH[OF this]
    have "buildWeightsLoop ws (Suc i) (acc + x) (c(i := acc + x)) (Suc i + k')
            = acc + x + sum_list (take (Suc k') ws)" .
    with Suc show ?thesis by (simp add: add.assoc)
  qed
qed

lemma sum_list_take_mono:
  fixes ws :: "real list"
  assumes "\<forall>x \<in> set ws. 0 \<le> x" and "j \<le> k"
  shows "sum_list (take j ws) \<le> sum_list (take k ws)"
proof -
  have "take k ws = take j ws @ take (k - j) (drop j ws)"
    using assms(2) by (metis le_add_diff_inverse take_add)
  moreover have "0 \<le> sum_list (take (k - j) (drop j ws))"
    using assms(1) by (intro sum_list_nonneg) (auto dest!: in_set_takeD in_set_dropD)
  ultimately show ?thesis by simp
qed

lemma cumW_buildWeights:
  "k < NEFF \<Longrightarrow> cumW (buildWeights cfg s) k = sum_list (take (Suc k) (WEIGHT_PTRS cfg))"
  using buildWeightsLoop_at[of k "WEIGHT_PTRS cfg" 0 0 "cumW s"]
  by (simp add: buildWeights_def NEFF_def WEIGHT_PTRS_def)

lemma cumW_buildWeights_last: "cumW (buildWeights cfg s) NEFF = 1"
  by (simp add: buildWeights_def)

lemma cumW_mono:
  assumes "\<forall>x \<in> set (WEIGHT_PTRS cfg). 0 \<le> x" and "i \<le> j" and "j < NEFF"
  shows "cumW (buildWeights cfg s) i \<le> cumW (buildWeights cfg s) j"
  using assms sum_list_take_mono[of "WEIGHT_PTRS cfg" "Suc i" "Suc j"]
  by (simp add: cumW_buildWeights)

lemma pickBucket_le: "pickBucket c r \<le> NEFF"
  by (simp add: pickBucket_def NEFF_def)

lemma ladder_unique:
  assumes m: "\<And>i j. i \<le> j \<Longrightarrow> j < NEFF \<Longrightarrow> c i \<le> c j"
  shows "bucketMatches c r b \<longleftrightarrow> b = pickBucket c r"
proof -
  have ch: "c 0 \<le> c 1" "c 1 \<le> c 2" "c 2 \<le> c 3" "c 3 \<le> c 4" "c 4 \<le> c 5" "c 5 \<le> c 6"
    "c 6 \<le> c 7" "c 7 \<le> c 8" "c 8 \<le> c 9" "c 9 \<le> c 10"
    by (rule m; simp add: NEFF_def)+
  have "b = 0 \<or> b = 1 \<or> b = 2 \<or> b = 3 \<or> b = 4 \<or> b = 5 \<or> b = 6 \<or> b = 7
    \<or> b = 8 \<or> b = 9 \<or> b = 10 \<or> b = 11 \<or> 11 < b"
    by arith
  then consider "b = 0" | "b = 1" | "b = 2" | "b = 3" | "b = 4" | "b = 5" | "b = 6" | "b = 7"
    | "b = 8" | "b = 9" | "b = 10" | "b = 11" | "11 < b"
    by blast
  then show ?thesis
    using ch by cases (auto simp: bucketMatches_def pickBucket_def NEFF_def)
qed

text \<open>
  Claim C7 (amended).  After \<open>buildWeights\<close> has run on non-negative weights, the
  boundaries of the named effects \<open>cumW[0 .. NEFF - 1]\<close> are non-decreasing and
  the last boundary \<open>cumW[NEFF]\<close> is exactly 1.0; the whole table, last boundary
  included, is non-decreasing exactly when the accumulated total
  \<open>cumW[NEFF - 1]\<close> is at most 1.0.  For every draw \<open>r\<close> exactly one bucket
  matches, and it is the branch that the ladder of \<open>pickAndStartEffect\<close> takes:
  a named effect \<open>i\<close> with \<open>cumW[i - 1] \<le> r < cumW[i]\<close>, or the subtle-glitch
  fallback when \<open>r\<close> is past all named boundaries.
\<close>

theorem weight_table_buckets:
  "list_all (\<lambda>x. 0 \<le> x) (WEIGHT_PTRS cfg) \<Longrightarrow> c = cumW (buildWeights cfg s) \<Longrightarrow>
     (\<forall>i j. i \<le> j \<and> j < NEFF \<longrightarrow> c i \<le> c j)
   \<and> c NEFF = 1
   \<and> ((\<forall>i j. i \<le> j \<and> j \<le> NEFF \<longrightarrow> c i \<le> c j) \<longleftrightarrow> c (NEFF - 1) \<le> 1)
   \<and> (\<forall>r b. bucketMatches c r b \<longleftrightarrow> b = pickBucket c r)"
proof (intro conjI)
  assume "list_all (\<lambda>x. 0 \<le> x) (WEIGHT_PTRS cfg)" and c: "c = cumW (buildWeights cfg s)"
  then have w: "\<forall>x \<in> set (WEIGHT_PTRS cfg). 0 \<le> x" by (simp add: list_all_iff)
  show m: "\<forall>i j. i \<le> j \<and> j < NEFF \<longrightarrow> c i \<le> c j"
    using cumW_mono[OF w] c by blast
  show l: "c NEFF = 1" by (simp add: c cumW_buildWeights_last)
  show "(\<forall>i j. i \<le> j \<and> j \<le> NEFF \<longrightarrow> c i \<le> c j) \<longleftrightarrow> c (NEFF - 1) \<le> 1"
  proof
    assume "\<forall>i j. i \<le> j \<and> j \<le> NEFF \<longrightarrow> c i \<le> c j"
    then have "c (NEFF - 1) \<le> c NEFF" by simp
    with l show "c (NEFF - 1) \<le> 1" by simp
  next
    assume le: "c (NEFF - 1) \<le> 1"
    show "\<forall>i j. i \<le> j \<and> j \<le> NEFF \<longrightarrow> c i \<le> c j"
    proof (intro allI impI)
      fix i j assume ij: "i \<le> j \<and> j \<le> NEFF"
      show "c i \<le> c j"
      proof (cases "j < NEFF")
        case True
        with m ij show ?thesis by blast
      next
        case False
        with ij have j: "j = NEFF" by simp
        show ?thesis
        proof (cases "i = NEFF")
          case True
          with j show ?thesis by simp
        next
          case False
          with ij j have "i \<le> NEFF - 1" "NEFF - 1 < NEFF" by (simp_all add: NEFF_def)
          with m have "c i \<le> c (NEFF - 1)" by blast
          with le l j show ?thesis by simp
        qed
      qed
    qed
  qed
  show "\<forall>r b. bucketMatches c r b \<longleftrightarrow> b = pickBucket c r"
    using m by (intro allI ladder_unique) blast
qed

theorem weight_table_buckets_witness:
  "list_all (\<lambda>x. 0 \<le> x) (WEIGHT_PTRS sketch_config)
   \<and> cumW (buildWeights sketch_config boot) NEFF = 1
   \<and> pickBucket (cumW (buildWeights sketch_config boot)) (1/2) = 6
   \<and> bucketMatches (cumW (buildWeights sketch_config boot)) (1/2) 6"
proof -
  have w: "list_all (\<lambda>x. 0 \<le> x) (WEIGHT_PTRS sketch_config)"
    by (simp add: WEIGHT_PTRS_def sketch_config_def)
  have p: "pickBucket (cumW (buildWeights sketch_config boot)) (1/2) = 6"
    by (simp add: pickBucket_def buildWeights_def WEIGHT_PTRS_def sketch_config_def NEFF_def)
  from weight_table_buckets[OF w refl, of boot] w p show ?thesis by simp
qed

text \<open>
  With eleven weights of 0.25 the accumulated total is 2.75, and the table steps
  down from \<open>cumW[NEFF - 1] = 2.75\<close> to \<open>cumW[NEFF] = 1.0\<close>.
\<close>

theorem weight_table_last_boundary_counterexample:
  "WEIGHT_PTRS quarter_weights = replicate 11 (1/4)
   \<and> cumW (buildWeights quarter_weights boot) NEFF
       < cumW (buildWeights quarter_weights boot) (NEFF - 1)"
  by (simp add: buildWeights_def WEIGHT_PTRS_def quarter_weights_def sketch_config_def NEFF_def
      numeral_eq_Suc)

subsection \<open>Transient lane state at the start of an effect\<close>

lemma transients_clear: "i < NLANES cfg \<Longrightarrow> transients (lanes (clearTransientsAll cfg s) i) = (0, 0, 1, 0)"
  by (simp add: clearTransientsAll_eq transients_def)

lemma transients_startEmailStorm:
  "i < NLANES cfg \<Longrightarrow> transients (lanes (startEmailStorm cfg w s) i) = (0, 0, 1, 0)"
  by (simp add: startEmailStorm_def st transients_clear)

lemma transients_nudge_reset:
  "transients (lanes (forLanes cfg (\<lambda>i s. setLane i ((lanes s i)\<lparr>nudgeMul := 1, nudgeUntil := 0\<rparr>) s) s) i)
     = (if i < NLANES cfg then (burstRemain (lanes s i), freezeUntil (lanes s i), 1, 0)
        else transients (lanes s i))"
  by (subst forLanes_lane_proj[where p=transients and h="\<lambda>i t. (fst t, fst (snd t), 1, 0)"])
     (auto simp: st transients_def)

lemma transients_startAccelerando:
  "i < NLANES cfg \<Longrightarrow> transients (lanes (startAccelerando cfg w s) i) = (0, 0, 1, 0)"
  using transients_clear[of i cfg s]
  by (simp add: startAccelerando_def Let_def transients_nudge_reset)
     (simp add: transients_def st)

lemma transients_startDecelerando:
  "i < NLANES cfg \<Longrightarrow> transients (lanes (startDecelerando cfg w s) i) = (0, 0, 1, 0)"
  using transients_clear[of i cfg s]
  by (simp add: startDecelerando_def Let_def transients_nudge_reset)
     (simp add: transients_def st)

lemma transients_startBeat:
  "i < NLANES cfg \<Longrightarrow> transients (lanes (startBeat cfg w p s) i) = (0, 0, 1, 0)"
proof -
  have "transients (lanes (forLanes cfg (\<lambda>i s. setLane i ((lanes s i)\<lparr>running := False\<rparr>) s) s0) i)
          = transients (lanes s0 i)" for s0
    by (subst forLanes_lane_proj[where p=transients and h="\<lambda>i t. t"])
       (auto simp: st transients_def)
  then show "i < NLANES cfg \<Longrightarrow> ?thesis"
    by (simp add: startBeat_def st transients_clear)
qed


lemma transients_startStaggerBlackout:
  "i < NLANES cfg \<Longrightarrow>
   transients (lanes (startStaggerBlackout cfg w s) i)
     = (0, millis w s + STAGGER_SILENCE_MS cfg
             + STAGGER_STOP_STEP_MS cfg * word_of_nat (NLANES cfg - 1 - i), 1, 0)"
  using startStaggerBlackout_freeze[of i cfg w s]
  by (simp add: transients_def)
     (simp add: startStaggerBlackout_def Let_def clearTransientsAll_eq millis_def clockRead_def
        forLanes_setLane[where f="\<lambda>i L. L\<lparr>freezeUntil := X i, running := False\<rparr>" for X])

lemma cbDownLoop_lanes:
  assumes "cbDownLoop cfg w s = Some s'"
  shows "lanes s' = lanes s"
  by (rule cbDownLoop.raw_induct[where P="\<lambda>cfg w s s'. lanes s' = lanes s", OF _ assms])
     (auto simp: Let_def randomRead_def split: if_splits)

lemma snapFolLoop_lanes:
  assumes "snapFolLoop cfg w s = Some s'"
  shows "lanes s' = lanes s"
  by (rule snapFolLoop.raw_induct[where P="\<lambda>cfg w s s'. lanes s' = lanes s", OF _ assms])
     (auto simp: Let_def randomRead_def split: if_splits)

lemma transients_startCounterbalance:
  assumes "startCounterbalance cfg w s = Some s'" and "i < NLANES cfg"
  shows "transients (lanes s' i) = (burstRemain (lanes s i), freezeUntil (lanes s i), 1, nudgeUntil (lanes s i))"
proof -
  from assms(1) obtain s2 where
    l: "cbDownLoop cfg w (randomRead (s\<lparr>cbUp := rng 0 (word_of_nat (NLANES cfg) - 1) (esp_random w s)\<rparr>)) = Some s2"
    by (auto simp: startCounterbalance_def Let_def split: option.splits)
  have n: "transients (lanes (forLanes cfg (\<lambda>i s. setLane i ((lanes s i)\<lparr>nudgeMul := 1\<rparr>) s) s0) i)
          = (burstRemain (lanes s0 i), freezeUntil (lanes s0 i), 1, nudgeUntil (lanes s0 i))" for s0
    using assms(2)
    by (subst forLanes_lane_proj[where p=transients and h="\<lambda>i t. (fst t, fst (snd t), 1, snd (snd (snd t)))"])
       (auto simp: st transients_def)
  from assms(1) l cbDownLoop_lanes[OF l] show ?thesis
    by (auto simp: startCounterbalance_def Let_def n)
qed

lemma transients_startPhaseSnap:
  assumes "startPhaseSnap cfg w s = Some s'"
  shows "transients (lanes s' i) = transients (lanes s i)"
proof -
  from assms(1) obtain s2 where
    l: "snapFolLoop cfg w (randomRead (s\<lparr>snapRef := rng 0 (word_of_nat (NLANES cfg) - 1) (esp_random w s)\<rparr>)) = Some s2"
    by (auto simp: startPhaseSnap_def Let_def split: option.splits)
  from assms(1) l snapFolLoop_lanes[OF l] show ?thesis
    by (auto simp: startPhaseSnap_def st transients_def)
qed

lemma lanes_startScopeCreep: "lanes (startScopeCreep cfg w s) = lanes s"
  by (simp add: startScopeCreep_def Let_def forLanes_frame[where g=lanes] clockRead_def)

text \<open>
  Claim C4 (amended).  Email Storm, Accel, Decel, Stagger Blackout and Beat
  perform the clear-all-transients step at their start: after the start routine
  every lane has \<open>burstRemain = 0\<close>, \<open>nudgeMul = 1.0\<close>, \<open>nudgeUntil\<close> unset and
  \<open>freezeUntil\<close> unset (Stagger Blackout then sets \<open>freezeUntil\<close> to its own freeze
  end).  Counterbalance only resets every lane's \<open>nudgeMul\<close> to 1.0 and leaves
  \<open>burstRemain\<close>, \<open>freezeUntil\<close> and \<open>nudgeUntil\<close> as they were; Phase Snap and
  Scope Creep leave all four transient fields of every lane as they were.
\<close>

theorem transients_at_effect_start:
  "i < NLANES cfg \<Longrightarrow>
     transients (lanes (startEmailStorm cfg w s) i) = (0, 0, 1, 0)
   \<and> transients (lanes (startAccelerando cfg w s) i) = (0, 0, 1, 0)
   \<and> transients (lanes (startDecelerando cfg w s) i) = (0, 0, 1, 0)
   \<and> transients (lanes (startBeat cfg w p s) i) = (0, 0, 1, 0)
   \<and> transients (lanes (startStaggerBlackout cfg w s) i)
       = (0, millis w s + STAGGER_SILENCE_MS cfg
               + STAGGER_STOP_STEP_MS cfg * word_of_nat (NLANES cfg - 1 - i), 1, 0)
   \<and> (\<forall>s'. startCounterbalance cfg w s = Some s' \<longrightarrow>
          transients (lanes s' i)
            = (burstRemain (lanes s i), freezeUntil (lanes s i), 1, nudgeUntil (lanes s i)))
   \<and> (\<forall>s'. startPhaseSnap cfg w s = Some s' \<longrightarrow>
          transients (lanes s' i) = transients (lanes s i))
   \<and> transients (lanes (startScopeCreep cfg w s) i) = transients (lanes s i)"
  by (simp add: transients_startEmailStorm transients_startAccelerando
      transients_startDecelerando transients_startBeat transients_startStaggerBlackout
      transients_startCounterbalance transients_startPhaseSnap lanes_startScopeCreep)

lemma startCounterbalance_returns:
  "\<exists>s'. startCounterbalance sketch_config countingTape frozenLaneA = Some s'"
  apply (simp add: startCounterbalance_def Let_def)
  apply (subst cbDownLoop.simps)
  apply (simp add: st rng_def esp_random_def countingTape_def frozenLaneA_def boot_def sketch_config_def)
  done

lemma startPhaseSnap_returns:
  "\<exists>s'. startPhaseSnap sketch_config countingTape frozenLaneA = Some s'"
  apply (simp add: startPhaseSnap_def Let_def)
  apply (subst snapFolLoop.simps)
  apply (simp add: st rng_def esp_random_def countingTape_def frozenLaneA_def boot_def sketch_config_def)
  done

theorem transients_at_effect_start_witness:
  "laneA < NLANES sketch_config
   \<and> transients (lanes (startEmailStorm sketch_config countingTape frozenLaneA) laneA) = (0, 0, 1, 0)
   \<and> (\<exists>s'. startCounterbalance sketch_config countingTape frozenLaneA = Some s'
          \<and> transients (lanes s' laneA) = (0, 7000, 1, 0))
   \<and> (\<exists>s'. startPhaseSnap sketch_config countingTape frozenLaneA = Some s'
          \<and> transients (lanes s' laneA) = (0, 7000, 1, 0))"
proof -
  have h: "laneA < NLANES sketch_config" by (simp add: laneA_def sketch_config_def)
  have t: "transients (lanes frozenLaneA laneA) = (0, 7000, 1, 0)"
    by (simp add: transients_def frozenLaneA_def boot_def bootLanes_def newLane_def setLane_def)
  from startCounterbalance_returns startPhaseSnap_returns h t
    transients_at_effect_start[OF h, of countingTape frozenLaneA]
  show ?thesis by (auto simp: transients_def)
qed

text \<open>
  A lane frozen until \<open>t = 7000\<close> is still frozen until \<open>t = 7000\<close> after
  \<open>startScopeCreep\<close> at \<open>t = 4000\<close>.
\<close>

theorem transients_scope_creep_counterexample:
  "laneA < NLANES sketch_config
   \<and> freezeUntil (lanes (startScopeCreep sketch_config countingTape frozenLaneA) laneA) = 7000"
  by (simp add: lanes_startScopeCreep frozenLaneA_def setLane_def laneA_def sketch_config_def)

subsection \<open>Beat steps and the lanes beyond \<open>C\<close>\<close>

lemma laneView_coilOn: "i \<noteq> k \<Longrightarrow> laneView i (coilOn cfg w k s) = laneView i s"
  by (simp add: laneView_def pulsesOf_def coilOn_def Let_def)

lemma laneView_simps [simp]:
  "laneView i (randomRead s) = laneView i s"
  "laneView i (clockRead s) = laneView i s"
  "laneView i (s\<lparr>beat := b\<rparr>) = laneView i s"
  "laneView i (s\<lparr>mode := m\<rparr>) = laneView i s"
  by (simp_all add: laneView_def pulsesOf_def randomRead_def clockRead_def)

lemma laneView_endBeat: "laneView i (endBeat cfg w s) = laneView i s"
proof -
  let ?body = "\<lambda>i s. setLane i ((lanes s i)\<lparr>running := True,
                   nextDue := millis w s + periodMs (lanes s i)\<rparr>) (clockRead s)"
  have "pulseState (lanes (forLanes cfg ?body s) i) = pulseState (lanes s i)"
    by (subst forLanes_lane_proj[where p=pulseState and h="\<lambda>i t. t"])
       (auto simp: pulseState_def)
  moreover have "pulses (forLanes cfg ?body s) = pulses s"
    by (rule forLanes_frame) simp
  ultimately show ?thesis
    by (simp add: endBeat_def Let_def laneView_def pulsesOf_def)
qed

text \<open>
  Claim C10.  \<open>handleBeat\<close> fires only the lanes \<open>A\<close>, \<open>B\<close> and \<open>C\<close>: for every
  pattern and every step, a lane with index 3 or more is not energized by the
  beat step, and its polarity and pulse state (\<open>pol\<close>, \<open>coilOffAt\<close>, \<open>nextFree\<close>,
  \<open>minute\<close>) are the same after the beat update as before it.
\<close>

theorem beat_fires_only_A_B_C:
  "3 \<le> i \<Longrightarrow>
     pulseState (lanes (handleBeat cfg w now s) i) = pulseState (lanes s i)
   \<and> pulsesOf i (handleBeat cfg w now s) = pulsesOf i s"
proof -
  assume "3 \<le> i"
  then have ne: "i \<noteq> laneA" "i \<noteq> laneB" "i \<noteq> laneC"
    by (simp_all add: laneA_def laneB_def laneC_def)
  have "laneView i (handleBeat cfg w now s) = laneView i s"
    by (simp add: handleBeat_def Let_def laneView_coilOn[OF ne(1)] laneView_coilOn[OF ne(2)]
        laneView_coilOn[OF ne(3)] laneView_endBeat split: option.splits)
  then show ?thesis by (simp add: laneView_def)
qed

theorem beat_fires_only_A_B_C_witness:
  "(3::nat) \<le> laneD
   \<and> pulseState (lanes (handleBeat sketch_config tape0 20
                           (startBeat sketch_config tape0 DEMBOW boot)) laneD)
       = pulseState (lanes (startBeat sketch_config tape0 DEMBOW boot) laneD)
   \<and> pulsesOf laneD (handleBeat sketch_config tape0 20
                        (startBeat sketch_config tape0 DEMBOW boot))
       = pulsesOf laneD (startBeat sketch_config tape0 DEMBOW boot)
   \<and> pulsesOf laneA (handleBeat sketch_config tape0 20
                        (startBeat sketch_config tape0 DEMBOW boot)) = [0]"
proof -
  have h: "(3::nat) \<le> laneD" by (simp add: laneD_def)
  have a: "pulsesOf laneA (handleBeat sketch_config tape0 20
                        (startBeat sketch_config tape0 DEMBOW boot)) = [0]"
    by (simp add: handleBeat_def startBeat_def Let_def pulsesOf_def DEMBOW_def hasStep_def
        coilOn_def millis_def tape0_def clearTransientsAll_eq forLanes_frame[where g=pulses]
        forLanes_frame[where g=beat] forLanes_frame[where g=clockReads]
        boot_def laneA_def laneB_def laneC_def sketch_config_def
        forLanes_setLane[where f="\<lambda>i L. L\<lparr>running := False\<rparr>"] bootLanes_def newLane_def)
  from h a beat_fires_only_A_B_C[OF h, of sketch_config tape0 20 "startBeat sketch_config tape0 DEMBOW boot"]
  show ?thesis by simp
qed

subsection \<open>The autonomous schedule of a lane\<close>

text \<open>
  Claim C3.  For a lane whose \<open>nextDue\<close> has passed, the loop of the lane
  scheduler does the following.  If the minimum-off gate has not cleared, it sets
  \<open>nextDue\<close> to the gate's opening time \<open>nextFree\<close> and ends without firing.
  Otherwise it calls \<open>coilOn\<close> and \<open>scheduleNext\<close>: if the drift
  \<open>now - nextDue\<close> exceeds four periods, the next due time is \<open>now + period +
  jitter\<close>, otherwise it is the previous due time plus \<open>period + jitter\<close>; the
  loop ends there when the new due time lies ahead, and goes round again when it
  does not.  A running lane that is not frozen, owes no burst and has no pulse or
  nudge to end reaches this loop directly.
\<close>

theorem autonomous_schedule:
  "0 \<le> sint (now - nextDue (lanes s i)) \<Longrightarrow>
     (sint (now - nextFree (lanes s i)) < 0 \<longrightarrow>
        dueLoop cfg w now i s = Some (setLane i ((lanes s i)\<lparr>nextDue := nextFree (lanes s i)\<rparr>) s))
   \<and> (0 \<le> sint (now - nextFree (lanes s i)) \<longrightarrow>
        (let s1 = scheduleNext cfg w i now (coilOn cfg w i s);
             period = periodMs (lanes s i);
             jitter = jitterOf cfg (esp_random w s)
         in nextDue (lanes s1 i)
              = (if sint (period * 4) < sint (now - nextDue (lanes s i))
                 then now + period + jitter
                 else nextDue (lanes s i) + period + jitter)
          \<and> pulses s1 = (if sint (millis w s - nextFree (lanes s i)) < 0 then pulses s
                          else (i, millis w s) # pulses s)
          \<and> dueLoop cfg w now i s
              = (if sint (now - nextDue (lanes s1 i)) < 0 then Some s1
                 else dueLoop cfg w now i s1)))
   \<and> (running (lanes s i) \<and> coilOffAt (lanes s i) = 0 \<and> nudgeUntil (lanes s i) = 0
        \<and> freezeUntil (lanes s i) = 0 \<and> burstRemain (lanes s i) = 0 \<longrightarrow>
        laneTick cfg w now i s = dueLoop cfg w now i s)"
proof (intro conjI impI)
  assume due: "0 \<le> sint (now - nextDue (lanes s i))"
  {
    assume "sint (now - nextFree (lanes s i)) < 0"
    with due show "dueLoop cfg w now i s
        = Some (setLane i ((lanes s i)\<lparr>nextDue := nextFree (lanes s i)\<rparr>) s)"
      by (subst dueLoop.simps) simp
  }
  {
    assume free: "0 \<le> sint (now - nextFree (lanes s i))"
    have d: "dueLoop cfg w now i s
        = (if sint (now - nextDue (lanes (scheduleNext cfg w i now (coilOn cfg w i s)) i)) < 0
           then Some (scheduleNext cfg w i now (coilOn cfg w i s))
           else dueLoop cfg w now i (scheduleNext cfg w i now (coilOn cfg w i s)))"
      using due free by (subst dueLoop.simps) (simp add: Let_def)
    show "let s1 = scheduleNext cfg w i now (coilOn cfg w i s);
             period = periodMs (lanes s i);
             jitter = jitterOf cfg (esp_random w s)
         in nextDue (lanes s1 i)
              = (if sint (period * 4) < sint (now - nextDue (lanes s i))
                 then now + period + jitter
                 else nextDue (lanes s i) + period + jitter)
          \<and> pulses s1 = (if sint (millis w s - nextFree (lanes s i)) < 0 then pulses s
                          else (i, millis w s) # pulses s)
          \<and> dueLoop cfg w now i s
              = (if sint (now - nextDue (lanes s1 i)) < 0 then Some s1
                 else dueLoop cfg w now i s1)"
      unfolding Let_def
    proof (intro conjI)
      show "nextDue (lanes (scheduleNext cfg w i now (coilOn cfg w i s)) i)
          = (if sint (periodMs (lanes s i) * 4) < sint (now - nextDue (lanes s i))
             then now + periodMs (lanes s i) + jitterOf cfg (esp_random w s)
             else nextDue (lanes s i) + periodMs (lanes s i) + jitterOf cfg (esp_random w s))"
        by (simp add: scheduleNext_lane)
      show "pulses (scheduleNext cfg w i now (coilOn cfg w i s))
          = (if sint (millis w s - nextFree (lanes s i)) < 0 then pulses s
             else (i, millis w s) # pulses s)"
        by (simp add: coilOn_pulses)
      show "dueLoop cfg w now i s
          = (if sint (now - nextDue (lanes (scheduleNext cfg w i now (coilOn cfg w i s)) i)) < 0
             then Some (scheduleNext cfg w i now (coilOn cfg w i s))
             else dueLoop cfg w now i (scheduleNext cfg w i now (coilOn cfg w i s)))"
        by (rule d)
    qed
  }
  {
    assume "running (lanes s i) \<and> coilOffAt (lanes s i) = 0 \<and> nudgeUntil (lanes s i) = 0
        \<and> freezeUntil (lanes s i) = 0 \<and> burstRemain (lanes s i) = 0"
    then show "laneTick cfg w now i s = dueLoop cfg w now i s"
      by (simp add: laneTick_def maybeCoilOff_def Let_def)
  }
qed


lemma periodMs_boot_A: "periodMs (lanes boot laneA) = 1000"
  by (simp add: periodMs_def boot_def bootLanes_def newLane_def BASE_HZ_A_def)

lemma jitterOf_sketch_0: "jitterOf sketch_config 0 = - 10"
  by (simp add: jitterOf_def sketch_config_def rng_def)

theorem autonomous_schedule_witness:
  "0 \<le> sint (1000 - nextDue (lanes boot laneA))
   \<and> 0 \<le> sint (1000 - nextFree (lanes boot laneA))
   \<and> nextDue (lanes (scheduleNext sketch_config tape0 laneA 1000
                        (coilOn sketch_config tape0 laneA boot)) laneA) = 990
   \<and> pulses (scheduleNext sketch_config tape0 laneA 1000
                (coilOn sketch_config tape0 laneA boot)) = [(laneA, 0)]
   \<and> 0 \<le> sint (5000 - nextDue (lanes boot laneA))
   \<and> nextDue (lanes (scheduleNext sketch_config tape0 laneA 5000
                        (coilOn sketch_config tape0 laneA boot)) laneA) = 5990
   \<and> 0 \<le> sint (100 - nextDue (lanes gatedLaneA laneA))
   \<and> sint (100 - nextFree (lanes gatedLaneA laneA)) < 0
   \<and> dueLoop sketch_config tape0 100 laneA gatedLaneA
       = Some (setLane laneA ((lanes gatedLaneA laneA)\<lparr>nextDue := 240\<rparr>) gatedLaneA)
   \<and> laneTick sketch_config tape0 100 laneA gatedLaneA
       = dueLoop sketch_config tape0 100 laneA gatedLaneA"
proof -
  have b: "nextDue (lanes boot laneA) = 0" "nextFree (lanes boot laneA) = 0"
    "pulses boot = []" "millis tape0 boot = 0" "esp_random tape0 boot = 0"
    by (simp_all add: boot_def bootLanes_def newLane_def millis_def esp_random_def tape0_def)
  have g: "nextDue (lanes gatedLaneA laneA) = 0" "nextFree (lanes gatedLaneA laneA) = 240"
    "running (lanes gatedLaneA laneA)" "coilOffAt (lanes gatedLaneA laneA) = 0"
    "nudgeUntil (lanes gatedLaneA laneA) = 0" "freezeUntil (lanes gatedLaneA laneA) = 0"
    "burstRemain (lanes gatedLaneA laneA) = 0"
    by (simp_all add: gatedLaneA_def boot_def bootLanes_def newLane_def)
  have d1: "0 \<le> sint (1000 - nextDue (lanes boot laneA))" by (simp add: b)
  have d2: "0 \<le> sint (5000 - nextDue (lanes boot laneA))" by (simp add: b)
  have d3: "0 \<le> sint (100 - nextDue (lanes gatedLaneA laneA))" by (simp add: g)
  from autonomous_schedule[OF d1, of sketch_config tape0]
    autonomous_schedule[OF d2, of sketch_config tape0]
    autonomous_schedule[OF d3, of sketch_config tape0]
  show ?thesis
    by (simp add: b g Let_def periodMs_boot_A jitterOf_sketch_0)
qed

subsection \<open>The minimum-off law\<close>

lemma sint_neg_small:
  fixes k :: nat
  assumes "0 < k" and "k < 2 ^ 31"
  shows "sint (- (word_of_nat k :: u32)) = - int k"
proof -
  have a: "- (word_of_nat k :: u32) = word_of_int (- int k)" by simp
  have b: "sint (word_of_int (- int k) :: u32) = signed_take_bit (LENGTH(32) - 1) (- int k)"
    by (rule sint_sbintrunc')
  have c: "signed_take_bit (LENGTH(32) - 1) (- int k) = - int k"
    using assms by (intro signed_take_bit_int_eq_self) simp_all
  from a b c show ?thesis by metis
qed

lemma u16_bound: "unat (x :: u16) < 65536"
  using unsigned_less[of x, where ?'a=nat] by simp

lemma elapsed_gap:
  fixes on off :: u16 and t0 :: u32
  assumes "0 \<le> sint (t0 + word_of_nat e - (t0 + ucast on + ucast off))"
  shows "unat on + unat off \<le> e"
proof (rule ccontr)
  define k where "k = unat on + unat off - e"
  assume "\<not> unat on + unat off \<le> e"
  then have lt: "e < unat on + unat off" by simp
  then have k: "0 < k" "unat on + unat off = e + k" by (simp_all add: k_def)
  have "k < 131072" using u16_bound[of on] u16_bound[of off] k(2) by linarith
  then have k31: "k < 2 ^ 31" by simp
  have "(ucast on :: u32) + ucast off = word_of_nat (unat on + unat off)"
    by simp
  also have "\<dots> = word_of_nat e + word_of_nat k"
    unfolding k(2) by simp
  finally have x: "(ucast on :: u32) + ucast off = word_of_nat e + word_of_nat k" .
  have "t0 + word_of_nat e - (t0 + ucast on + ucast off)
          = word_of_nat e - ((ucast on :: u32) + ucast off)"
    by (simp add: add.assoc)
  also have "\<dots> = - (word_of_nat k :: u32)"
    unfolding x by simp
  finally have "t0 + word_of_nat e - (t0 + ucast on + ucast off) = - (word_of_nat k :: u32)" .
  with assms have "0 \<le> sint (- (word_of_nat k :: u32))" by (simp only:)
  with sint_neg_small[OF k(1) k31] k(1) show False by simp
qed

lemma minimumOff_view: "minimumOff cfg s = minOffView cfg (gateView s)"
  by (simp add: minimumOff_def gateTracks_def minOffView_def gateView_def)

lemma gateView_setLane [simp]:
  "nextFree L = nextFree (lanes s i) \<Longrightarrow> coilOffAt L = coilOffAt (lanes s i)
     \<Longrightarrow> gateView (setLane i L s) = gateView s"
  by (auto simp: gateView_def)

lemma gateView_reads [simp]:
  "gateView (clockRead s) = gateView s"
  "gateView (randomRead s) = gateView s"
  by (simp_all add: gateView_def)

lemma gateView_updates [simp]:
  "gateView (s\<lparr>mode := a1\<rparr>) = gateView s"
  "gateView (s\<lparr>beat := a2\<rparr>) = gateView s"
  "gateView (s\<lparr>lastAnyPulseAt := a3\<rparr>) = gateView s"
  "gateView (s\<lparr>lastSyncEnd := a4\<rparr>) = gateView s"
  "gateView (s\<lparr>modeEndsAt := a5\<rparr>) = gateView s"
  "gateView (s\<lparr>lastLongPauseEnd := a6\<rparr>) = gateView s"
  "gateView (s\<lparr>rampStart := a7\<rparr>) = gateView s"
  "gateView (s\<lparr>rampEnd := a8\<rparr>) = gateView s"
  "gateView (s\<lparr>rampTo := a9\<rparr>) = gateView s"
  "gateView (s\<lparr>cbUp := b1\<rparr>) = gateView s"
  "gateView (s\<lparr>cbDown := b2\<rparr>) = gateView s"
  "gateView (s\<lparr>cbStart := b3\<rparr>) = gateView s"
  "gateView (s\<lparr>cbEnd := b4\<rparr>) = gateView s"
  "gateView (s\<lparr>cbDelta := b5\<rparr>) = gateView s"
  "gateView (s\<lparr>stormEnd := b6\<rparr>) = gateView s"
  "gateView (s\<lparr>nextStormTick := b7\<rparr>) = gateView s"
  "gateView (s\<lparr>scopeStartHz := b8\<rparr>) = gateView s"
  "gateView (s\<lparr>scopeStart := b9\<rparr>) = gateView s"
  "gateView (s\<lparr>scopeEnd := c1\<rparr>) = gateView s"
  "gateView (s\<lparr>snapRef := c2\<rparr>) = gateView s"
  "gateView (s\<lparr>snapFol := c3\<rparr>) = gateView s"
  "gateView (s\<lparr>snapEnd := c4\<rparr>) = gateView s"
  "gateView (s\<lparr>cumW := c5\<rparr>) = gateView s"
  "gateView (s\<lparr>lastTry := c6\<rparr>) = gateView s"
  "gateView (s\<lparr>lastLivenessLog := c7\<rparr>) = gateView s"
  by (simp_all add: gateView_def)

lemma gateView_forLanes [simp]:
  "(\<And>i s. gateView (body i s) = gateView s) \<Longrightarrow> gateView (forLanes cfg body s) = gateView s"
  by (rule forLanes_frame)

lemma gateView_fold [simp]:
  "(\<And>i s. gateView (body i s) = gateView s) \<Longrightarrow> gateView (fold body xs s) = gateView s"
  by (rule fold_frame)

lemma gateView_clearTransientsAll [simp]: "gateView (clearTransientsAll cfg s) = gateView s"
  by (simp add: clearTransientsAll_def)

lemma gateView_scheduleNext [simp]: "gateView (scheduleNext cfg w i now s) = gateView s"
  by (simp add: scheduleNext_def Let_def)

lemma gateView_starts [simp]:
  "gateView (startSyncLock cfg w s) = gateView s"
  "gateView (startLongPause cfg w s) = gateView s"
  "gateView (startStaggerBlackout cfg w s) = gateView s"
  "gateView (startBeat cfg w p s) = gateView s"
  "gateView (startAccelerando cfg w s) = gateView s"
  "gateView (startDecelerando cfg w s) = gateView s"
  "gateView (startEmailStorm cfg w s) = gateView s"
  "gateView (startScopeCreep cfg w s) = gateView s"
  by (simp_all add: startSyncLock_def startLongPause_def startStaggerBlackout_def startBeat_def
      startAccelerando_def startDecelerando_def startEmailStorm_def startScopeCreep_def Let_def)

lemma gateView_ends [simp]:
  "gateView (endBeat cfg w s) = gateView s"
  "gateView (endSyncLock cfg w s) = gateView s"
  "gateView (endLongPause cfg w s) = gateView s"
  "gateView (endStaggerBlackout cfg w s) = gateView s"
  by (simp_all add: endBeat_def endSyncLock_def endLongPause_def endStaggerBlackout_def Let_def)

lemma gateView_handles [simp]:
  "gateView (handleAccelerando cfg now s) = gateView s"
  "gateView (handleDecelerando cfg now s) = gateView s"
  "gateView (handleCounterbalance cfg now s) = gateView s"
  "gateView (handleScopeCreep cfg now s) = gateView s"
  "gateView (handlePhaseSnap now s) = gateView s"
  by (simp_all add: handleAccelerando_def handleDecelerando_def handleCounterbalance_def
      handleScopeCreep_def handlePhaseSnap_def Let_def)

lemma gateView_handleEmailStorm [simp]: "gateView (handleEmailStorm cfg w now s) = gateView s"
  by (simp add: handleEmailStorm_def Let_def split: option.splits prod.splits)

lemma gateView_reorgSwap [simp]: "gateView (reorgSwap cfg w s) = gateView s"
  by (simp add: reorgSwap_def Let_def)

lemma gateView_subtleGlitch [simp]: "gateView (subtleGlitch cfg w s) = gateView s"
  by (simp add: subtleGlitch_def Let_def)

lemma gateView_liveness [simp]: "gateView (liveness cfg w now s) = gateView s"
  by (simp add: liveness_def Let_def)


lemma minimumOff_coilOn: "minimumOff cfg s \<Longrightarrow> minimumOff cfg (coilOn cfg w i s)"
  by (auto simp: minimumOff_def gateTracks_def coilOn_def Let_def minOffKept_def
      split: option.splits)

lemma minimumOff_maybeCoilOff: "minimumOff cfg s \<Longrightarrow> minimumOff cfg (maybeCoilOff i now s)"
  by (auto simp: minimumOff_def gateTracks_def maybeCoilOff_def Let_def)

lemma minimumOff_if_coilOn:
  "minimumOff cfg s \<Longrightarrow> minimumOff cfg (if c then coilOn cfg w i s else s)"
  by (simp add: minimumOff_coilOn)

lemma gateView_if: "gateView (if c then a else b) = (if c then gateView a else gateView b)"
  by simp

lemma beat_if: "beat (if c then a else b) = (if c then beat a else beat b)"
  by simp

lemma gateView_handleBeat:
  "pat (beat s) = Some p \<Longrightarrow> \<not> sint (now - nextStepAt (beat s)) < 0 \<Longrightarrow>
   gateView (handleBeat cfg w now s)
     = gateView
         (let s1 = (if hasStep (patA p) (nA p) (step (beat s)) then coilOn cfg w laneA s else s);
              s2 = (if hasStep (patB p) (nB p) (step (beat s)) then coilOn cfg w laneB s1 else s1)
          in (if hasStep (patC p) (nC p) (step (beat s)) then coilOn cfg w laneC s2 else s2))"
  by (simp add: handleBeat_def Let_def gateView_if beat_if split del: if_split cong: if_cong)

lemma minimumOff_handleBeat:
  assumes "minimumOff cfg s"
  shows "minimumOff cfg (handleBeat cfg w now s)"
proof (cases "pat (beat s)")
  case None
  with assms show ?thesis by (simp add: handleBeat_def)
next
  case (Some p)
  show ?thesis
  proof (cases "sint (now - nextStepAt (beat s)) < 0")
    case True
    with Some assms show ?thesis by (simp add: handleBeat_def)
  next
    case False
    show ?thesis
      unfolding minimumOff_view gateView_handleBeat[OF Some False] Let_def
      unfolding minimumOff_view[symmetric]
      by (intro minimumOff_if_coilOn assms)
  qed
qed

lemma minimumOff_handleMode: "minimumOff cfg s \<Longrightarrow> minimumOff cfg (handleMode cfg w now s)"
  by (cases "mode s") (simp_all add: handleMode_def minimumOff_handleBeat, simp_all add: minimumOff_view)

lemma gateView_cbDownLoop:
  assumes "cbDownLoop cfg w s = Some s'"
  shows "gateView s' = gateView s"
  by (rule cbDownLoop.raw_induct[where P="\<lambda>cfg w s s'. gateView s' = gateView s", OF _ assms])
     (auto simp: Let_def split: if_splits)

lemma gateView_snapFolLoop:
  assumes "snapFolLoop cfg w s = Some s'"
  shows "gateView s' = gateView s"
  by (rule snapFolLoop.raw_induct[where P="\<lambda>cfg w s s'. gateView s' = gateView s", OF _ assms])
     (auto simp: Let_def split: if_splits)

lemma gateView_startCounterbalance:
  assumes "startCounterbalance cfg w s = Some s'"
  shows "gateView s' = gateView s"
proof -
  from assms obtain s2 where
    l: "cbDownLoop cfg w (randomRead (s\<lparr>cbUp := rng 0 (word_of_nat (NLANES cfg) - 1) (esp_random w s)\<rparr>)) = Some s2"
    by (auto simp: startCounterbalance_def Let_def split: option.splits)
  from assms l gateView_cbDownLoop[OF l] show ?thesis
    by (simp add: startCounterbalance_def Let_def) auto
qed

lemma gateView_startPhaseSnap:
  assumes "startPhaseSnap cfg w s = Some s'"
  shows "gateView s' = gateView s"
proof -
  from assms obtain s2 where
    l: "snapFolLoop cfg w (randomRead (s\<lparr>snapRef := rng 0 (word_of_nat (NLANES cfg) - 1) (esp_random w s)\<rparr>)) = Some s2"
    by (auto simp: startPhaseSnap_def Let_def split: option.splits)
  from assms l gateView_snapFolLoop[OF l] show ?thesis
    by (simp add: startPhaseSnap_def Let_def) auto
qed

lemma gateView_pickAndStartEffect:
  assumes "pickAndStartEffect cfg w s = Some s'"
  shows "gateView s' = gateView s"
proof -
  let ?b = "pickBucket (cumW (randomRead s))
              (real_of_int (random_range 0 10000 (esp_random w s)) / 10000)"
  consider "?b = 6" | "?b = 8" | "?b \<noteq> 6 \<and> ?b \<noteq> 8" by blast
  then show ?thesis
  proof cases
    case 1
    with assms have "startCounterbalance cfg w (randomRead s) = Some s'"
      by (simp add: pickAndStartEffect_def Let_def)
    from gateView_startCounterbalance[OF this] show ?thesis by simp
  next
    case 2
    with assms have "startPhaseSnap cfg w (randomRead s) = Some s'"
      by (simp add: pickAndStartEffect_def Let_def)
    from gateView_startPhaseSnap[OF this] show ?thesis by simp
  next
    case 3
    with assms show ?thesis
      by (auto simp: pickAndStartEffect_def Let_def split: if_splits)
  qed
qed

lemma gateView_considerEffect:
  assumes "considerEffect cfg w now s = Some s'"
  shows "gateView s' = gateView s"
proof (cases "mode s = MODE_NORMAL \<and> 0 \<le> sint (now - lastTry s)")
  case False
  with assms show ?thesis by (auto simp: considerEffect_def)
next
  case True
  let ?s2 = "randomRead (randomRead (s\<lparr>lastTry := now + GLITCH_CHECK_MS + rng (- 500) 500 (esp_random w s)\<rparr>))"
  from assms True have "pickAndStartEffect cfg w ?s2 = Some s' \<or> s' = ?s2"
    by (auto simp: considerEffect_def Let_def split: if_splits)
  then show ?thesis
    using gateView_pickAndStartEffect[of cfg w ?s2 s'] by auto
qed

lemma minimumOff_laneSweep:
  assumes "laneSweep cfg w now is s = Some s'" and "minimumOff cfg s"
  shows "minimumOff cfg s'"
proof (rule laneSweep_inv[where Q="minimumOff cfg", OF assms])
  fix i s assume "minimumOff cfg s"
  then show "minimumOff cfg (coilOn cfg w i s)" by (rule minimumOff_coilOn)
next
  fix i s assume "minimumOff cfg s"
  then show "minimumOff cfg (scheduleNext cfg w i now s)" by (simp add: minimumOff_view)
next
  fix i s assume "minimumOff cfg s"
  then show "minimumOff cfg (maybeCoilOff i now s)" by (rule minimumOff_maybeCoilOff)
next
  fix i s and L :: Lane
  assume "minimumOff cfg s" "nextFree L = nextFree (lanes s i)" "coilOffAt L = coilOffAt (lanes s i)"
  then show "minimumOff cfg (setLane i L s)" by (simp add: minimumOff_view)
qed

lemma minimumOff_loop:
  assumes "loop cfg w s = Some s'" and "minimumOff cfg s"
  shows "minimumOff cfg s'"
proof -
  from assms(1) obtain s2 where
    c: "considerEffect cfg w (millis w s) (clockRead s) = Some s2"
    and l: "laneSweep cfg w (millis w s) (LANES cfg)
              (liveness cfg w (millis w s) (handleMode cfg w (millis w s) s2)) = Some s'"
    by (auto simp: loop_def Let_def split: option.splits)
  from gateView_considerEffect[OF c] assms(2) have "minimumOff cfg s2"
    by (simp add: minimumOff_view)
  then have "minimumOff cfg (handleMode cfg w (millis w s) s2)"
    by (rule minimumOff_handleMode)
  then have "minimumOff cfg (liveness cfg w (millis w s) (handleMode cfg w (millis w s) s2))"
    by (simp add: minimumOff_view)
  from minimumOff_laneSweep[OF l this] show ?thesis .
qed

lemma pulses_setup0: "pulses (setup0 cfg w) = []"
  by (simp add: setup0_def Let_def setupLane_def buildWeights_def boot_def)

lemma minimumOff_setup0: "minimumOff cfg (setup0 cfg w)"
  by (simp add: minimumOff_def gateTracks_def pulses_setup0)

text \<open>
  Claim C1.  In every state that the sketch reaches, every energize event of a
  lane came no earlier than its gate: the events of each lane are spaced by at
  least the pulse width plus the minimum-off time, and the gate \<open>nextFree\<close> of a
  lane equals the pulse-off time of its latest pulse plus the minimum-off time.
  \<open>coilOn\<close>, the only place that energizes a lane, returns without firing when
  \<open>now\<close> is before \<open>nextFree\<close>, and a fired pulse sets \<open>coilOffAt = now +
  PULSE_ON_MS\<close> and \<open>nextFree = coilOffAt + MIN_OFF_MS\<close>.  Read on elapsed time:
  when \<open>e\<close> milliseconds lie between two pulses of a lane, \<open>e\<close> is at least the
  pulse width plus the minimum-off time, so the gap between pulse-off and the
  next pulse-on is at least the minimum-off time.
\<close>

theorem minimum_off_law:
  "reachable cfg w s \<Longrightarrow>
     minimumOff cfg s
   \<and> (sint (millis w s - nextFree (lanes s i)) < 0 \<longrightarrow> coilOn cfg w i s = clockRead s)
   \<and> (0 \<le> sint (millis w s - nextFree (lanes s i)) \<longrightarrow>
        pulses (coilOn cfg w i s) = (i, millis w s) # pulses s
        \<and> coilOffAt (lanes (coilOn cfg w i s) i) = millis w s + ucast (PULSE_ON_MS cfg)
        \<and> nextFree (lanes (coilOn cfg w i s) i)
            = coilOffAt (lanes (coilOn cfg w i s) i) + ucast (MIN_OFF_MS cfg))
   \<and> (\<forall>t0 e. minOffKept cfg t0 (t0 + word_of_nat e)
          \<longrightarrow> unat (PULSE_ON_MS cfg) + unat (MIN_OFF_MS cfg) \<le> e)"
proof (intro conjI impI allI)
  assume "reachable cfg w s"
  then show "minimumOff cfg s"
    by (induction rule: reachable.induct) (auto intro: minimumOff_setup0 minimumOff_loop)
next
  assume "sint (millis w s - nextFree (lanes s i)) < 0"
  then show "coilOn cfg w i s = clockRead s"
    by (simp add: coilOn_def Let_def)
next
  assume g: "0 \<le> sint (millis w s - nextFree (lanes s i))"
  then show "pulses (coilOn cfg w i s) = (i, millis w s) # pulses s"
    by (simp add: coilOn_pulses)
  from g show "coilOffAt (lanes (coilOn cfg w i s) i) = millis w s + ucast (PULSE_ON_MS cfg)"
    by (simp add: coilOn_lane)
  from g show "nextFree (lanes (coilOn cfg w i s) i)
            = coilOffAt (lanes (coilOn cfg w i s) i) + ucast (MIN_OFF_MS cfg)"
    by (simp add: coilOn_lane)
next
  fix t0 e
  assume "minOffKept cfg t0 (t0 + word_of_nat e)"
  then show "unat (PULSE_ON_MS cfg) + unat (MIN_OFF_MS cfg) \<le> e"
    unfolding minOffKept_def by (rule elapsed_gap)
qed

lemma periods: "periodMs (newLane BASE_HZ_A) = 1000" "periodMs (newLane BASE_HZ_B) = 1020"
  "periodMs (newLane BASE_HZ_C) = 980" "periodMs (newLane BASE_HZ_D) = 990"
  by (simp_all add: periodMs_def newLane_def BASE_HZ_A_def BASE_HZ_B_def BASE_HZ_C_def BASE_HZ_D_def round_def)


lemma setup0_tick:
  "mode (setup0 sketch_config tickTape) = MODE_NORMAL"
  "lastTry (setup0 sketch_config tickTape) = 0"
  "clockReads (setup0 sketch_config tickTape) = 5"
  "randomReads (setup0 sketch_config tickTape) = 5"
  "lastAnyPulseAt (setup0 sketch_config tickTape) = 0"
  "pulses (setup0 sketch_config tickTape) = []"
  "lanes (setup0 sketch_config tickTape) 0 = (newLane BASE_HZ_A)\<lparr>nextDue := 500\<rparr>"
  "lanes (setup0 sketch_config tickTape) (Suc 0) = (newLane BASE_HZ_B)\<lparr>nextDue := 500\<rparr>"
  "lanes (setup0 sketch_config tickTape) 2 = (newLane BASE_HZ_C)\<lparr>nextDue := 500\<rparr>"
  "lanes (setup0 sketch_config tickTape) 3 = (newLane BASE_HZ_D)\<lparr>nextDue := 500\<rparr>"
  by (simp_all add: setup0_def Let_def setupLane_def buildWeights_def boot_def millis_def
      esp_random_def tickTape_def rng_def bootLanes_def laneA_def laneB_def laneC_def laneD_def
      newLane_def clockRead_def randomRead_def setLane_def)



lemma laneTick_fires:
  assumes "running (lanes s i)" "coilOffAt (lanes s i) = 0" "nudgeUntil (lanes s i) = 0"
    "freezeUntil (lanes s i) = 0" "burstRemain (lanes s i) = 0"
    and due: "0 \<le> sint (now - nextDue (lanes s i))"
    and free: "0 \<le> sint (now - nextFree (lanes s i))"
    and gate: "0 \<le> sint (millis w s - nextFree (lanes s i))"
    and jit: "0 < sint (JITTER_MS cfg)"
    and drift: "\<not> sint (periodMs (lanes s i) * 4) < sint (now - nextDue (lanes s i))"
    and ahead: "sint (now - (nextDue (lanes s i) + periodMs (lanes s i)
                              + jitterOf cfg (esp_random w s))) < 0"
  shows "\<exists>t. laneTick cfg w now i s = Some t
           \<and> pulses t = (i, millis w s) # pulses s
           \<and> clockReads t = Suc (clockReads s)
           \<and> randomReads t = Suc (randomReads s)
           \<and> (\<forall>j. j \<noteq> i \<longrightarrow> lanes t j = lanes s j)"
proof -
  let ?t = "scheduleNext cfg w i now (coilOn cfg w i s)"
  have nd: "nextDue (lanes ?t i)
      = nextDue (lanes s i) + periodMs (lanes s i) + jitterOf cfg (esp_random w s)"
    using drift by (simp add: scheduleNext_lane)
  have "dueLoop cfg w now i s = Some ?t"
    using due free ahead by (subst dueLoop.simps) (simp add: Let_def nd)
  moreover have "laneTick cfg w now i s = dueLoop cfg w now i s"
    using assms(1-5) by (simp add: laneTick_def maybeCoilOff_def Let_def)
  moreover have "pulses ?t = (i, millis w s) # pulses s"
    using gate by (simp add: coilOn_pulses)
  moreover have "randomReads ?t = Suc (randomReads s)"
    using jit by (simp add: scheduleNext_def Let_def)
  moreover have "\<forall>j. j \<noteq> i \<longrightarrow> lanes ?t j = lanes s j"
    by (simp add: scheduleNext_other coilOn_other)
  ultimately show ?thesis by simp
qed

lemma upt_4: "[0 ..< 4] = [0, 1, 2, 3]"
  by code_simp

lemma tick_facts:
  "5 \<le> k \<Longrightarrow> millisTape tickTape k = 600"
  "randomTape tickTape k = 500"
  "NLANES sketch_config = 4"
  "JITTER_MS sketch_config = 10"
  "LANES sketch_config = [0, 1, 2, 3]"
  "jitterOf sketch_config 500 = 7"
  by (simp_all add: tickTape_def sketch_config_def LANES_def jitterOf_def rng_def upt_4)

lemma random_range_500: "random_range 0 1000 500 = 500"
  by (simp add: random_range_def)

lemma consider_tick:
  "considerEffect sketch_config tickTape 600 (clockRead (setup0 sketch_config tickTape))
     = Some (randomRead (randomRead ((clockRead (setup0 sketch_config tickTape))
               \<lparr>lastTry := 600 + GLITCH_CHECK_MS + rng (- 500) 500 500\<rparr>)))"
  by (simp add: considerEffect_def Let_def setup0_tick esp_random_def tick_facts
      random_range_500 GLITCH_PROB_def trunc_int_def clockRead_def randomRead_def)

lemma loop_tick:
  "\<exists>s'. loop sketch_config tickTape (setup0 sketch_config tickTape) = Some s'
        \<and> pulses s' = [(3, 600), (2, 600), (1, 600), (0, 600)]"
proof -
  let ?s0 = "setup0 sketch_config tickTape"
  let ?s1 = "randomRead (randomRead ((clockRead ?s0)
               \<lparr>lastTry := 600 + GLITCH_CHECK_MS + rng (- 500) 500 500\<rparr>))"
  have l: "lanes ?s1 = lanes ?s0" "pulses ?s1 = []" "clockReads ?s1 = 6" "randomReads ?s1 = 7"
    "mode ?s1 = MODE_NORMAL" "lastAnyPulseAt ?s1 = 0"
    by (simp_all add: setup0_tick clockRead_def randomRead_def)
  have m: "handleMode sketch_config tickTape 600 ?s1 = ?s1"
    by (simp add: handleMode_def l del: randomRead_fields clockRead_fields)
  have v: "liveness sketch_config tickTape 600 ?s1 = ?s1"
    by (simp add: liveness_def l LIVENESS_WARN_MS_def del: randomRead_fields clockRead_fields)
  obtain t0 where t0: "laneTick sketch_config tickTape 600 0 ?s1 = Some t0"
    "pulses t0 = [(0, 600)]" "clockReads t0 = 7" "randomReads t0 = 8"
    "\<forall>j. j \<noteq> 0 \<longrightarrow> lanes t0 j = lanes ?s0 j"
    using laneTick_fires[of ?s1 0 600 tickTape sketch_config]
    by (auto simp: l setup0_tick newLane_def millis_def esp_random_def tick_facts periodMs_def
        BASE_HZ_A_def round_def simp del: randomRead_fields clockRead_fields)
  obtain t1 where t1: "laneTick sketch_config tickTape 600 (Suc 0) t0 = Some t1"
    "pulses t1 = [(1, 600), (0, 600)]" "clockReads t1 = 8" "randomReads t1 = 9"
    "\<forall>j. j \<noteq> 0 \<and> j \<noteq> 1 \<longrightarrow> lanes t1 j = lanes ?s0 j"
    using laneTick_fires[of t0 "Suc 0" 600 tickTape sketch_config]
    by (auto simp: t0 setup0_tick newLane_def millis_def esp_random_def tick_facts periodMs_def
        BASE_HZ_B_def round_def)
  obtain t2 where t2: "laneTick sketch_config tickTape 600 2 t1 = Some t2"
    "pulses t2 = [(2, 600), (1, 600), (0, 600)]" "clockReads t2 = 9" "randomReads t2 = 10"
    "\<forall>j. j \<noteq> 0 \<and> j \<noteq> 1 \<and> j \<noteq> 2 \<longrightarrow> lanes t2 j = lanes ?s0 j"
    using laneTick_fires[of t1 2 600 tickTape sketch_config]
    by (auto simp: t1 setup0_tick newLane_def millis_def esp_random_def tick_facts periodMs_def
        BASE_HZ_C_def round_def)
  obtain t3 where t3: "laneTick sketch_config tickTape 600 3 t2 = Some t3"
    "pulses t3 = [(3, 600), (2, 600), (1, 600), (0, 600)]"
    using laneTick_fires[of t2 3 600 tickTape sketch_config]
    by (auto simp: t2 setup0_tick newLane_def millis_def esp_random_def tick_facts periodMs_def
        BASE_HZ_D_def round_def)
  have "loop sketch_config tickTape ?s0 = Some t3"
    by (simp add: loop_def Let_def millis_def setup0_tick tick_facts consider_tick m v t0 t1 t2 t3
        del: randomRead_fields clockRead_fields)
  with t3(2) show ?thesis by simp
qed

theorem minimum_off_law_witness:
  "reachable sketch_config tickTape (the (loop sketch_config tickTape (setup0 sketch_config tickTape)))
   \<and> pulses (the (loop sketch_config tickTape (setup0 sketch_config tickTape)))
       = [(3, 600), (2, 600), (1, 600), (0, 600)]
   \<and> minimumOff sketch_config (the (loop sketch_config tickTape (setup0 sketch_config tickTape)))"
proof -
  from loop_tick obtain s' where
    l: "loop sketch_config tickTape (setup0 sketch_config tickTape) = Some s'"
    and p: "pulses s' = [(3, 600), (2, 600), (1, 600), (0, 600)]"
    by blast
  have r: "reachable sketch_config tickTape s'"
    by (rule reachable.tick[OF reachable.start l])
  from minimum_off_law[OF r, of 0] r l p show ?thesis by simp
qed

subsection \<open>Sync-Lock as a round trip on \<open>baseHz\<close>\<close>

lemma syncView_startSyncLock:
  assumes "\<not> sint (millis w s - lastSyncEnd s) < sint (SYNC_COOLDOWN_MS cfg)" and "i < NLANES cfg"
  shows "syncView (lanes (startSyncLock cfg w s) i)
           = (real (unat (SYNC_BPM cfg)) / 60, baseHz (lanes s i), 1, 0)"
  using assms
  by (simp add: startSyncLock_def Let_def clearTransientsAll_eq syncView_def clockRead_def
      forLanes_setLane[where f="\<lambda>i L. L\<lparr>savedHz := baseHz L, baseHz := X,
                       running := True, nextDue := Y, pol := False\<rparr>" for X Y])

lemma mode_startSyncLock:
  "\<not> sint (millis w s - lastSyncEnd s) < sint (SYNC_COOLDOWN_MS cfg)
     \<Longrightarrow> mode (startSyncLock cfg w s) = MODE_SYNC_LOCK"
  by (simp add: startSyncLock_def Let_def clockRead_def)

lemma syncView_endSyncLock:
  "i < NLANES cfg \<Longrightarrow>
   syncView (lanes (endSyncLock cfg w s) i) = (savedHz (lanes s i), savedHz (lanes s i), 1, 0)"
proof -
  let ?body = "\<lambda>i s. randomRead (clockRead (setLane i
                 ((lanes s i)\<lparr>baseHz := savedHz (lanes s i), nudgeMul := 1, nudgeUntil := 0,
                    nextDue := millis w s
                      + periodMs ((lanes s i)\<lparr>baseHz := savedHz (lanes s i), nudgeMul := 1,
                                                nudgeUntil := 0\<rparr>)
                      + rng 0 120 (esp_random w s)\<rparr>) s))"
  have "syncView (lanes (forLanes cfg ?body s) i)
          = (if i < NLANES cfg then (fst (snd (syncView (lanes s i))), fst (snd (syncView (lanes s i))), 1, 0)
             else syncView (lanes s i))"
    by (rule forLanes_lane_proj[where p=syncView and h="\<lambda>i t. (fst (snd t), fst (snd t), 1, 0)"])
       (simp add: syncView_def)
  then show "i < NLANES cfg \<Longrightarrow> ?thesis"
    by (simp add: endSyncLock_def Let_def) (simp add: syncView_def)
qed

lemma mode_endSyncLock: "mode (endSyncLock cfg w s) = MODE_NORMAL"
  by (simp add: endSyncLock_def Let_def)

lemma lockReleased_endSyncLock: "lockHeld cfg orig s \<Longrightarrow> lockReleased cfg orig (endSyncLock cfg w s)"
  by (simp add: lockHeld_def lockReleased_def mode_endSyncLock syncView_endSyncLock)
     (simp add: syncView_def)


lemma lockHeld_startSyncLock:
  assumes "\<not> sint (millis w s - lastSyncEnd s) < sint (SYNC_COOLDOWN_MS cfg)"
  shows "lockHeld cfg (\<lambda>i. baseHz (lanes s i)) (startSyncLock cfg w s)"
  using assms by (simp add: lockHeld_def mode_startSyncLock syncView_startSyncLock)

lemma syncKept_laneSweep:
  assumes "laneSweep cfg w now is s = Some s'" and "syncKept cfg m b sv s"
  shows "syncKept cfg m b sv s'"
proof (rule laneSweep_inv[where Q="syncKept cfg m b sv", OF assms])
  fix i s assume "syncKept cfg m b sv s"
  then show "syncKept cfg m b sv (coilOn cfg w i s)"
    by (auto simp: syncKept_def syncView_def coilOn_def Let_def)
next
  fix i s assume "syncKept cfg m b sv s"
  then show "syncKept cfg m b sv (scheduleNext cfg w i now s)"
    by (auto simp: syncKept_def syncView_def scheduleNext_def Let_def)
next
  fix i s assume "syncKept cfg m b sv s"
  then show "syncKept cfg m b sv (maybeCoilOff i now s)"
    by (auto simp: syncKept_def syncView_def maybeCoilOff_def Let_def)
next
  fix i s and L :: Lane
  assume "syncKept cfg m b sv s" "baseHz L = baseHz (lanes s i)" "savedHz L = savedHz (lanes s i)"
    "(nudgeMul L, nudgeUntil L) = (nudgeMul (lanes s i), nudgeUntil (lanes s i))
       \<or> (nudgeMul L, nudgeUntil L) = (1, 0)"
  then show "syncKept cfg m b sv (setLane i L s)"
    by (auto simp: syncKept_def syncView_def)
qed

lemma syncKept_liveness: "syncKept cfg m b sv s \<Longrightarrow> syncKept cfg m b sv (liveness cfg w now s)"
proof -
  let ?body = "\<lambda>i s. if \<not> running (lanes s i) then s
                   else randomRead (setLane i ((lanes s i)\<lparr>nextDue :=
                          now + periodMs (lanes s i) + rng 0 100 (esp_random w s)\<rparr>) s)"
  have v: "syncView (lanes (forLanes cfg ?body s) i) = syncView (lanes s i)" for i s
    using forLanes_lane_proj[where p=syncView and h="\<lambda>i t. t" and body="?body", of cfg s i]
    by (simp add: syncView_def)
  have m: "mode (forLanes cfg ?body s) = mode s" for s
    by (rule forLanes_frame) simp
  assume "syncKept cfg m b sv s"
  then show ?thesis
    by (simp add: liveness_def Let_def syncKept_def v m)
qed

lemma lock_tick:
  assumes l: "loop cfg w s = Some s'" and h: "lockHeld cfg orig s"
  shows "lockHeld cfg orig s' \<or> lockReleased cfg orig s'"
proof -
  let ?now = "millis w s"
  from h have md: "mode s = MODE_SYNC_LOCK" by (simp add: lockHeld_def)
  then have c: "considerEffect cfg w ?now (clockRead s) = Some (clockRead s)"
    by (simp add: considerEffect_def)
  let ?s2 = "handleMode cfg w ?now (clockRead s)"
  from l c have sw: "laneSweep cfg w ?now (LANES cfg) (liveness cfg w ?now ?s2) = Some s'"
    by (simp add: loop_def Let_def)
  have h1: "lockHeld cfg orig (clockRead s)"
    using h by (simp add: lockHeld_def)
  have "lockHeld cfg orig ?s2 \<or> lockReleased cfg orig ?s2"
    using h1 md lockReleased_endSyncLock[OF h1, of w]
    by (simp add: handleMode_def)
  then show ?thesis
  proof
    assume "lockHeld cfg orig ?s2"
    then have "syncKept cfg MODE_SYNC_LOCK (\<lambda>i. real (unat (SYNC_BPM cfg)) / 60) orig ?s2"
      by (simp add: lockHeld_def syncKept_def)
    from syncKept_laneSweep[OF sw syncKept_liveness[OF this]]
    show ?thesis by (simp add: lockHeld_def syncKept_def)
  next
    assume "lockReleased cfg orig ?s2"
    then have "syncKept cfg MODE_NORMAL orig orig ?s2"
      by (simp add: lockReleased_def syncKept_def)
    from syncKept_laneSweep[OF sw syncKept_liveness[OF this]]
    show ?thesis by (simp add: lockReleased_def syncKept_def)
  qed
qed

lemma lockRun_inv:
  assumes "lockRun cfg w s0 s'" and "lockHeld cfg orig s0"
  shows "lockHeld cfg orig s' \<or> lockReleased cfg orig s'"
  using assms
proof (induction rule: lockRun.induct)
  case locked
  then show ?case by simp
next
  case (tick s s1 s2)
  then have "lockHeld cfg orig s1" by (auto simp: lockReleased_def)
  from lock_tick[OF tick.hyps(3) this] show ?case .
qed

text \<open>
  Claim C8.  When \<open>startSyncLock\<close> passes its cooldown guard, it saves each
  lane's \<open>baseHz\<close> and forces every lane to \<open>SYNC_BPM / 60\<close> with \<open>nudgeMul\<close> reset
  to 1.0: through every tick of the hold, the effective frequency of every lane
  is \<open>SYNC_BPM / 60\<close> (2.0 Hz at 120 BPM).  \<open>endSyncLock\<close> restores the saved
  values: after it, whether called directly or by the tick that ends the hold,
  every lane's \<open>baseHz\<close> is what it was immediately before the lock.
\<close>

theorem sync_lock_round_trip:
  "\<not> sint (millis w s - lastSyncEnd s) < sint (SYNC_COOLDOWN_MS cfg) \<Longrightarrow>
   lockRun cfg w (startSyncLock cfg w s) s' \<Longrightarrow> i < NLANES cfg \<Longrightarrow>
     (mode s' = MODE_SYNC_LOCK \<longrightarrow>
          baseHz (lanes s' i) * nudgeMul (lanes s' i) = real (unat (SYNC_BPM cfg)) / 60
        \<and> nudgeMul (lanes s' i) = 1
        \<and> (SYNC_BPM cfg \<noteq> 0 \<longrightarrow> effectiveHz (lanes s' i) = real (unat (SYNC_BPM cfg)) / 60)
        \<and> (SYNC_BPM cfg = 120 \<longrightarrow> effectiveHz (lanes s' i) = 2)
        \<and> baseHz (lanes (endSyncLock cfg w s') i) = baseHz (lanes s i))
   \<and> (mode s' \<noteq> MODE_SYNC_LOCK \<longrightarrow>
          mode s' = MODE_NORMAL \<and> baseHz (lanes s' i) = baseHz (lanes s i))"
proof -
  assume g: "\<not> sint (millis w s - lastSyncEnd s) < sint (SYNC_COOLDOWN_MS cfg)"
    and r: "lockRun cfg w (startSyncLock cfg w s) s'" and i: "i < NLANES cfg"
  let ?orig = "\<lambda>i. baseHz (lanes s i)"
  let ?f = "real (unat (SYNC_BPM cfg)) / 60"
  from lockRun_inv[OF r lockHeld_startSyncLock[OF g]]
  have d: "lockHeld cfg ?orig s' \<or> lockReleased cfg ?orig s'" .
  have held: "mode s' = MODE_SYNC_LOCK \<Longrightarrow> syncView (lanes s' i) = (?f, ?orig i, 1, 0)"
    using d i by (auto simp: lockHeld_def lockReleased_def)
  have rel: "mode s' \<noteq> MODE_SYNC_LOCK \<Longrightarrow> mode s' = MODE_NORMAL \<and> baseHz (lanes s' i) = ?orig i"
    using d i by (auto simp: lockHeld_def lockReleased_def syncView_def)
  have one: "(1::real) \<le> real (unat (SYNC_BPM cfg))" if "SYNC_BPM cfg \<noteq> 0"
  proof -
    from that have "unat (SYNC_BPM cfg) \<noteq> 0" by (simp add: unsigned_eq_0_iff)
    then have "Suc 0 \<le> unat (SYNC_BPM cfg)" by simp
    then have "real (Suc 0) \<le> real (unat (SYNC_BPM cfg))" by (rule of_nat_mono)
    then show ?thesis by simp
  qed
  show ?thesis
  proof (intro conjI impI)
    assume m: "mode s' = MODE_SYNC_LOCK"
    from held[OF m] show "baseHz (lanes s' i) * nudgeMul (lanes s' i) = ?f"
      and "nudgeMul (lanes s' i) = 1"
      by (simp_all add: syncView_def)
    from held[OF m] syncView_endSyncLock[OF i, of w s']
    show "baseHz (lanes (endSyncLock cfg w s') i) = baseHz (lanes s i)"
      by (simp add: syncView_def)
    {
      assume "SYNC_BPM cfg \<noteq> 0"
      from one[OF this] held[OF m] show "effectiveHz (lanes s' i) = ?f"
        by (simp add: effectiveHz_def syncView_def max_def)
    }
    {
      assume "SYNC_BPM cfg = 120"
      with held[OF m] show "effectiveHz (lanes s' i) = 2"
        by (simp add: effectiveHz_def syncView_def)
    }
  next
    assume "mode s' \<noteq> MODE_SYNC_LOCK"
    from rel[OF this] show "mode s' = MODE_NORMAL" and "baseHz (lanes s' i) = baseHz (lanes s i)"
      by simp_all
  qed
qed

theorem sync_lock_round_trip_witness:
  "\<not> sint (millis lateTape boot - lastSyncEnd boot) < sint (SYNC_COOLDOWN_MS sketch_config)
   \<and> lockRun sketch_config lateTape (startSyncLock sketch_config lateTape boot)
        (startSyncLock sketch_config lateTape boot)
   \<and> laneB < NLANES sketch_config
   \<and> mode (startSyncLock sketch_config lateTape boot) = MODE_SYNC_LOCK
   \<and> effectiveHz (lanes (startSyncLock sketch_config lateTape boot) laneB) = 2
   \<and> baseHz (lanes (endSyncLock sketch_config lateTape
                       (startSyncLock sketch_config lateTape boot)) laneB) = BASE_HZ_B"
proof -
  have g: "\<not> sint (millis lateTape boot - lastSyncEnd boot) < sint (SYNC_COOLDOWN_MS sketch_config)"
    by (simp add: millis_def lateTape_def boot_def sketch_config_def)
  have r: "lockRun sketch_config lateTape (startSyncLock sketch_config lateTape boot)
        (startSyncLock sketch_config lateTape boot)"
    by (rule lockRun.locked)
  have i: "laneB < NLANES sketch_config" by (simp add: laneB_def sketch_config_def)
  have b: "baseHz (lanes boot laneB) = BASE_HZ_B" "SYNC_BPM sketch_config = 120"
    by (simp_all add: boot_def bootLanes_def newLane_def laneA_def laneB_def sketch_config_def)
  from sync_lock_round_trip[OF g r i] g r i b mode_startSyncLock[OF g]
  show ?thesis by simp
qed

subsection \<open>The mode register\<close>

lemma mode_forLanes [simp]:
  "(\<And>i s. mode (body i s) = mode s) \<Longrightarrow> mode (forLanes cfg body s) = mode s"
  by (rule forLanes_frame)

lemma mode_fold [simp]:
  "(\<And>i s. mode (body i s) = mode s) \<Longrightarrow> mode (fold body xs s) = mode s"
  by (rule fold_frame)

lemma mode_ends:
  "mode (endBeat cfg w s) = MODE_NORMAL"
  "mode (endSyncLock cfg w s) = MODE_NORMAL"
  "mode (endLongPause cfg w s) = MODE_NORMAL"
  "mode (endStaggerBlackout cfg w s) = MODE_NORMAL"
  by (simp_all add: endBeat_def endSyncLock_def endLongPause_def endStaggerBlackout_def Let_def)

lemma mode_handles_end:
  "0 \<le> sint (now - rampEnd s) \<Longrightarrow> mode (handleAccelerando cfg now s) = MODE_NORMAL"
  "0 \<le> sint (now - rampEnd s) \<Longrightarrow> mode (handleDecelerando cfg now s) = MODE_NORMAL"
  "0 \<le> sint (now - cbEnd s) \<Longrightarrow> mode (handleCounterbalance cfg now s) = MODE_NORMAL"
  "0 \<le> sint (now - stormEnd s) \<Longrightarrow> mode (handleEmailStorm cfg w now s) = MODE_NORMAL"
  "0 \<le> sint (now - scopeEnd s) \<Longrightarrow> mode (handleScopeCreep cfg now s) = MODE_NORMAL"
  "0 \<le> sint (now - snapEnd s) \<Longrightarrow> mode (handlePhaseSnap now s) = MODE_NORMAL"
  by (simp_all add: handleAccelerando_def handleDecelerando_def handleCounterbalance_def
      handleEmailStorm_def handleScopeCreep_def handlePhaseSnap_def Let_def
      forLanes_frame[where g=rampEnd] forLanes_frame[where g=cbEnd]
      forLanes_frame[where g=scopeEnd] setLane_def)

lemma mode_handles:
  "mode (handleAccelerando cfg now s) = mode s \<or> mode (handleAccelerando cfg now s) = MODE_NORMAL"
  "mode (handleDecelerando cfg now s) = mode s \<or> mode (handleDecelerando cfg now s) = MODE_NORMAL"
  "mode (handleCounterbalance cfg now s) = mode s \<or> mode (handleCounterbalance cfg now s) = MODE_NORMAL"
  "mode (handleEmailStorm cfg w now s) = mode s \<or> mode (handleEmailStorm cfg w now s) = MODE_NORMAL"
  "mode (handleScopeCreep cfg now s) = mode s \<or> mode (handleScopeCreep cfg now s) = MODE_NORMAL"
  "mode (handlePhaseSnap now s) = mode s \<or> mode (handlePhaseSnap now s) = MODE_NORMAL"
  by (simp_all add: handleAccelerando_def handleDecelerando_def handleCounterbalance_def
      handleEmailStorm_def handleScopeCreep_def handlePhaseSnap_def Let_def
      split: option.splits prod.splits)

lemma mode_if: "mode (if c then a else b) = (if c then mode a else mode b)"
  by simp

lemma mode_handleBeat:
  "mode (handleBeat cfg w now s) = mode s \<or> mode (handleBeat cfg w now s) = MODE_NORMAL"
proof (cases "pat (beat s)")
  case None
  then show ?thesis by (simp add: handleBeat_def)
next
  case (Some p)
  show ?thesis
  proof (cases "sint (now - nextStepAt (beat s)) < 0")
    case True
    with Some show ?thesis by (simp add: handleBeat_def)
  next
    case False
    have "mode (handleBeat cfg w now s) = mode s \<or> mode (handleBeat cfg w now s) = MODE_NORMAL"
      using Some False
      by (simp add: handleBeat_def Let_def mode_if mode_ends split del: if_split cong: if_cong)
         (simp split: if_splits)
    then show ?thesis .
  qed
qed

lemma mode_handleMode:
  "mode (handleMode cfg w now s) = mode s \<or> mode (handleMode cfg w now s) = MODE_NORMAL"
proof (cases "mode s")
  case MODE_NORMAL
  then show ?thesis by (simp add: handleMode_def mode_ends)
next
  case MODE_BEAT
  with mode_handleBeat[of cfg w now s] show ?thesis by (simp add: handleMode_def)
next
  case MODE_SYNC_LOCK
  then show ?thesis by (simp add: handleMode_def mode_ends)
next
  case MODE_LONG_PAUSE
  then show ?thesis by (simp add: handleMode_def mode_ends)
next
  case MODE_STAGGER_BLACKOUT
  then show ?thesis by (simp add: handleMode_def mode_ends)
next
  case MODE_ACCEL
  with mode_handles(1)[of cfg now s] show ?thesis by (simp add: handleMode_def)
next
  case MODE_DECEL
  with mode_handles(2)[of cfg now s] show ?thesis by (simp add: handleMode_def)
next
  case MODE_SCOPE_CREEP
  with mode_handles(5)[of cfg now s] show ?thesis by (simp add: handleMode_def)
next
  case MODE_PHASE_SNAP
  with mode_handles(6)[of now s] show ?thesis by (simp add: handleMode_def)
next
  case MODE_COUNTERBAL
  with mode_handles(3)[of cfg now s] show ?thesis by (simp add: handleMode_def)
next
  case MODE_EMAIL_STORM
  with mode_handles(4)[of cfg w now s] show ?thesis by (simp add: handleMode_def)
qed

lemma mode_liveness: "mode (liveness cfg w now s) = mode s"
  by (simp add: liveness_def Let_def)

lemma mode_laneSweep:
  assumes "laneSweep cfg w now is s = Some s'"
  shows "mode s' = mode s"
  by (rule laneSweep_inv[where Q="\<lambda>t. mode t = mode s", OF assms])
     (simp_all add: maybeCoilOff_def Let_def)

lemma considerEffect_busy: "mode s \<noteq> MODE_NORMAL \<Longrightarrow> considerEffect cfg w now s = Some s"
  by (simp add: considerEffect_def)

lemma mode_loop:
  assumes "loop cfg w s = Some s'" and "mode s \<noteq> MODE_NORMAL"
  shows "mode s' = mode s \<or> mode s' = MODE_NORMAL"
proof -
  from assms have "laneSweep cfg w (millis w s) (LANES cfg)
      (liveness cfg w (millis w s) (handleMode cfg w (millis w s) (clockRead s))) = Some s'"
    by (simp add: loop_def Let_def considerEffect_busy)
  from mode_laneSweep[OF this] mode_handleMode[of cfg w "millis w s" "clockRead s"]
  show ?thesis by (simp add: mode_liveness)
qed

lemma mode_setup0: "mode (setup0 cfg w) = MODE_NORMAL"
  by (simp add: setup0_def Let_def setupLane_def buildWeights_def boot_def)

lemma mode_reorgSwap: "mode (reorgSwap cfg w s) = mode s"
  by (simp add: reorgSwap_def Let_def)


lemma shift_fold:
  "lanes (fold (\<lambda>i s. setLane i ((lanes s i)\<lparr>baseHz := baseHz (lanes s (Suc i))\<rparr>) s) [k ..< n] s) j
     = (if k \<le> j \<and> j < n then (lanes s j)\<lparr>baseHz := baseHz (lanes s (Suc j))\<rparr> else lanes s j)"
proof (induction "n - k" arbitrary: k s)
  case 0
  then show ?case by simp
next
  case (Suc d)
  then have kn: "k < n" and d: "d = n - Suc k" by simp_all
  from Suc.hyps(1)[OF d] kn show ?case
    by (simp add: upt_conv_Cons)
qed

lemma shift_fold_clock:
  "clockReads (fold (\<lambda>i s. setLane i ((lanes s i)\<lparr>baseHz := baseHz (lanes s (Suc i))\<rparr>) s) xs s)
     = clockReads s"
  by (rule fold_frame) simp

lemma resched_fold:
  "lanes (fold (\<lambda>i s. clockRead (setLane i
             ((lanes s i)\<lparr>nextDue := millis w s + periodMs (lanes s i)\<rparr>) s)) [k ..< n] s) j
     = (if k \<le> j \<and> j < n
        then (lanes s j)\<lparr>nextDue := millisTape w (clockReads s + (j - k)) + periodMs (lanes s j)\<rparr>
        else lanes s j)"
proof (induction "n - k" arbitrary: k s)
  case 0
  then show ?case by auto
next
  case (Suc d)
  let ?body = "\<lambda>i s. clockRead (setLane i
             ((lanes s i)\<lparr>nextDue := millis w s + periodMs (lanes s i)\<rparr>) s)"
  let ?s1 = "?body k s"
  from Suc have kn: "k < n" and d: "d = n - Suc k" by simp_all
  have e: "[k ..< n] = k # [Suc k ..< n]" using kn by (rule upt_conv_Cons)
  have "lanes (fold ?body [k ..< n] s) j = lanes (fold ?body [Suc k ..< n] ?s1) j"
    unfolding e by simp
  also have "\<dots> = (if Suc k \<le> j \<and> j < n
        then (lanes ?s1 j)\<lparr>nextDue := millisTape w (clockReads ?s1 + (j - Suc k))
                                         + periodMs (lanes ?s1 j)\<rparr>
        else lanes ?s1 j)"
    by (rule Suc.hyps(1)[OF d])
  also have "\<dots> = (if k \<le> j \<and> j < n
        then (lanes s j)\<lparr>nextDue := millisTape w (clockReads s + (j - k)) + periodMs (lanes s j)\<rparr>
        else lanes s j)"
  proof (cases "j = k")
    case True
    with kn show ?thesis by (simp add: millis_def)
  next
    case False
    then have "Suc k \<le> j \<Longrightarrow> Suc (clockReads s) + (j - Suc k) = clockReads s + (j - k)"
      by arith
    with False show ?thesis by auto
  qed
  finally show ?case .
qed

lemma lanes_reorgSwap:
  assumes "2 \<le> NLANES cfg" and "i < NLANES cfg"
  shows "lanes (reorgSwap cfg w s) i
     = (lanes s i)\<lparr>baseHz := baseHz (lanes s (Suc i mod NLANES cfg)),
          nextDue := millisTape w (clockReads s + i)
             + periodMs ((lanes s i)\<lparr>baseHz := baseHz (lanes s (Suc i mod NLANES cfg))\<rparr>)\<rparr>"
proof (cases "i = NLANES cfg - 1")
  case True
  with assms show ?thesis
    by (simp add: reorgSwap_def Let_def forLanes_def LANES_def resched_fold shift_fold
        shift_fold_clock)
next
  case False
  with assms have "Suc i < NLANES cfg" by simp
  with assms show ?thesis
    by (simp add: reorgSwap_def Let_def forLanes_def LANES_def resched_fold shift_fold
        shift_fold_clock)
qed

lemma reorgSwap_few: "NLANES cfg < 2 \<Longrightarrow> reorgSwap cfg w s = s"
  by (simp add: reorgSwap_def)

text \<open>
  Claim C2.  The mode register holds one \<open>Mode\<close> value, so at most one effect is
  active at any tick.  It is Normal after \<open>setup()\<close>; the end path of every effect
  sets it back to Normal; while an effect is active, \<open>loop()\<close> starts no other
  effect, and the mode after the tick is the same effect or Normal.  \<open>reorgSwap\<close>
  never writes the mode register: with at least two lanes it rotates the \<open>baseHz\<close>
  values by one position (lane \<open>i\<close> takes the value of lane \<open>i + 1\<close>, the last lane
  that of lane 0) and sets every lane's \<open>nextDue\<close> to the time it reads plus the
  lane's new period; with fewer than two lanes it does nothing.
\<close>

theorem mode_register:
  "mode (setup0 cfg w) = MODE_NORMAL
   \<and> mode (endBeat cfg w s) = MODE_NORMAL
   \<and> mode (endSyncLock cfg w s) = MODE_NORMAL
   \<and> mode (endLongPause cfg w s) = MODE_NORMAL
   \<and> mode (endStaggerBlackout cfg w s) = MODE_NORMAL
   \<and> (0 \<le> sint (now - rampEnd s) \<longrightarrow>
         mode (handleAccelerando cfg now s) = MODE_NORMAL
         \<and> mode (handleDecelerando cfg now s) = MODE_NORMAL)
   \<and> (0 \<le> sint (now - cbEnd s) \<longrightarrow> mode (handleCounterbalance cfg now s) = MODE_NORMAL)
   \<and> (0 \<le> sint (now - stormEnd s) \<longrightarrow> mode (handleEmailStorm cfg w now s) = MODE_NORMAL)
   \<and> (0 \<le> sint (now - scopeEnd s) \<longrightarrow> mode (handleScopeCreep cfg now s) = MODE_NORMAL)
   \<and> (0 \<le> sint (now - snapEnd s) \<longrightarrow> mode (handlePhaseSnap now s) = MODE_NORMAL)
   \<and> (mode s \<noteq> MODE_NORMAL \<longrightarrow> considerEffect cfg w now s = Some s)
   \<and> (\<forall>s'. loop cfg w s = Some s' \<and> mode s \<noteq> MODE_NORMAL
          \<longrightarrow> mode s' = mode s \<or> mode s' = MODE_NORMAL)
   \<and> mode (reorgSwap cfg w s) = mode s
   \<and> (2 \<le> NLANES cfg \<longrightarrow>
        (\<forall>i < NLANES cfg.
            baseHz (lanes (reorgSwap cfg w s) i) = baseHz (lanes s (Suc i mod NLANES cfg))
          \<and> nextDue (lanes (reorgSwap cfg w s) i)
              = millisTape w (clockReads s + i) + periodMs (lanes (reorgSwap cfg w s) i)))
   \<and> (NLANES cfg < 2 \<longrightarrow> reorgSwap cfg w s = s)"
proof -
  have a: "\<forall>s'. loop cfg w s = Some s' \<and> mode s \<noteq> MODE_NORMAL
          \<longrightarrow> mode s' = mode s \<or> mode s' = MODE_NORMAL"
    using mode_loop by blast
  have b: "2 \<le> NLANES cfg \<longrightarrow>
        (\<forall>i < NLANES cfg.
            baseHz (lanes (reorgSwap cfg w s) i) = baseHz (lanes s (Suc i mod NLANES cfg))
          \<and> nextDue (lanes (reorgSwap cfg w s) i)
              = millisTape w (clockReads s + i) + periodMs (lanes (reorgSwap cfg w s) i))"
    by (simp add: lanes_reorgSwap periodMs_def)
  show ?thesis
    by (intro conjI a b impI mode_setup0 mode_ends mode_handles_end mode_reorgSwap
        considerEffect_busy reorgSwap_few)
qed


theorem mode_register_witness:
  "mode (setup0 sketch_config tape0) = MODE_NORMAL
   \<and> 0 \<le> sint (0 - rampEnd boot)
   \<and> mode (handleAccelerando sketch_config 0 boot) = MODE_NORMAL
   \<and> mode (boot\<lparr>mode := MODE_BEAT\<rparr>) \<noteq> MODE_NORMAL
   \<and> considerEffect sketch_config tape0 0 (boot\<lparr>mode := MODE_BEAT\<rparr>)
       = Some (boot\<lparr>mode := MODE_BEAT\<rparr>)
   \<and> 2 \<le> NLANES sketch_config
   \<and> mode (reorgSwap sketch_config tape0 boot) = MODE_NORMAL
   \<and> map (\<lambda>i. baseHz (lanes (reorgSwap sketch_config tape0 boot) i)) [0, 1, 2, 3]
       = [BASE_HZ_B, BASE_HZ_C, BASE_HZ_D, BASE_HZ_A]
   \<and> nextDue (lanes (reorgSwap sketch_config tape0 boot) 0) = 1020"
proof -
  have n: "NLANES sketch_config = 4" by (simp add: sketch_config_def)
  have r: "rampEnd boot = 0" "mode boot = MODE_NORMAL"
    by (simp_all add: boot_def)
  have b: "baseHz (lanes boot 0) = BASE_HZ_A" "baseHz (lanes boot (Suc 0)) = BASE_HZ_B"
    "baseHz (lanes boot (Suc (Suc 0))) = BASE_HZ_C" "baseHz (lanes boot 3) = BASE_HZ_D"
    "nudgeMul (lanes boot 0) = 1" "clockReads boot = 0" "millisTape tape0 0 = 0"
    by (simp_all add: boot_def bootLanes_def newLane_def laneA_def laneB_def laneC_def laneD_def
        tape0_def)
  have p: "periodMs (lanes (reorgSwap sketch_config tape0 boot) 0) = 1020"
    using lanes_reorgSwap[of sketch_config 0 tape0 boot]
    by (simp add: n b periodMs_def BASE_HZ_B_def round_def)
  note m = mode_register[of sketch_config tape0 boot 0]
  note m' = mode_register[of sketch_config tape0 "boot\<lparr>mode := MODE_BEAT\<rparr>" 0]
  from m have m1: "mode (setup0 sketch_config tape0) = MODE_NORMAL" by simp
  from m r have m2: "mode (handleAccelerando sketch_config 0 boot) = MODE_NORMAL" by simp
  from m' have m3: "considerEffect sketch_config tape0 0 (boot\<lparr>mode := MODE_BEAT\<rparr>)
       = Some (boot\<lparr>mode := MODE_BEAT\<rparr>)" by simp
  from m r have m4: "mode (reorgSwap sketch_config tape0 boot) = MODE_NORMAL" by simp
  from m n have rot: "i < 4 \<Longrightarrow>
      baseHz (lanes (reorgSwap sketch_config tape0 boot) i) = baseHz (lanes boot (Suc i mod 4))
      \<and> nextDue (lanes (reorgSwap sketch_config tape0 boot) i)
          = millisTape tape0 (clockReads boot + i)
             + periodMs (lanes (reorgSwap sketch_config tape0 boot) i)" for i
    by simp
  from rot[of 0] rot[of 1] rot[of 2] rot[of 3] m1 m2 m3 m4
  show ?thesis
    by (simp add: n r b p)
qed

subsection \<open>Stagger blackout: the lanes while it lasts and at its end\<close>

lemma more_fields:
  "lastTry (clockRead s) = lastTry s" "lastAnyPulseAt (clockRead s) = lastAnyPulseAt s"
  "modeEndsAt (clockRead s) = modeEndsAt s"
  "lastTry (randomRead s) = lastTry s" "lastAnyPulseAt (randomRead s) = lastAnyPulseAt s"
  "modeEndsAt (randomRead s) = modeEndsAt s"
  "lastTry (setLane i L s) = lastTry s" "lastAnyPulseAt (setLane i L s) = lastAnyPulseAt s"
  "modeEndsAt (setLane i L s) = modeEndsAt s"
  by (simp_all add: clockRead_def randomRead_def setLane_def)

lemma setLane_same: "setLane i (lanes s i) s = s"
  by (simp add: setLane_def)

lemma laneTick_stopped:
  assumes "\<not> running (lanes s i)" "burstRemain (lanes s i) = 0"
  shows "\<exists>L. laneTick cfg w now i s = Some (setLane i L s)
            \<and> \<not> running L \<and> burstRemain L = 0"
proof -
  let ?s1 = "maybeCoilOff i now s"
  let ?s2 = "if nudgeUntil (lanes ?s1 i) \<noteq> 0 \<and> 0 \<le> sint (now - nudgeUntil (lanes ?s1 i))
             then setLane i ((lanes ?s1 i)\<lparr>nudgeMul := 1, nudgeUntil := 0\<rparr>) ?s1 else ?s1"
  have "\<exists>L1. ?s1 = setLane i L1 s \<and> \<not> running L1 \<and> burstRemain L1 = 0"
  proof (cases "coilOffAt (lanes s i) \<noteq> 0 \<and> 0 \<le> sint (now - coilOffAt (lanes s i))")
    case True
    then show ?thesis
      using assms by (intro exI[of _ "(lanes s i)\<lparr>coilOffAt := 0\<rparr>"]) (simp add: maybeCoilOff_def Let_def)
  next
    case False
    then show ?thesis
      using assms by (intro exI[of _ "lanes s i"]) (auto simp: maybeCoilOff_def setLane_same Let_def)
  qed
  then obtain L1 where s1: "?s1 = setLane i L1 s" "\<not> running L1" "burstRemain L1 = 0"
    by blast
  have "\<exists>L2. ?s2 = setLane i L2 s \<and> \<not> running L2 \<and> burstRemain L2 = 0"
  proof (cases "nudgeUntil (lanes ?s1 i) \<noteq> 0 \<and> 0 \<le> sint (now - nudgeUntil (lanes ?s1 i))")
    case True
    then show ?thesis
      using s1 by (intro exI[of _ "L1\<lparr>nudgeMul := 1, nudgeUntil := 0\<rparr>"]) (simp add: setLane_def)
  next
    case False
    then show ?thesis
      using s1 by (intro exI[of _ L1]) auto
  qed
  then obtain L2 where s2: "?s2 = setLane i L2 s" "\<not> running L2" "burstRemain L2 = 0"
    by blast
  show ?thesis
    unfolding laneTick_def Let_def s2(1) using s2(2,3)
    by (auto simp: setLane_def)
qed

lemma laneSweep_stopped:
  assumes "\<forall>i \<in> set js. \<not> running (lanes s i) \<and> burstRemain (lanes s i) = 0"
  shows "\<exists>f. laneSweep cfg w now js s = Some (s\<lparr>lanes := f\<rparr>)
            \<and> (\<forall>j. \<not> running (lanes s j) \<and> burstRemain (lanes s j) = 0
                    \<longrightarrow> \<not> running (f j) \<and> burstRemain (f j) = 0)"
  using assms
proof (induction js arbitrary: s)
  case Nil
  have "s\<lparr>lanes := lanes s\<rparr> = s" by simp
  then show ?case by (intro exI[of _ "lanes s"]) simp
next
  case (Cons i js)
  from Cons.prems obtain L where L: "laneTick cfg w now i s = Some (setLane i L s)"
    "\<not> running L" "burstRemain L = 0"
    using laneTick_stopped[of s i cfg w now] by auto
  let ?s1 = "setLane i L s"
  have "\<forall>j \<in> set js. \<not> running (lanes ?s1 j) \<and> burstRemain (lanes ?s1 j) = 0"
    using Cons.prems L by simp
  from Cons.IH[OF this] obtain f where f: "laneSweep cfg w now js ?s1 = Some (?s1\<lparr>lanes := f\<rparr>)"
    "\<forall>j. \<not> running (lanes ?s1 j) \<and> burstRemain (lanes ?s1 j) = 0
                    \<longrightarrow> \<not> running (f j) \<and> burstRemain (f j) = 0"
    by blast
  have e: "?s1\<lparr>lanes := f\<rparr> = s\<lparr>lanes := f\<rparr>" by (simp add: setLane_def)
  show ?case
    using L f by (intro exI[of _ f]) (simp add: e)
qed

lemma blackout_tick:
  assumes b: "blackout cfg s" and t: "sint (millis w s - modeEndsAt s) < 0"
  shows "\<exists>s'. loop cfg w s = Some s' \<and> blackout cfg s' \<and> pulses s' = pulses s
            \<and> modeEndsAt s' = modeEndsAt s \<and> clockReads s' = Suc (clockReads s)"
proof -
  let ?now = "millis w s"
  let ?s1 = "clockRead s"
  have m: "mode ?s1 = MODE_STAGGER_BLACKOUT" using b by (simp add: blackout_def)
  have me: "modeEndsAt ?s1 = modeEndsAt s" by (simp add: clockRead_def)
  have c: "considerEffect cfg w ?now ?s1 = Some ?s1"
    using m by (simp add: considerEffect_def del: clockRead_fields)
  have h: "handleMode cfg w ?now ?s1 = ?s1"
    using m t me by (simp add: handleMode_def del: clockRead_fields)
  have v: "liveness cfg w ?now ?s1 = ?s1"
    using m by (simp add: liveness_def del: clockRead_fields)
  have st: "\<forall>i \<in> set (LANES cfg). \<not> running (lanes ?s1 i) \<and> burstRemain (lanes ?s1 i) = 0"
    using b by (simp add: blackout_def list_all_iff)
  from laneSweep_stopped[OF st, of cfg w ?now] obtain f where
    f: "laneSweep cfg w ?now (LANES cfg) ?s1 = Some (?s1\<lparr>lanes := f\<rparr>)"
    "\<forall>j. \<not> running (lanes ?s1 j) \<and> burstRemain (lanes ?s1 j) = 0
                    \<longrightarrow> \<not> running (f j) \<and> burstRemain (f j) = 0"
    by blast
  have l: "loop cfg w s = Some (?s1\<lparr>lanes := f\<rparr>)"
    by (simp add: loop_def Let_def c h v f(1) del: clockRead_fields)
  have "blackout cfg (?s1\<lparr>lanes := f\<rparr>)"
    using b f(2) by (simp add: blackout_def list_all_iff)
  then show ?thesis using l by (simp add: clockRead_def)
qed

lemma ticks_blackout:
  assumes "blackout cfg s"
    and "list_all (\<lambda>k. sint (millisTape w (clockReads s + k) - modeEndsAt s) < 0) [0 ..< n]"
  shows "\<exists>s'. ticks cfg w n s = Some s' \<and> blackout cfg s' \<and> pulses s' = pulses s
            \<and> modeEndsAt s' = modeEndsAt s \<and> clockReads s' = clockReads s + n"
  using assms
proof (induction n arbitrary: s)
  case 0
  then show ?case by simp
next
  case (Suc n)
  have a: "\<forall>k < Suc n. sint (millisTape w (clockReads s + k) - modeEndsAt s) < 0"
    using Suc.prems(2) by (auto simp: list_all_iff less_Suc_eq)
  from a have "sint (millis w s - modeEndsAt s) < 0"
    by (auto simp: millis_def dest: spec[of _ 0])
  from blackout_tick[OF Suc.prems(1) this] obtain s1 where
    s1: "loop cfg w s = Some s1" "blackout cfg s1" "pulses s1 = pulses s"
      "modeEndsAt s1 = modeEndsAt s" "clockReads s1 = Suc (clockReads s)"
    by blast
  have "list_all (\<lambda>k. sint (millisTape w (clockReads s1 + k) - modeEndsAt s1) < 0) [0 ..< n]"
    unfolding list_all_iff
  proof
    fix k assume "k \<in> set [0 ..< n]"
    then have "Suc k < Suc n" by simp
    with a have "sint (millisTape w (clockReads s + Suc k) - modeEndsAt s) < 0" by blast
    then show "sint (millisTape w (clockReads s1 + k) - modeEndsAt s1) < 0"
      by (simp add: s1)
  qed
  from Suc.IH[OF s1(2) this] s1 show ?case by simp
qed

lemma startStaggerBlackout_blackout: "blackout cfg (startStaggerBlackout cfg w s)"
  by (simp add: blackout_def startStaggerBlackout_def Let_def clearTransientsAll_eq list_all_iff
      LANES_def
      forLanes_setLane[where f="\<lambda>i L. L\<lparr>freezeUntil := X i, running := False\<rparr>" for X])

lemma startStaggerBlackout_ends:
  "modeEndsAt (startStaggerBlackout cfg w s)
     = millis w s + STAGGER_SILENCE_MS cfg
         + STAGGER_STOP_STEP_MS cfg * (word_of_nat (NLANES cfg) - 1)"
  "clockReads (startStaggerBlackout cfg w s) = Suc (clockReads s)"
  "pulses (startStaggerBlackout cfg w s) = pulses s"
  by (simp_all add: startStaggerBlackout_def Let_def clearTransientsAll_eq millis_def
      forLanes_setLane[where f="\<lambda>i L. L\<lparr>freezeUntil := X i, running := False\<rparr>" for X])

lemma modeEnds_longest:
  "0 < NLANES cfg \<Longrightarrow>
   modeEndsAt (startStaggerBlackout cfg w s) - millis w s = staggerFreeze cfg w s 0"
  by (simp add: startStaggerBlackout_ends staggerFreeze_eq of_nat_diff)

lemma endStagger_fold:
  "let t = fold (\<lambda>i s. randomRead (clockRead (setLane i
                 ((lanes s i)\<lparr>running := True,
                    nextDue := millis w s + periodMs (lanes s i)
                                 + rng 0 (100 + 20 * word_of_nat i) (esp_random w s)\<rparr>)
                 s))) [0 ..< n] s
   in clockReads t = clockReads s + n \<and> randomReads t = randomReads s + n
      \<and> mode t = mode s \<and> pulses t = pulses s
      \<and> lastTry t = lastTry s \<and> lastAnyPulseAt t = lastAnyPulseAt s
      \<and> lanes t = (\<lambda>j. if j < n
                then (lanes s j)\<lparr>running := True,
                       nextDue := millisTape w (clockReads s + j) + periodMs (lanes s j)
                          + rng 0 (100 + 20 * word_of_nat j) (randomTape w (randomReads s + j))\<rparr>
                else lanes s j)"
proof (induction n)
  case 0
  then show ?case by simp
next
  case (Suc n)
  then show ?case
    by (auto simp: Let_def fun_eq_iff millis_def esp_random_def more_fields)
qed

lemma endStaggerBlackout_lanes:
  "mode (endStaggerBlackout cfg w s) = MODE_NORMAL"
  "pulses (endStaggerBlackout cfg w s) = pulses s"
  "clockReads (endStaggerBlackout cfg w s) = clockReads s + NLANES cfg"
  "randomReads (endStaggerBlackout cfg w s) = randomReads s + NLANES cfg"
  "lastTry (endStaggerBlackout cfg w s) = lastTry s"
  "lastAnyPulseAt (endStaggerBlackout cfg w s) = lastAnyPulseAt s"
  "lanes (endStaggerBlackout cfg w s) = (\<lambda>j. if j < NLANES cfg
                then (lanes s j)\<lparr>running := True,
                       nextDue := millisTape w (clockReads s + j) + periodMs (lanes s j)
                          + rng 0 (100 + 20 * word_of_nat j) (randomTape w (randomReads s + j))\<rparr>
                else lanes s j)"
  using endStagger_fold[of w "NLANES cfg" s]
  by (simp_all add: endStaggerBlackout_def forLanes_def LANES_def Let_def)

lemma handleMode_blackout_end:
  "blackout cfg s \<Longrightarrow> 0 \<le> sint (now - modeEndsAt s)
     \<Longrightarrow> handleMode cfg w now s = endStaggerBlackout cfg w s"
  by (simp add: handleMode_def blackout_def)

lemma stagger_facts:
  "k < 6 \<Longrightarrow> millisTape staggerTape k = 0"
  "millisTape staggerTape 6 = 3500"
  "millisTape staggerTape 7 = 4900"
  "8 \<le> k \<Longrightarrow> k < 13 \<Longrightarrow> millisTape staggerTape k = 5600"
  "13 \<le> k \<Longrightarrow> millisTape staggerTape k = 6600"
  "randomTape staggerTape k = 505"
  "jitterOf sketch_config 505 = - 9"
  "NLANES sketch_config = 4"
  "JITTER_MS sketch_config = 10"
  "LANES sketch_config = [0, 1, 2, 3]"
  "STAGGER_SILENCE_MS sketch_config = 3500"
  "STAGGER_STOP_STEP_MS sketch_config = 700"
  by (simp_all add: staggerTape_def sketch_config_def jitterOf_def rng_def LANES_def upt_4)

lemma setup0_stagger:
  "mode (setup0 sketch_config staggerTape) = MODE_NORMAL"
  "lastTry (setup0 sketch_config staggerTape) = 0"
  "clockReads (setup0 sketch_config staggerTape) = 5"
  "randomReads (setup0 sketch_config staggerTape) = 5"
  "lastAnyPulseAt (setup0 sketch_config staggerTape) = 0"
  "pulses (setup0 sketch_config staggerTape) = []"
  "lanes (setup0 sketch_config staggerTape) 0 = (newLane BASE_HZ_A)\<lparr>nextDue := 4\<rparr>"
  "lanes (setup0 sketch_config staggerTape) (Suc 0) = (newLane BASE_HZ_B)\<lparr>nextDue := 4\<rparr>"
  "lanes (setup0 sketch_config staggerTape) 2 = (newLane BASE_HZ_C)\<lparr>nextDue := 4\<rparr>"
  "lanes (setup0 sketch_config staggerTape) 3 = (newLane BASE_HZ_D)\<lparr>nextDue := 4\<rparr>"
  by (simp_all add: setup0_def Let_def setupLane_def buildWeights_def boot_def millis_def
      esp_random_def staggerTape_def rng_def bootLanes_def laneA_def laneB_def laneC_def laneD_def
      newLane_def clockRead_def randomRead_def setLane_def)

lemma staggerStart_facts:
  "mode staggerStart = MODE_STAGGER_BLACKOUT"
  "modeEndsAt staggerStart = 5600"
  "lastTry staggerStart = 0"
  "clockReads staggerStart = 6"
  "randomReads staggerStart = 5"
  "lastAnyPulseAt staggerStart = 0"
  "pulses staggerStart = []"
  "lanes staggerStart 0 = (newLane BASE_HZ_A)\<lparr>nextDue := 4, running := False, freezeUntil := 5600\<rparr>"
  "lanes staggerStart (Suc 0) = (newLane BASE_HZ_B)\<lparr>nextDue := 4, running := False, freezeUntil := 4900\<rparr>"
  "lanes staggerStart 2 = (newLane BASE_HZ_C)\<lparr>nextDue := 4, running := False, freezeUntil := 4200\<rparr>"
  "lanes staggerStart 3 = (newLane BASE_HZ_D)\<lparr>nextDue := 4, running := False, freezeUntil := 3500\<rparr>"
  by (simp_all add: staggerStart_def startStaggerBlackout_def Let_def clearTransientsAll_eq millis_def
      forLanes_setLane[where f="\<lambda>i L. L\<lparr>freezeUntil := X i, running := False\<rparr>" for X]
      setup0_stagger stagger_facts newLane_def more_fields)

lemma laneTick_frozen:
  assumes "coilOffAt (lanes s i) = 0" "nudgeUntil (lanes s i) = 0"
    "freezeUntil (lanes s i) \<noteq> 0" "sint (now - freezeUntil (lanes s i)) < 0"
  shows "laneTick cfg w now i s = Some (setLane i ((lanes s i)\<lparr>nextDue := now + 10\<rparr>) s)"
  using assms by (simp add: laneTick_def maybeCoilOff_def Let_def)

lemma laneTick_rests:
  assumes "coilOffAt (lanes s i) = 0" "nudgeUntil (lanes s i) = 0" "burstRemain (lanes s i) = 0"
    "freezeUntil (lanes s i) = 0 \<or> 0 \<le> sint (now - freezeUntil (lanes s i))"
    "\<not> running (lanes s i) \<or> sint (now - nextDue (lanes s i)) < 0"
  shows "laneTick cfg w now i s = Some (setLane i ((lanes s i)\<lparr>freezeUntil := 0\<rparr>) s)"
proof -
  have e: "freezeUntil (lanes s i) = 0 \<Longrightarrow> setLane i ((lanes s i)\<lparr>freezeUntil := 0\<rparr>) s = s"
  proof -
    assume z: "freezeUntil (lanes s i) = 0"
    have "(lanes s i)\<lparr>freezeUntil := freezeUntil (lanes s i)\<rparr> = lanes s i" by simp
    with z have "(lanes s i)\<lparr>freezeUntil := 0\<rparr> = lanes s i" by simp
    then show ?thesis by (simp add: setLane_same)
  qed
  have d: "sint (now - nextDue (lanes t i)) < 0 \<Longrightarrow> dueLoop cfg w now i t = Some t" for t
    by (subst dueLoop.simps) simp
  show ?thesis
  proof (cases "freezeUntil (lanes s i) = 0")
    case True
    with assms e d[of s] show ?thesis
      by (auto simp: laneTick_def maybeCoilOff_def Let_def)
  next
    case False
    with assms d[of "setLane i ((lanes s i)\<lparr>freezeUntil := 0\<rparr>) s"] show ?thesis
      by (auto simp: laneTick_def maybeCoilOff_def Let_def)
  qed
qed

lemma stagger_trace:
  "\<exists>s1 s2 s3 s4.
       loop sketch_config staggerTape staggerStart = Some s1
     \<and> loop sketch_config staggerTape s1 = Some s2
     \<and> loop sketch_config staggerTape s2 = Some s3
     \<and> loop sketch_config staggerTape s3 = Some s4
     \<and> pulses s1 = [] \<and> freezeUntil (lanes s1 3) = 0 \<and> \<not> running (lanes s1 3)
     \<and> nextDue (lanes s1 3) = 4
     \<and> pulses s2 = [] \<and> mode s2 = MODE_STAGGER_BLACKOUT
     \<and> clockReads s2 = 8 \<and> randomReads s2 = 5
     \<and> periodMs (lanes s2 3) = 990
     \<and> pulses s3 = [] \<and> mode s3 = MODE_NORMAL
     \<and> map (\<lambda>i. running (lanes s3 i)) [0, 1, 2, 3] = [True, True, True, True]
     \<and> map (\<lambda>i. nextDue (lanes s3 i)) [0, 1, 2, 3] = [6600, 6641, 6662, 6612]
     \<and> pulses s4 = [(0, 6600)]"
proof -
  note cr = clockRead_fields randomRead_fields
  \<comment> \<open>first tick, at 3500\<close>
  let ?c = "clockRead staggerStart"
  have now: "millis staggerTape staggerStart = 3500"
    by (simp add: millis_def staggerStart_facts stagger_facts)
  have m: "mode ?c = MODE_STAGGER_BLACKOUT" "modeEndsAt ?c = 5600"
    by (simp_all add: staggerStart_facts more_fields)
  have c: "considerEffect sketch_config staggerTape 3500 ?c = Some ?c"
    by (rule considerEffect_busy) (simp add: staggerStart_facts)
  have h: "handleMode sketch_config staggerTape 3500 ?c = ?c"
    by (simp add: handleMode_def m del: cr)
  have v: "liveness sketch_config staggerTape 3500 ?c = ?c"
    by (simp add: liveness_def m del: cr)
  have l: "loop sketch_config staggerTape staggerStart
       = laneSweep sketch_config staggerTape 3500 [0, 1, 2, 3] ?c"
    by (simp add: loop_def Let_def now c h v stagger_facts del: cr)
  have "\<exists>s1. loop sketch_config staggerTape staggerStart = Some s1
     \<and> mode s1 = MODE_STAGGER_BLACKOUT \<and> modeEndsAt s1 = 5600 \<and> lastTry s1 = 0
     \<and> clockReads s1 = 7 \<and> randomReads s1 = 5 \<and> lastAnyPulseAt s1 = 0 \<and> pulses s1 = []
     \<and> lanes s1 0 = (newLane BASE_HZ_A)\<lparr>nextDue := 3510, running := False, freezeUntil := 5600\<rparr>
     \<and> lanes s1 (Suc 0) = (newLane BASE_HZ_B)\<lparr>nextDue := 3510, running := False, freezeUntil := 4900\<rparr>
     \<and> lanes s1 2 = (newLane BASE_HZ_C)\<lparr>nextDue := 3510, running := False, freezeUntil := 4200\<rparr>
     \<and> lanes s1 3 = (newLane BASE_HZ_D)\<lparr>nextDue := 4, running := False\<rparr>"
    unfolding l
    by (simp add: laneTick_frozen laneTick_rests staggerStart_facts newLane_def more_fields)
  then obtain s1 where s1: "loop sketch_config staggerTape staggerStart = Some s1"
     "mode s1 = MODE_STAGGER_BLACKOUT" "modeEndsAt s1 = 5600" "lastTry s1 = 0"
     "clockReads s1 = 7" "randomReads s1 = 5" "lastAnyPulseAt s1 = 0" "pulses s1 = []"
     "lanes s1 0 = (newLane BASE_HZ_A)\<lparr>nextDue := 3510, running := False, freezeUntil := 5600\<rparr>"
     "lanes s1 (Suc 0) = (newLane BASE_HZ_B)\<lparr>nextDue := 3510, running := False, freezeUntil := 4900\<rparr>"
     "lanes s1 2 = (newLane BASE_HZ_C)\<lparr>nextDue := 3510, running := False, freezeUntil := 4200\<rparr>"
     "lanes s1 3 = (newLane BASE_HZ_D)\<lparr>nextDue := 4, running := False\<rparr>"
    by blast
  \<comment> \<open>second tick, at 4900\<close>
  let ?c = "clockRead s1"
  have now: "millis staggerTape s1 = 4900"
    by (simp add: millis_def s1 stagger_facts)
  have m: "mode ?c = MODE_STAGGER_BLACKOUT" "modeEndsAt ?c = 5600"
    by (simp_all add: s1 more_fields)
  have c: "considerEffect sketch_config staggerTape 4900 ?c = Some ?c"
    by (rule considerEffect_busy) (simp add: s1)
  have h: "handleMode sketch_config staggerTape 4900 ?c = ?c"
    by (simp add: handleMode_def m del: cr)
  have v: "liveness sketch_config staggerTape 4900 ?c = ?c"
    by (simp add: liveness_def m del: cr)
  have l: "loop sketch_config staggerTape s1
       = laneSweep sketch_config staggerTape 4900 [0, 1, 2, 3] ?c"
    by (simp add: loop_def Let_def now c h v stagger_facts del: cr)
  have "\<exists>s2. loop sketch_config staggerTape s1 = Some s2
     \<and> mode s2 = MODE_STAGGER_BLACKOUT \<and> modeEndsAt s2 = 5600 \<and> lastTry s2 = 0
     \<and> clockReads s2 = 8 \<and> randomReads s2 = 5 \<and> lastAnyPulseAt s2 = 0 \<and> pulses s2 = []
     \<and> lanes s2 0 = (newLane BASE_HZ_A)\<lparr>nextDue := 4910, running := False, freezeUntil := 5600\<rparr>
     \<and> lanes s2 (Suc 0) = (newLane BASE_HZ_B)\<lparr>nextDue := 3510, running := False\<rparr>
     \<and> lanes s2 2 = (newLane BASE_HZ_C)\<lparr>nextDue := 3510, running := False\<rparr>
     \<and> lanes s2 3 = (newLane BASE_HZ_D)\<lparr>nextDue := 4, running := False\<rparr>"
    unfolding l
    by (simp add: laneTick_frozen laneTick_rests s1 newLane_def more_fields)
  then obtain s2 where s2: "loop sketch_config staggerTape s1 = Some s2"
     "mode s2 = MODE_STAGGER_BLACKOUT" "modeEndsAt s2 = 5600" "lastTry s2 = 0"
     "clockReads s2 = 8" "randomReads s2 = 5" "lastAnyPulseAt s2 = 0" "pulses s2 = []"
     "lanes s2 0 = (newLane BASE_HZ_A)\<lparr>nextDue := 4910, running := False, freezeUntil := 5600\<rparr>"
     "lanes s2 (Suc 0) = (newLane BASE_HZ_B)\<lparr>nextDue := 3510, running := False\<rparr>"
     "lanes s2 2 = (newLane BASE_HZ_C)\<lparr>nextDue := 3510, running := False\<rparr>"
     "lanes s2 3 = (newLane BASE_HZ_D)\<lparr>nextDue := 4, running := False\<rparr>"
    by blast
  \<comment> \<open>third tick, at 5600: the blackout ends\<close>
  let ?c = "clockRead s2"
  let ?e = "endStaggerBlackout sketch_config staggerTape ?c"
  have now: "millis staggerTape s2 = 5600"
    by (simp add: millis_def s2 stagger_facts)
  have m: "mode ?c = MODE_STAGGER_BLACKOUT" "modeEndsAt ?c = 5600"
    by (simp_all add: s2 more_fields)
  have c: "considerEffect sketch_config staggerTape 5600 ?c = Some ?c"
    by (rule considerEffect_busy) (simp add: s2)
  have h: "handleMode sketch_config staggerTape 5600 ?c = ?e"
    by (simp add: handleMode_def m del: cr)
  have e: "mode ?e = MODE_NORMAL" "pulses ?e = []" "clockReads ?e = 13" "randomReads ?e = 9"
    "lastTry ?e = 0" "lastAnyPulseAt ?e = 0"
    "lanes ?e 0 = (newLane BASE_HZ_A)\<lparr>nextDue := 6600, freezeUntil := 5600\<rparr>"
    "lanes ?e (Suc 0) = (newLane BASE_HZ_B)\<lparr>nextDue := 6641\<rparr>"
    "lanes ?e 2 = (newLane BASE_HZ_C)\<lparr>nextDue := 6662\<rparr>"
    "lanes ?e 3 = (newLane BASE_HZ_D)\<lparr>nextDue := 6612\<rparr>"
    by (simp_all add: endStaggerBlackout_lanes s2 stagger_facts more_fields newLane_def
        periodMs_def rng_def BASE_HZ_A_def BASE_HZ_B_def BASE_HZ_C_def BASE_HZ_D_def round_def)
  have v: "liveness sketch_config staggerTape 5600 ?e = ?e"
    by (simp add: liveness_def e LIVENESS_WARN_MS_def)
  have l: "loop sketch_config staggerTape s2
       = laneSweep sketch_config staggerTape 5600 [0, 1, 2, 3] ?e"
    by (simp add: loop_def Let_def now c h v stagger_facts del: cr)
  have "\<exists>s3. loop sketch_config staggerTape s2 = Some s3
     \<and> mode s3 = MODE_NORMAL \<and> lastTry s3 = 0
     \<and> clockReads s3 = 13 \<and> randomReads s3 = 9 \<and> lastAnyPulseAt s3 = 0 \<and> pulses s3 = []
     \<and> lanes s3 0 = (newLane BASE_HZ_A)\<lparr>nextDue := 6600\<rparr>
     \<and> lanes s3 (Suc 0) = (newLane BASE_HZ_B)\<lparr>nextDue := 6641\<rparr>
     \<and> lanes s3 2 = (newLane BASE_HZ_C)\<lparr>nextDue := 6662\<rparr>
     \<and> lanes s3 3 = (newLane BASE_HZ_D)\<lparr>nextDue := 6612\<rparr>"
    unfolding l
    by (simp add: laneTick_rests e newLane_def more_fields)
  then obtain s3 where s3: "loop sketch_config staggerTape s2 = Some s3"
     "mode s3 = MODE_NORMAL" "lastTry s3 = 0"
     "clockReads s3 = 13" "randomReads s3 = 9" "lastAnyPulseAt s3 = 0" "pulses s3 = []"
     "lanes s3 0 = (newLane BASE_HZ_A)\<lparr>nextDue := 6600\<rparr>"
     "lanes s3 (Suc 0) = (newLane BASE_HZ_B)\<lparr>nextDue := 6641\<rparr>"
     "lanes s3 2 = (newLane BASE_HZ_C)\<lparr>nextDue := 6662\<rparr>"
     "lanes s3 3 = (newLane BASE_HZ_D)\<lparr>nextDue := 6612\<rparr>"
    by blast
  \<comment> \<open>fourth tick, at 6600: lane 0 is due\<close>
  let ?c = "clockRead s3"
  let ?d = "randomRead (randomRead (?c\<lparr>lastTry := 6600 + GLITCH_CHECK_MS + rng (- 500) 500 505\<rparr>))"
  have now: "millis staggerTape s3 = 6600"
    by (simp add: millis_def s3 stagger_facts)
  have c: "considerEffect sketch_config staggerTape 6600 ?c = Some ?d"
    by (simp add: considerEffect_def Let_def s3 esp_random_def stagger_facts more_fields
        random_range_def GLITCH_PROB_def trunc_int_def clockRead_def randomRead_def)
  have d: "lanes ?d = lanes s3" "pulses ?d = []" "clockReads ?d = 14" "randomReads ?d = 11"
    "mode ?d = MODE_NORMAL" "lastAnyPulseAt ?d = 0"
    by (simp_all add: s3 clockRead_def randomRead_def)
  have h: "handleMode sketch_config staggerTape 6600 ?d = ?d"
    by (simp add: handleMode_def d del: cr)
  have v: "liveness sketch_config staggerTape 6600 ?d = ?d"
    by (simp add: liveness_def d LIVENESS_WARN_MS_def del: cr)
  have l: "loop sketch_config staggerTape s3
       = laneSweep sketch_config staggerTape 6600 [0, 1, 2, 3] ?d"
    by (simp add: loop_def Let_def now c h v stagger_facts del: cr)
  obtain t0 where t0: "laneTick sketch_config staggerTape 6600 0 ?d = Some t0"
    "pulses t0 = [(0, 6600)]"
    "\<forall>j. j \<noteq> 0 \<longrightarrow> lanes t0 j = lanes s3 j"
    using laneTick_fires[of ?d 0 6600 staggerTape sketch_config]
    by (auto simp: d s3 newLane_def millis_def esp_random_def stagger_facts periodMs_def
        BASE_HZ_A_def round_def simp del: cr)
  have "\<exists>s4. laneSweep sketch_config staggerTape 6600 [0, 1, 2, 3] ?d = Some s4
           \<and> pulses s4 = [(0, 6600)]"
    by (simp add: t0 laneTick_rests s3 newLane_def del: cr)
  then obtain s4 where s4: "loop sketch_config staggerTape s3 = Some s4" "pulses s4 = [(0, 6600)]"
    unfolding l by blast
  have p: "periodMs (lanes s2 3) = 990"
    by (simp add: s2 periodMs_def newLane_def BASE_HZ_D_def round_def)
  show ?thesis
    using s1(1,8,12) s2(1,2,5,6,8) s3(1,2,7-11) s4 p
    by (intro exI[of _ s1] exI[of _ s2] exI[of _ s3] exI[of _ s4]) (simp add: newLane_def)
qed

text \<open>
  Claim C9.  \<open>startStaggerBlackout\<close> gives lane \<open>i\<close> of \<open>N\<close> lanes the freeze
  duration \<open>silence_window + step * (N - 1 - i)\<close> (in the 32-bit arithmetic of the
  sketch).  The lane at index \<open>N - 1\<close> gets exactly the silence window; as long as
  the longest duration fits into 32 bits, a lane with a higher index never has a
  longer freeze than one with a lower index, so the freeze of index \<open>N - 1\<close> is the
  shortest and that of index 0 the longest.  With a 3500 ms window, a 700 ms step
  and 4 lanes the freezes of the indices 3, 2, 1, 0 end 3500, 4200, 4900 and 5600
  ms after the start.

  The end of its freeze does not make a lane resume.  \<open>startStaggerBlackout\<close> also
  stops every lane and sets the end of the mode to the end of the longest freeze.
  Through every call of \<open>loop()\<close> whose clock reading is before that end, all
  lanes stay stopped and no lane is energized, whether its own freeze is over or
  not.  The call of \<open>loop()\<close> that reads the end of the mode or a later time
  runs \<open>endStaggerBlackout\<close>, which sets the mode back to normal and restarts all
  lanes together, lane \<open>i\<close> being next due at
  \<open>millis() + periodMs + rng(0, 100 + 20 * i)\<close>.
\<close>

theorem stagger_blackout_by_index:
  "s0 = startStaggerBlackout cfg w s \<Longrightarrow> i < NLANES cfg \<Longrightarrow>
   list_all (\<lambda>k. sint (millisTape w (clockReads s0 + k) - modeEndsAt s0) < 0) [0 ..< n] \<Longrightarrow>
     staggerFreeze cfg w s i
       = STAGGER_SILENCE_MS cfg + STAGGER_STOP_STEP_MS cfg * word_of_nat (NLANES cfg - 1 - i)
   \<and> staggerFreeze cfg w s (NLANES cfg - 1) = STAGGER_SILENCE_MS cfg
   \<and> (unat (STAGGER_SILENCE_MS cfg) + unat (STAGGER_STOP_STEP_MS cfg) * (NLANES cfg - 1) < 2 ^ 32
        \<longrightarrow> (\<forall>j. i \<le> j \<and> j < NLANES cfg
               \<longrightarrow> unat (staggerFreeze cfg w s j) \<le> unat (staggerFreeze cfg w s i)))
   \<and> (NLANES cfg = 4 \<and> STAGGER_SILENCE_MS cfg = 3500 \<and> STAGGER_STOP_STEP_MS cfg = 700
        \<longrightarrow> map (staggerFreeze cfg w s) [3, 2, 1, 0] = [3500, 4200, 4900, 5600])
   \<and> blackout cfg s0
   \<and> modeEndsAt s0 - millis w s = staggerFreeze cfg w s 0
   \<and> (\<exists>s'. ticks cfg w n s0 = Some s' \<and> blackout cfg s' \<and> pulses s' = pulses s
             \<and> modeEndsAt s' = modeEndsAt s0)
   \<and> (\<forall>s' now. blackout cfg s' \<and> 0 \<le> sint (now - modeEndsAt s') \<longrightarrow>
          handleMode cfg w now s' = endStaggerBlackout cfg w s'
        \<and> mode (endStaggerBlackout cfg w s') = MODE_NORMAL
        \<and> pulses (endStaggerBlackout cfg w s') = pulses s'
        \<and> running (lanes (endStaggerBlackout cfg w s') i)
        \<and> nextDue (lanes (endStaggerBlackout cfg w s') i)
            = millisTape w (clockReads s' + i) + periodMs (lanes s' i)
                + rng 0 (100 + 20 * word_of_nat i) (randomTape w (randomReads s' + i)))"
proof (intro impI conjI allI)
  assume s0: "s0 = startStaggerBlackout cfg w s" and i: "i < NLANES cfg"
    and early: "list_all (\<lambda>k. sint (millisTape w (clockReads s0 + k) - modeEndsAt s0) < 0) [0 ..< n]"
  show "staggerFreeze cfg w s i
       = STAGGER_SILENCE_MS cfg + STAGGER_STOP_STEP_MS cfg * word_of_nat (NLANES cfg - 1 - i)"
    by (rule staggerFreeze_eq[OF i])
  have "NLANES cfg - 1 < NLANES cfg" using i by simp
  from staggerFreeze_eq[OF this]
  show "staggerFreeze cfg w s (NLANES cfg - 1) = STAGGER_SILENCE_MS cfg" by simp
  show b: "blackout cfg s0"
    unfolding s0 by (rule startStaggerBlackout_blackout)
  have "0 < NLANES cfg" using i by simp
  then show "modeEndsAt s0 - millis w s = staggerFreeze cfg w s 0"
    unfolding s0 by (rule modeEnds_longest)
  from ticks_blackout[OF b early]
  show "\<exists>s'. ticks cfg w n s0 = Some s' \<and> blackout cfg s' \<and> pulses s' = pulses s
             \<and> modeEndsAt s' = modeEndsAt s0"
    by (auto simp: s0 startStaggerBlackout_ends)
next
  fix j
  assume i: "i < NLANES cfg"
    and b: "unat (STAGGER_SILENCE_MS cfg) + unat (STAGGER_STOP_STEP_MS cfg) * (NLANES cfg - 1)
              < 2 ^ 32"
    and j: "i \<le> j \<and> j < NLANES cfg"
  have "unat (STAGGER_STOP_STEP_MS cfg) * (NLANES cfg - 1 - j)
      \<le> unat (STAGGER_STOP_STEP_MS cfg) * (NLANES cfg - 1 - i)"
    using j by (intro mult_le_mono2) arith
  then show "unat (staggerFreeze cfg w s j) \<le> unat (staggerFreeze cfg w s i)"
    using staggerFreeze_unat[OF i b] staggerFreeze_unat[OF _ b, of j] j by simp
next
  assume "i < NLANES cfg"
    and c: "NLANES cfg = 4 \<and> STAGGER_SILENCE_MS cfg = 3500 \<and> STAGGER_STOP_STEP_MS cfg = 700"
  then show "map (staggerFreeze cfg w s) [3, 2, 1, 0] = [3500, 4200, 4900, 5600]"
    by (simp add: staggerFreeze_eq)
next
  fix s' now
  assume i: "i < NLANES cfg" and e: "blackout cfg s' \<and> 0 \<le> sint (now - modeEndsAt s')"
  from e show "handleMode cfg w now s' = endStaggerBlackout cfg w s'"
    by (simp add: handleMode_blackout_end)
  show "mode (endStaggerBlackout cfg w s') = MODE_NORMAL"
    "pulses (endStaggerBlackout cfg w s') = pulses s'"
    by (simp_all add: endStaggerBlackout_lanes)
  from i show "running (lanes (endStaggerBlackout cfg w s') i)"
    by (simp add: endStaggerBlackout_lanes)
  from i show "nextDue (lanes (endStaggerBlackout cfg w s') i)
            = millisTape w (clockReads s' + i) + periodMs (lanes s' i)
                + rng 0 (100 + 20 * word_of_nat i) (randomTape w (randomReads s' + i))"
    by (simp add: endStaggerBlackout_lanes)
qed

theorem stagger_blackout_by_index_witness:
  "(3::nat) < NLANES sketch_config
   \<and> list_all (\<lambda>k. sint (millisTape staggerTape (clockReads staggerStart + k)
                             - modeEndsAt staggerStart) < 0) [0 ..< 2]
   \<and> map (staggerFreeze sketch_config staggerTape (setup0 sketch_config staggerTape)) [3, 2, 1, 0]
       = [3500, 4200, 4900, 5600]
   \<and> modeEndsAt staggerStart - millis staggerTape (setup0 sketch_config staggerTape) = 5600
   \<and> blackout sketch_config (the (ticks sketch_config staggerTape 2 staggerStart))
   \<and> pulses (the (ticks sketch_config staggerTape 2 staggerStart)) = []
   \<and> mode (endStaggerBlackout sketch_config staggerTape
              (the (ticks sketch_config staggerTape 2 staggerStart))) = MODE_NORMAL
   \<and> running (lanes (endStaggerBlackout sketch_config staggerTape
                        (the (ticks sketch_config staggerTape 2 staggerStart))) 3)
   \<and> nextDue (lanes (endStaggerBlackout sketch_config staggerTape
                        (the (ticks sketch_config staggerTape 2 staggerStart))) 3) = 6612"
proof -
  have h: "(3::nat) < NLANES sketch_config" by (simp add: stagger_facts)
  have e: "list_all (\<lambda>k. sint (millisTape staggerTape (clockReads staggerStart + k)
                             - modeEndsAt staggerStart) < 0) [0 ..< 2]"
    by (simp add: staggerStart_facts stagger_facts upt_conv_Cons)
  from stagger_trace obtain s1 s2 where
    t: "loop sketch_config staggerTape staggerStart = Some s1"
       "loop sketch_config staggerTape s1 = Some s2"
       "clockReads s2 = 8" "randomReads s2 = 5" "periodMs (lanes s2 3) = 990"
    by blast
  have k: "ticks sketch_config staggerTape 2 staggerStart = Some s2"
    by (simp add: eval_nat_numeral t)
  note th = stagger_blackout_by_index[OF staggerStart_def h e]
  from th have b: "blackout sketch_config s2" "modeEndsAt s2 = 5600"
    by (auto simp: k staggerStart_facts)
  have z: "0 \<le> sint (5600 - modeEndsAt s2)" by (simp add: b)
  from th b(1) z have n: "nextDue (lanes (endStaggerBlackout sketch_config staggerTape s2) 3)
      = millisTape staggerTape (clockReads s2 + 3) + periodMs (lanes s2 3)
          + rng 0 (100 + 20 * word_of_nat 3) (randomTape staggerTape (randomReads s2 + 3))"
    by blast
  from th b(1) z have r: "running (lanes (endStaggerBlackout sketch_config staggerTape s2) 3)"
    "mode (endStaggerBlackout sketch_config staggerTape s2) = MODE_NORMAL"
    by blast+
  have n': "nextDue (lanes (endStaggerBlackout sketch_config staggerTape s2) 3) = 6612"
    unfolding n by (simp add: t stagger_facts rng_def)
  from th have p: "pulses s2 = []" "map (staggerFreeze sketch_config staggerTape (setup0 sketch_config staggerTape)) [3, 2, 1, 0]
       = [3500, 4200, 4900, 5600]"
    "modeEndsAt staggerStart - millis staggerTape (setup0 sketch_config staggerTape) = 5600"
    by (auto simp: k setup0_stagger stagger_facts)
  show ?thesis
    using h e p b r n' by (simp add: k)
qed

text \<open>
  The blackout is triggered at \<open>t = 0\<close> right after \<open>setup()\<close>, and \<open>loop()\<close> is
  called at 3500, 4900, 5600 and 6600 ms.  Lane 3 has the shortest freeze and lane
  0 the longest.  After the call at 3500 ms the freeze of lane 3 is over and the
  lane is due, but it is stopped: nothing has been energized after the calls at
  3500, 4900 and 5600 ms.  The call at 5600 ms ends the blackout and schedules the
  lanes 0, 1, 2, 3 at 6600, 6641, 6662 and 6612 ms, and the first lane to be
  energized, in the call at 6600 ms, is lane 0.
\<close>

theorem stagger_resume_order_counterexample:
  "map (staggerFreeze sketch_config staggerTape (setup0 sketch_config staggerTape)) [3, 2, 1, 0]
       = [3500, 4200, 4900, 5600]
   \<and> map (\<lambda>k. millisTape staggerTape (clockReads staggerStart + k)) [0, 1, 2] = [3500, 4900, 5600]
   \<and> map_option (\<lambda>s. (freezeUntil (lanes s 3), nextDue (lanes s 3), running (lanes s 3), pulses s))
        (ticks sketch_config staggerTape 1 staggerStart) = Some (0, 4, False, [])
   \<and> map_option pulses (ticks sketch_config staggerTape 2 staggerStart) = Some []
   \<and> map_option (\<lambda>s. (mode s, map (\<lambda>i. nextDue (lanes s i)) [0, 1, 2, 3], pulses s))
        (ticks sketch_config staggerTape 3 staggerStart)
       = Some (MODE_NORMAL, [6600, 6641, 6662, 6612], [])
   \<and> map_option pulses (ticks sketch_config staggerTape 4 staggerStart) = Some [(0, 6600)]"
proof -
  from stagger_trace obtain s1 s2 s3 s4 where
    t: "loop sketch_config staggerTape staggerStart = Some s1"
       "loop sketch_config staggerTape s1 = Some s2"
       "loop sketch_config staggerTape s2 = Some s3"
       "loop sketch_config staggerTape s3 = Some s4"
       "pulses s1 = []" "freezeUntil (lanes s1 3) = 0" "\<not> running (lanes s1 3)"
       "nextDue (lanes s1 3) = 4" "pulses s2 = []"
       "pulses s3 = []" "mode s3 = MODE_NORMAL"
       "map (\<lambda>i. nextDue (lanes s3 i)) [0, 1, 2, 3] = [6600, 6641, 6662, 6612]"
       "pulses s4 = [(0, 6600)]"
    by (elim exE conjE) (rule that; assumption)
  have f: "map (staggerFreeze sketch_config staggerTape (setup0 sketch_config staggerTape)) [3, 2, 1, 0]
       = [3500, 4200, 4900, 5600]"
    by (simp add: staggerFreeze_eq stagger_facts)
  have c: "map (\<lambda>k. millisTape staggerTape (clockReads staggerStart + k)) [0, 1, 2] = [3500, 4900, 5600]"
    by (simp add: staggerStart_facts stagger_facts)
  have k: "ticks sketch_config staggerTape 1 staggerStart = Some s1"
    "ticks sketch_config staggerTape 2 staggerStart = Some s2"
    "ticks sketch_config staggerTape 3 staggerStart = Some s3"
    "ticks sketch_config staggerTape 4 staggerStart = Some s4"
    by (simp_all add: eval_nat_numeral t(1-4))
  show ?thesis
    unfolding k using t(5-13) f c by simp
qed

end
